(* ===== verification/Prelude.thy ===== *)
theory Prelude
  imports
    Complex_Main
    "HOL-Library.AList"
    "HOL-Library.Multiset"
    "HOL-Library.Sublist"
    "HOL-Library.Char_ord"
    "HOL-Library.List_Lexorder"
    "HOL-Library.Product_Lexorder"
begin

text \<open>
  The vocabulary shared by the component theories: Python dictionaries as
  association lists in insertion order, Python slices, stable sorting by a key,
  de-duplication in first-occurrence order, and the locale
  \<open>transition_invariant\<close> that lifts an invariant of single steps to every
  interleaving of steps.  Python's \<open>float\<close> (clock readings, scores, rates) is
  modelled by \<^typ>\<open>real\<close>, that is, without rounding; its unbounded
  \<open>int\<close> by \<^typ>\<open>int\<close>, or \<^typ>\<open>nat\<close> where the code
  only counts up.
\<close>

named_theorems step_defs \<open>definitions of the atomic steps of a component\<close>
named_theorems inv_defs \<open>definitions of the invariants of a component\<close>

section \<open>Python exceptions\<close>

text \<open>
  A computation that may raise has type \<open>py_exn + 'a\<close>: \<open>Inl\<close> the
  exception, \<open>Inr\<close> the result.
\<close>

datatype py_exn = KeyError | ValueError | IndexError | TypeError | OverflowError | RuntimeError | AttributeError

definition bindE :: "'e + 'a \<Rightarrow> ('a \<Rightarrow> 'e + 'b) \<Rightarrow> 'e + 'b" where
  "bindE m f = (case m of Inl e \<Rightarrow> Inl e | Inr x \<Rightarrow> f x)"

lemma bindE_simps [simp]: "bindE (Inl e) f = Inl e" "bindE (Inr x) f = f x"
  by (simp_all add: bindE_def)

lemma bindE_Inr: "bindE m f = Inr y \<longleftrightarrow> (\<exists>x. m = Inr x \<and> f x = Inr y)"
  by (cases m) simp_all

section \<open>Python dictionaries\<close>

text \<open>
  A Python \<open>dict\<close> keeps insertion order: assigning to a present key keeps its
  position, a new key is appended, \<open>del\<close> removes it.  \<^const>\<open>AList.update\<close>
  and \<^const>\<open>AList.delete\<close> do exactly that on lists of pairs.
\<close>

type_synonym ('k, 'v) dict = "('k \<times> 'v) list"

abbreviation dget :: "('k, 'v) dict \<Rightarrow> 'k \<Rightarrow> 'v option" where
  "dget d k \<equiv> map_of d k"

abbreviation dset :: "'k \<Rightarrow> 'v \<Rightarrow> ('k, 'v) dict \<Rightarrow> ('k, 'v) dict" where
  "dset k v d \<equiv> AList.update k v d"

abbreviation ddel :: "'k \<Rightarrow> ('k, 'v) dict \<Rightarrow> ('k, 'v) dict" where
  "ddel k d \<equiv> AList.delete k d"

abbreviation dkeys :: "('k, 'v) dict \<Rightarrow> 'k list" where
  "dkeys d \<equiv> map fst d"

definition dget_default :: "('k, 'v) dict \<Rightarrow> 'k \<Rightarrow> 'v \<Rightarrow> 'v" where
  "dget_default d k v = (case dget d k of None \<Rightarrow> v | Some w \<Rightarrow> w)"

text \<open>\<open>del d[k]\<close> raises when the key is missing.\<close>

definition del_key :: "'k \<Rightarrow> ('k, 'v) dict \<Rightarrow> py_exn + ('k, 'v) dict" where
  "del_key k d = (if dget d k = None then Inl KeyError else Inr (ddel k d))"

lemma dget_dset [simp]: "dget (dset k v d) k' = (if k' = k then Some v else dget d k')"
  by (simp add: update_conv')

lemma dget_ddel [simp]: "dget (ddel k d) k' = (if k' = k then None else dget d k')"
  by (simp add: delete_conv')

lemma dget_default_dset [simp]:
  "dget_default (dset k v d) k' w = (if k' = k then v else dget_default d k' w)"
  by (simp add: dget_default_def)

lemma dset_same: "dget d k = Some v \<Longrightarrow> dset k v d = d"
  by (induction d) (auto split: if_splits)

lemma distinct_dset [simp]: "distinct (dkeys d) \<Longrightarrow> distinct (dkeys (dset k v d))"
  by (rule distinct_update)

lemma distinct_ddel [simp]: "distinct (dkeys d) \<Longrightarrow> distinct (dkeys (ddel k d))"
  by (rule distinct_delete)

lemma length_ddel: "length (ddel k d) \<le> length d"
  by (rule length_delete_le)

lemma length_ddel_mem:
  "distinct (dkeys d) \<Longrightarrow> k \<in> set (dkeys d) \<Longrightarrow> length (ddel k d) = length d - 1"
proof (induction d)
  case (Cons p d)
  show ?case
  proof (cases "fst p = k")
    case True
    with Cons.prems have "ddel k d = d"
      by simp
    with True show ?thesis by simp
  next
    case False
    with Cons have "k \<in> set (dkeys d)" "distinct (dkeys d)" by auto
    moreover from this(1) have "length d \<noteq> 0" by auto
    ultimately show ?thesis using False Cons.IH by simp
  qed
qed simp

lemma length_dset_le: "length (dset k v d) \<le> Suc (length d)"
  by (induction d) auto

section \<open>Lists\<close>

text \<open>\<open>xs[a:b]\<close> for indices that are not negative.\<close>

definition slice :: "nat \<Rightarrow> nat \<Rightarrow> 'a list \<Rightarrow> 'a list" where
  "slice a b xs = take (b - a) (drop a xs)"

lemma length_slice [simp]: "length (slice a b xs) = min (b - a) (length xs - a)"
  by (simp add: slice_def min.commute)

lemma slice_0 [simp]: "slice 0 b xs = take b xs"
  by (simp add: slice_def)

lemma take_slice: "a \<le> b \<Longrightarrow> take a xs @ slice a b xs = take b xs"
  by (metis le_add_diff_inverse slice_def take_add)

lemma nth_slice: "i < b - a \<Longrightarrow> a + i < length xs \<Longrightarrow> slice a b xs ! i = xs ! (a + i)"
  by (simp add: slice_def)

text \<open>Slices with Python's treatment of negative indices.\<close>

definition py_norm :: "nat \<Rightarrow> int \<Rightarrow> nat" where
  "py_norm len i = (if i < 0 then nat (i + int len) else min len (nat i))"

definition py_upto :: "int \<Rightarrow> 'a list \<Rightarrow> 'a list" where
  "py_upto i xs = take (py_norm (length xs) i) xs"

definition py_from :: "int \<Rightarrow> 'a list \<Rightarrow> 'a list" where
  "py_from i xs = drop (py_norm (length xs) i) xs"

definition py_slice :: "int \<Rightarrow> int \<Rightarrow> 'a list \<Rightarrow> 'a list" where
  "py_slice a b xs = (let a = py_norm (length xs) a; b = py_norm (length xs) b
     in take (b - a) (drop a xs))"

lemma py_upto_nat [simp]: "py_upto (int n) xs = take n xs"
  by (auto simp: py_upto_def py_norm_def min_def)

lemma py_from_nat [simp]: "py_from (int n) xs = drop n xs"
  by (auto simp: py_from_def py_norm_def min_def)

lemma py_slice_nat [simp]: "py_slice (int a) (int b) xs = slice a b xs"
  by (auto simp: py_slice_def py_norm_def slice_def Let_def min_def)

lemma length_py_upto: "0 \<le> i \<Longrightarrow> length (py_upto i xs) \<le> nat i"
  by (simp add: py_upto_def py_norm_def)

text \<open>De-duplication that keeps the first occurrence of each element.\<close>

fun dedup_from :: "'a set \<Rightarrow> 'a list \<Rightarrow> 'a list" where
  "dedup_from seen [] = []"
| "dedup_from seen (x # xs) =
     (if x \<in> seen then dedup_from seen xs else x # dedup_from (insert x seen) xs)"

lemma set_dedup_from: "set (dedup_from seen xs) = set xs - seen"
  by (induction seen xs rule: dedup_from.induct) auto

lemma distinct_dedup_from: "distinct (dedup_from seen xs)"
  by (induction seen xs rule: dedup_from.induct) (auto simp: set_dedup_from)

lemma subseq_dedup_from: "subseq (dedup_from seen xs) xs"
  by (induction seen xs rule: dedup_from.induct) auto

lemma dedup_from_distinct:
  "distinct xs \<Longrightarrow> set xs \<inter> seen = {} \<Longrightarrow> dedup_from seen xs = xs"
  by (induction seen xs rule: dedup_from.induct) auto

section \<open>Python numbers and strings\<close>

text \<open>\<open>int(x)\<close> of a float truncates towards zero; \<open>round\<close> rounds half to even.\<close>

definition py_int :: "real \<Rightarrow> int" where
  "py_int x = (if 0 \<le> x then \<lfloor>x\<rfloor> else \<lceil>x\<rceil>)"

definition py_round :: "real \<Rightarrow> int" where
  "py_round x = (let f = \<lfloor>x\<rfloor>; d = x - of_int f in
     if d < 1/2 then f else if d > 1/2 then f + 1 else if even f then f else f + 1)"

definition py_round_digits :: "nat \<Rightarrow> real \<Rightarrow> real" where
  "py_round_digits n x = of_int (py_round (x * 10 ^ n)) / 10 ^ n"

text \<open>\<open>str.strip()\<close> on the characters of Latin-1 that Python counts as white space.\<close>

definition py_isspace :: "char \<Rightarrow> bool" where
  "py_isspace c = (let n = of_char c :: nat in
     9 \<le> n \<and> n \<le> 13 \<or> 28 \<le> n \<and> n \<le> 32 \<or> n = 133 \<or> n = 160)"

definition lstrip :: "string \<Rightarrow> string" where
  "lstrip s = dropWhile py_isspace s"

definition rstrip :: "string \<Rightarrow> string" where
  "rstrip s = rev (dropWhile py_isspace (rev s))"

definition strip :: "string \<Rightarrow> string" where
  "strip s = rstrip (lstrip s)"

lemma length_lstrip: "length (lstrip s) \<le> length s"
  by (simp add: lstrip_def length_dropWhile_le)

lemma length_rstrip: "length (rstrip s) \<le> length s"
  by (simp add: rstrip_def) (metis length_dropWhile_le length_rev)

lemma length_strip: "length (strip s) \<le> length s"
  by (metis strip_def length_lstrip length_rstrip le_trans)

text \<open>\<open>str.lower()\<close>, \<open>str.upper()\<close> on ASCII and \<open>str.isalnum()\<close> on Latin-1.\<close>

definition lower_char :: "char \<Rightarrow> char" where
  "lower_char c = (let n = of_char c :: nat in
     if 65 \<le> n \<and> n \<le> 90 \<or> 192 \<le> n \<and> n \<le> 222 \<and> n \<noteq> 215 then char_of (n + 32) else c)"

definition py_lower :: "string \<Rightarrow> string" where
  "py_lower s = map lower_char s"

definition ascii_upper :: "string \<Rightarrow> string" where
  "ascii_upper s = map (\<lambda>c. let n = of_char c :: nat in
     if 97 \<le> n \<and> n \<le> 122 then char_of (n - 32) else c) s"

definition py_isalnum :: "char \<Rightarrow> bool" where
  "py_isalnum c = (let n = of_char c :: nat in
     48 \<le> n \<and> n \<le> 57 \<or> 65 \<le> n \<and> n \<le> 90 \<or> 97 \<le> n \<and> n \<le> 122
     \<or> n \<in> {170, 178, 179, 181, 185, 186, 188, 189, 190} \<or> 192 \<le> n \<and> n \<noteq> 215 \<and> n \<noteq> 247)"

lemma length_py_lower [simp]: "length (py_lower s) = length s"
  by (simp add: py_lower_def)

text \<open>\<open>s.find(p)\<close>: the first position at which \<open>p\<close> occurs.\<close>

fun find_from :: "nat \<Rightarrow> string \<Rightarrow> string \<Rightarrow> nat option" where
  "find_from i p [] = (if p = [] then Some i else None)"
| "find_from i p (c # s) = (if prefix p (c # s) then Some i else find_from (Suc i) p s)"

definition py_find :: "string \<Rightarrow> string \<Rightarrow> nat option" where
  "py_find s p = find_from 0 p s"

lemma find_from_Some:
  "find_from i p s = Some j \<Longrightarrow> i \<le> j \<and> prefix p (drop (j - i) s) \<and> j - i \<le> length s"
proof (induction i p s rule: find_from.induct)
  case (2 i p c s)
  show ?case
  proof (cases "prefix p (c # s)")
    case False
    with 2 have "Suc i \<le> j" "prefix p (drop (j - Suc i) s)" "j - Suc i \<le> length s" by auto
    moreover from this(1) have "j - i = Suc (j - Suc i)" by simp
    ultimately show ?thesis by simp
  qed (use 2 in auto)
qed (auto split: if_splits)

lemma py_find_Some:
  assumes "py_find s p = Some j"
  shows "j + length p \<le> length s" "slice j (j + length p) s = p"
proof -
  have pre: "prefix p (drop j s)" and j: "j \<le> length s"
    using find_from_Some [of 0 p s j] assms by (auto simp: py_find_def)
  then show "slice j (j + length p) s = p"
    by (auto simp: slice_def prefix_def)
  show "j + length p \<le> length s" using prefix_length_le [OF pre] j by simp
qed

lemma find_from_None: "find_from i p s = None \<longleftrightarrow> \<not> sublist p s"
  by (induction i p s rule: find_from.induct) (auto simp: sublist_Cons_right)

lemma py_find_None: "py_find s p = None \<longleftrightarrow> \<not> sublist p s"
  by (simp add: py_find_def find_from_None)

text \<open>\<open>str(n)\<close> of an integer that is not negative.\<close>

definition digit_char :: "nat \<Rightarrow> char" where
  "digit_char d = char_of (48 + d)"

fun show_nat :: "nat \<Rightarrow> string" where
  "show_nat n = (if n < 10 then [digit_char n] else show_nat (n div 10) @ [digit_char (n mod 10)])"

declare show_nat.simps [simp del]

section \<open>JSON-like values\<close>

datatype pyval =
    PNone | PBool bool | PInt int | PFloat real | PStr string
  | PList "pyval list" | PDict "(string \<times> pyval) list"

text \<open>Truth value testing.\<close>

fun truthy :: "pyval \<Rightarrow> bool" where
  "truthy PNone = False"
| "truthy (PBool b) = b"
| "truthy (PInt i) = (i \<noteq> 0)"
| "truthy (PFloat x) = (x \<noteq> 0)"
| "truthy (PStr s) = (s \<noteq> [])"
| "truthy (PList xs) = (xs \<noteq> [])"
| "truthy (PDict d) = (d \<noteq> [])"

section \<open>Sorting\<close>

text \<open>
  \<open>sorted(xs, key=f)\<close> is stable, as is \<^const>\<open>sort_key\<close>; with
  \<open>reverse=True\<close> equal elements keep their order too.
\<close>

definition sort_key_desc :: "('a \<Rightarrow> 'k::linorder) \<Rightarrow> 'a list \<Rightarrow> 'a list" where
  "sort_key_desc f xs = rev (sort_key f (rev xs))"

lemma mset_sort_key_desc [simp]: "mset (sort_key_desc f xs) = mset xs"
  by (simp add: sort_key_desc_def)

lemma set_sort_key_desc [simp]: "set (sort_key_desc f xs) = set xs"
  by (simp add: sort_key_desc_def)

lemma length_sort_key_desc [simp]: "length (sort_key_desc f xs) = length xs"
  by (simp add: sort_key_desc_def)

lemma sorted_sort_key_desc: "sorted_wrt (\<lambda>a b. f b \<le> f a) (sort_key_desc f xs)"
proof -
  have "sorted_wrt (\<lambda>a b. f a \<le> f b) (sort_key f (rev xs))"
    using sorted_sort_key [of f "rev xs"] by (simp add: sorted_map)
  then show ?thesis by (simp add: sort_key_desc_def sorted_wrt_rev)
qed

section \<open>Invariants of transition systems\<close>

text \<open>
  A component shared between threads is a relation on its state, one rule per
  region of code that runs under the component's lock.  An invariant kept by
  every step holds after any interleaving.
\<close>

lemmas reach_step = converse_rtranclp_into_rtranclp

locale transition_invariant =
  fixes step :: "'s \<Rightarrow> 's \<Rightarrow> bool"
    and inv :: "'s \<Rightarrow> bool"
  assumes preserve: "step s t \<Longrightarrow> inv s \<Longrightarrow> inv t"
begin

lemma reach_inv: "step\<^sup>*\<^sup>* s t \<Longrightarrow> inv s \<Longrightarrow> inv t"
  by (induction rule: rtranclp_induct) (auto intro: preserve)

lemma reach_consequence:
  "step\<^sup>*\<^sup>* s t \<Longrightarrow> inv s \<Longrightarrow> (\<And>u. inv u \<Longrightarrow> P u) \<Longrightarrow> P t"
  by (blast intro: reach_inv)

end

end
