(* ===== verification/Circuit_Breaker.thy ===== *)
theory Circuit_Breaker
  imports Prelude
begin

text \<open>
  \<open>backend/shared/circuit_breaker.py\<close>: the three-state breaker, its admission
  and completion steps, and the registry.  \<open>CircuitBreaker.call\<close> holds the lock
  while it admits a call and again while it records the outcome, and runs the
  guarded function in between without the lock; calls of several threads
  therefore interleave as \<open>cb_admit\<close>, \<open>on_success\<close> and \<open>on_failure\<close>
  steps, which \<open>cb_step\<close> collects.  The state of the system is the breaker
  with the number of guarded functions in flight.  Every reading of the
  monotonic clock is an argument.  The Prometheus gauge and counters the code
  sets are fields of the record; log lines are left out.
\<close>

section \<open>State and operations\<close>

datatype circuit_state = CLOSED | OPEN | HALF_OPEN

fun state_gauge_value :: "circuit_state \<Rightarrow> nat" where
  "state_gauge_value CLOSED = 0"
| "state_gauge_value OPEN = 1"
| "state_gauge_value HALF_OPEN = 2"

record circuit_breaker =
  cb_name :: string
  failure_threshold :: int
  recovery_timeout :: real
  half_open_max_calls :: int
  success_threshold :: int
  cb_state :: circuit_state
  failure_count :: int
  success_count :: int
  half_open_calls :: int
  last_failure_time :: real
  opened_at :: real
  total_calls :: int
  total_successes :: int
  total_failures :: int
  total_rejected :: int
  gauge_state :: "nat option"
  counter_rejections :: int
  counter_failures :: int

text \<open>\<open>CircuitBreakerOpen(name, remaining_seconds)\<close>.\<close>

datatype circuit_breaker_open = CircuitBreakerOpen string real

definition cb_init :: "string \<Rightarrow> int \<Rightarrow> real \<Rightarrow> int \<Rightarrow> int \<Rightarrow> circuit_breaker" where
  "cb_init n ft rt hm st =
     \<lparr>cb_name = n, failure_threshold = ft, recovery_timeout = rt,
      half_open_max_calls = hm, success_threshold = st, cb_state = CLOSED,
      failure_count = 0, success_count = 0, half_open_calls = 0,
      last_failure_time = 0, opened_at = 0,
      total_calls = 0, total_successes = 0, total_failures = 0, total_rejected = 0,
      gauge_state = None, counter_rejections = 0, counter_failures = 0\<rparr>"

definition transition_to :: "circuit_state \<Rightarrow> real \<Rightarrow> circuit_breaker \<Rightarrow> circuit_breaker" where
  "transition_to new now cb =
     (let cb = cb\<lparr>cb_state := new, gauge_state := Some (state_gauge_value new)\<rparr> in
      case new of
        OPEN \<Rightarrow> cb\<lparr>opened_at := now, success_count := 0, half_open_calls := 0\<rparr>
      | HALF_OPEN \<Rightarrow> cb\<lparr>half_open_calls := 0, success_count := 0\<rparr>
      | CLOSED \<Rightarrow> cb\<lparr>failure_count := 0, success_count := 0, half_open_calls := 0\<rparr>)"

definition check_state_transition :: "real \<Rightarrow> circuit_breaker \<Rightarrow> circuit_breaker" where
  "check_state_transition now cb =
     (if cb_state cb = OPEN \<and> now - opened_at cb \<ge> recovery_timeout cb
      then transition_to HALF_OPEN now cb else cb)"

text \<open>The \<open>state\<close> property: reading it may move the breaker to half-open.\<close>

definition read_state :: "real \<Rightarrow> circuit_breaker \<Rightarrow> circuit_state \<times> circuit_breaker" where
  "read_state now cb =
     (let cb' = (if cb_state cb = OPEN then
                   (if now - opened_at cb \<ge> recovery_timeout cb
                    then transition_to HALF_OPEN now cb else cb)
                 else cb)
      in (cb_state cb', cb'))"

record cb_metrics =
  m_name :: string
  m_state :: circuit_state
  m_failure_count :: int
  m_success_count :: int
  m_total_calls :: int
  m_total_successes :: int
  m_total_failures :: int
  m_total_rejected :: int
  m_opened_at :: real
  m_failure_threshold :: int
  m_recovery_timeout :: real

definition cb_metrics_of :: "circuit_breaker \<Rightarrow> cb_metrics" where
  "cb_metrics_of cb =
     \<lparr>m_name = cb_name cb, m_state = cb_state cb, m_failure_count = failure_count cb,
      m_success_count = success_count cb, m_total_calls = total_calls cb,
      m_total_successes = total_successes cb, m_total_failures = total_failures cb,
      m_total_rejected = total_rejected cb, m_opened_at = opened_at cb,
      m_failure_threshold = failure_threshold cb,
      m_recovery_timeout = recovery_timeout cb\<rparr>"

text \<open>
  The region of \<open>call\<close> under the lock: \<open>Inl\<close> the exception, or \<open>Inr ()\<close> when
  the guarded function is to run.  \<open>t0\<close> is the clock reading of the transition
  check, \<open>t1\<close> the one of the remaining time.
\<close>

definition count_rejection :: "circuit_breaker \<Rightarrow> circuit_breaker" where
  "count_rejection cb =
     cb\<lparr>total_rejected := total_rejected cb + 1,
        counter_rejections := counter_rejections cb + 1\<rparr>"

definition cb_admit ::
  "real \<Rightarrow> real \<Rightarrow> circuit_breaker \<Rightarrow> (circuit_breaker_open + unit) \<times> circuit_breaker" where
  "cb_admit t0 t1 cb =
     (let cb = check_state_transition t0 (cb\<lparr>total_calls := total_calls cb + 1\<rparr>) in
      if cb_state cb = OPEN then
        (let remaining = recovery_timeout cb - (t1 - opened_at cb)
         in (Inl (CircuitBreakerOpen (cb_name cb) (max 0 remaining)), count_rejection cb))
      else if cb_state cb = HALF_OPEN then
        (if half_open_calls cb \<ge> half_open_max_calls cb
         then (Inl (CircuitBreakerOpen (cb_name cb) 0), count_rejection cb)
         else (Inr (), cb\<lparr>half_open_calls := half_open_calls cb + 1\<rparr>))
      else (Inr (), cb))"

definition on_success :: "real \<Rightarrow> circuit_breaker \<Rightarrow> circuit_breaker" where
  "on_success now cb =
     (let cb = cb\<lparr>total_successes := total_successes cb + 1\<rparr> in
      if cb_state cb = HALF_OPEN then
        (let cb = cb\<lparr>success_count := success_count cb + 1\<rparr> in
         if success_count cb \<ge> success_threshold cb then transition_to CLOSED now cb else cb)
      else cb\<lparr>failure_count := 0\<rparr>)"

definition on_failure :: "real \<Rightarrow> real \<Rightarrow> circuit_breaker \<Rightarrow> circuit_breaker" where
  "on_failure t0 t1 cb =
     (let cb = cb\<lparr>total_failures := total_failures cb + 1,
                  counter_failures := counter_failures cb + 1,
                  failure_count := failure_count cb + 1,
                  last_failure_time := t0\<rparr> in
      if cb_state cb = HALF_OPEN then transition_to OPEN t1 cb
      else if cb_state cb = CLOSED then
        (if failure_count cb \<ge> failure_threshold cb then transition_to OPEN t1 cb else cb)
      else cb)"

definition cb_reset :: "real \<Rightarrow> circuit_breaker \<Rightarrow> circuit_breaker" where
  "cb_reset now cb = transition_to CLOSED now cb"

text \<open>
  What the guarded function does: it returns, raises an \<open>Exception\<close>, or raises
  a \<open>BaseException\<close> that is not an \<open>Exception\<close> (task cancellation, keyboard
  interrupt), which \<open>except Exception\<close> lets through unrecorded.
\<close>

datatype ('a, 'e) func_outcome = Returned 'a | RaisedException 'e | RaisedBase 'e

datatype ('a, 'e) call_result = BreakerOpen circuit_breaker_open | Ran "('a, 'e) func_outcome"

definition cb_call ::
  "real \<Rightarrow> real \<Rightarrow> real \<Rightarrow> real \<Rightarrow> (unit \<Rightarrow> ('a, 'e) func_outcome) \<Rightarrow> circuit_breaker
     \<Rightarrow> ('a, 'e) call_result \<times> circuit_breaker" where
  "cb_call t0 t1 t2 t3 func cb =
     (case cb_admit t0 t1 cb of
        (Inl e, cb') \<Rightarrow> (BreakerOpen e, cb')
      | (Inr _, cb') \<Rightarrow>
          (case func () of
             Returned v \<Rightarrow> (Ran (Returned v), on_success t2 cb')
           | RaisedException e \<Rightarrow> (Ran (RaisedException e), on_failure t2 t3 cb')
           | RaisedBase e \<Rightarrow> (Ran (RaisedBase e), cb')))"

text \<open>The registry of named breakers.\<close>

type_synonym cb_registry = "(string, circuit_breaker) dict"

definition registry_get_or_create ::
  "string \<Rightarrow> int \<Rightarrow> real \<Rightarrow> int \<Rightarrow> int \<Rightarrow> cb_registry \<Rightarrow> circuit_breaker option \<times> cb_registry" where
  "registry_get_or_create n ft rt hm st reg =
     (let reg' = (if dget reg n = None then dset n (cb_init n ft rt hm st) reg else reg)
      in (dget reg' n, reg'))"

definition registry_get :: "string \<Rightarrow> cb_registry \<Rightarrow> circuit_breaker option" where
  "registry_get n reg = dget reg n"

definition registry_get_all_metrics :: "cb_registry \<Rightarrow> (string, cb_metrics) dict" where
  "registry_get_all_metrics reg = map (\<lambda>(n, cb). (n, cb_metrics_of cb)) reg"

definition registry_reset_all :: "real \<Rightarrow> cb_registry \<Rightarrow> cb_registry" where
  "registry_reset_all now reg = map (\<lambda>(n, cb). (n, cb_reset now cb)) reg"

lemmas cb_ops_defs [step_defs] =
  cb_admit_def on_success_def on_failure_def cb_reset_def read_state_def
  check_state_transition_def transition_to_def count_rejection_def Let_def

section \<open>Interleavings\<close>

type_synonym cb_system = "circuit_breaker \<times> nat"

inductive cb_step :: "cb_system \<Rightarrow> cb_system \<Rightarrow> bool" where
  cb_step_admit: "cb_admit t0 t1 cb = (Inr (), cb') \<Longrightarrow> cb_step (cb, n) (cb', Suc n)"
| cb_step_reject: "cb_admit t0 t1 cb = (Inl e, cb') \<Longrightarrow> cb_step (cb, n) (cb', n)"
| cb_step_success: "cb_step (cb, Suc n) (on_success t cb, n)"
| cb_step_failure: "cb_step (cb, Suc n) (on_failure t0 t1 cb, n)"
| cb_step_read: "cb_step (cb, n) (snd (read_state t cb), n)"

text \<open>A guarded function that ends with a \<open>BaseException\<close>, and a manual reset.\<close>

inductive cb_step_any :: "cb_system \<Rightarrow> cb_system \<Rightarrow> bool" where
  cb_any_step: "cb_step s s' \<Longrightarrow> cb_step_any s s'"
| cb_any_interrupt: "cb_step_any (cb, Suc n) (cb, n)"
| cb_any_reset: "cb_step_any (cb, n) (cb_reset t cb, n)"

inductive_cases cb_step_from: "cb_step (cb, n) s"

definition cb_inv :: "cb_system \<Rightarrow> bool" where
  "cb_inv s = (let cb = fst s in
     failure_threshold cb \<ge> 1 \<and> success_threshold cb \<ge> 1 \<and> half_open_max_calls cb \<ge> 0 \<and>
     failure_count cb \<ge> 0 \<and>
     (cb_state cb = CLOSED \<longrightarrow> failure_count cb < failure_threshold cb) \<and>
     0 \<le> success_count cb \<and> success_count cb < success_threshold cb \<and>
     0 \<le> half_open_calls cb \<and> half_open_calls cb \<le> half_open_max_calls cb \<and>
     (cb_state cb \<noteq> HALF_OPEN \<longrightarrow> success_count cb = 0 \<and> half_open_calls cb = 0) \<and>
     (gauge_state cb = Some (state_gauge_value (cb_state cb))
        \<or> gauge_state cb = None \<and> cb_state cb = CLOSED) \<and>
     counter_rejections cb = total_rejected cb \<and> counter_failures cb = total_failures cb)"

definition cb_account :: "cb_system \<Rightarrow> bool" where
  "cb_account s = (let cb = fst s; n = snd s in
     cb_inv s \<and>
     total_calls cb = total_successes cb + total_failures cb + total_rejected cb + int n \<and>
     half_open_calls cb \<le> success_count cb + int n)"

lemmas cb_inv_defs [inv_defs] = cb_inv_def cb_account_def

lemma cb_step_keeps_inv: "cb_step s t \<Longrightarrow> cb_inv s \<Longrightarrow> cb_inv t"
  by (induction rule: cb_step.induct)
     (auto simp: step_defs inv_defs split: if_splits circuit_state.splits)

lemma cb_step_any_keeps_inv: "cb_step_any s t \<Longrightarrow> cb_inv s \<Longrightarrow> cb_inv t"
proof (induction rule: cb_step_any.induct)
  case (cb_any_step s s')
  then show ?case by (blast intro: cb_step_keeps_inv)
qed (auto simp: step_defs inv_defs)

lemma cb_step_keeps_account: "cb_step s t \<Longrightarrow> cb_account s \<Longrightarrow> cb_account t"
  by (induction rule: cb_step.induct)
     (auto simp: step_defs inv_defs split: if_splits circuit_state.splits)

text \<open>The configuration never changes.\<close>

definition cb_config :: "circuit_breaker \<Rightarrow> int \<times> real \<times> int \<times> int" where
  "cb_config cb = (failure_threshold cb, recovery_timeout cb, half_open_max_calls cb,
     success_threshold cb)"

lemma cb_step_config: "cb_step s t \<Longrightarrow> cb_config (fst t) = cb_config (fst s)"
  by (induction rule: cb_step.induct)
     (auto simp: step_defs cb_config_def split: if_splits)

interpretation cb_configured: transition_invariant cb_step "\<lambda>s. cb_config (fst s) = c" for c
  by unfold_locales (simp add: cb_step_config)

interpretation cb_safe: transition_invariant cb_step_any cb_inv
  by unfold_locales (rule cb_step_any_keeps_inv)

interpretation cb_counted: transition_invariant cb_step cb_account
  by unfold_locales (rule cb_step_keeps_account)

lemma cb_init_inv:
  "ft \<ge> 1 \<Longrightarrow> st \<ge> 1 \<Longrightarrow> hm \<ge> 0 \<Longrightarrow> cb_inv (cb_init n ft rt hm st, 0)"
  by (simp add: inv_defs cb_init_def)

lemma cb_init_account:
  "ft \<ge> 1 \<Longrightarrow> st \<ge> 1 \<Longrightarrow> hm \<ge> 0 \<Longrightarrow> cb_account (cb_init n ft rt hm st, 0)"
  by (simp add: inv_defs cb_init_def)

section \<open>Properties\<close>





definition cb_stuck :: "cb_system \<Rightarrow> bool" where
  "cb_stuck s = (cb_state (fst s) = HALF_OPEN
     \<and> half_open_calls (fst s) \<ge> half_open_max_calls (fst s) \<and> snd s = 0)"

lemma cb_stuck_step: "cb_step s t \<Longrightarrow> cb_stuck s \<Longrightarrow> cb_stuck t"
  by (induction rule: cb_step.induct)
     (auto simp: step_defs cb_stuck_def split: if_splits)

interpretation cb_blocked: transition_invariant cb_step cb_stuck
  by unfold_locales (rule cb_stuck_step)

definition cb_after_failure :: circuit_breaker where
  "cb_after_failure = on_failure 0 0 ((cb_init ''db'' 1 30 1 1)\<lparr>total_calls := 1\<rparr>)"

lemma cb_reach_stuck:
  "cb_step_any\<^sup>*\<^sup>* (cb_init ''db'' 1 30 1 1, 0) (snd (cb_admit 31 31 cb_after_failure), 0)"
proof -
  let ?i = "cb_init ''db'' 1 30 1 1"
  have 1: "cb_step_any (?i, 0) (?i\<lparr>total_calls := 1\<rparr>, Suc 0)"
    by (rule cb_any_step, rule cb_step_admit [of 0 0]) (simp add: step_defs cb_init_def)
  have 2: "cb_step_any (?i\<lparr>total_calls := 1\<rparr>, Suc 0) (cb_after_failure, 0)"
    unfolding cb_after_failure_def by (rule cb_any_step, rule cb_step_failure)
  have 3: "cb_step_any (cb_after_failure, 0) (snd (cb_admit 31 31 cb_after_failure), Suc 0)"
    by (rule cb_any_step, rule cb_step_admit [of 31 31])
       (simp add: step_defs cb_init_def cb_after_failure_def)
  have 4: "cb_step_any (snd (cb_admit 31 31 cb_after_failure), Suc 0)
      (snd (cb_admit 31 31 cb_after_failure), 0)"
    by (rule cb_any_interrupt)
  show ?thesis
    by (rule reach_step, rule 1, rule reach_step, rule 2, rule reach_step, rule 3,
        rule reach_step, rule 4, rule rtranclp.rtrancl_refl)
qed


end
