(* ===== verification/Rate_Limiter.thy ===== *)
theory Rate_Limiter
  imports Prelude
begin

text \<open>
  \<open>backend/shared/rate_limiter.py\<close>: the token bucket, the limiter with one
  global bucket and one bucket per client address, and the HTTP middleware.
  The locale \<open>metered\<close> states what a bucket promises (its level grows at most
  at its rate and an admission costs one token) and bounds the admissions of
  any run; the token bucket interprets it and the limiter uses it.  Address
  parsing and network membership (Python's \<open>ipaddress\<close>) and the downstream
  handler are parameters.
\<close>

section \<open>Token bucket\<close>

record token_bucket =
  tb_rate :: real
  tb_capacity :: real
  tb_tokens :: real
  tb_last_refill :: real

definition tb_init :: "real \<Rightarrow> real \<Rightarrow> real \<Rightarrow> token_bucket" where
  "tb_init rate capacity now =
     \<lparr>tb_rate = rate, tb_capacity = capacity, tb_tokens = capacity, tb_last_refill = now\<rparr>"

definition consume :: "real \<Rightarrow> real \<Rightarrow> token_bucket \<Rightarrow> bool \<times> token_bucket" where
  "consume tokens now b =
     (let elapsed = now - tb_last_refill b;
          b = b\<lparr>tb_last_refill := now\<rparr>;
          b = b\<lparr>tb_tokens := min (tb_capacity b) (tb_tokens b + elapsed * tb_rate b)\<rparr>
      in if tb_tokens b \<ge> tokens then (True, b\<lparr>tb_tokens := tb_tokens b - tokens\<rparr>)
         else (False, b))"

definition available_tokens :: "real \<Rightarrow> token_bucket \<Rightarrow> real" where
  "available_tokens now b =
     (let elapsed = now - tb_last_refill b
      in min (tb_capacity b) (tb_tokens b + elapsed * tb_rate b))"

text \<open>\<open>float("inf")\<close> is \<^const>\<open>None\<close>.\<close>

definition time_until_available :: "token_bucket \<Rightarrow> real option" where
  "time_until_available b =
     (if tb_tokens b \<ge> 1 then Some 0
      else (let deficit = 1 - tb_tokens b
            in if tb_rate b > 0 then Some (deficit / tb_rate b) else None))"

definition tb_wf :: "token_bucket \<Rightarrow> bool" where
  "tb_wf b = (0 \<le> tb_rate b \<and> 0 \<le> tb_tokens b \<and> tb_tokens b \<le> tb_capacity b)"

lemmas tb_defs = consume_def available_tokens_def tb_wf_def Let_def

subsection \<open>What a bucket promises\<close>

locale metered =
  fixes level :: "real \<Rightarrow> 'b \<Rightarrow> real"
    and acquire :: "real \<Rightarrow> 'b \<Rightarrow> bool \<times> 'b"
    and rate :: "'b \<Rightarrow> real"
    and since :: "'b \<Rightarrow> real"
    and wf :: "'b \<Rightarrow> bool"
  assumes level_nonneg: "wf b \<Longrightarrow> since b \<le> t \<Longrightarrow> 0 \<le> level t b"
    and level_grows: "wf b \<Longrightarrow> since b \<le> t \<Longrightarrow> t \<le> u \<Longrightarrow>
          level u b \<le> level t b + rate b * (u - t)"
    and acquire_wf: "wf b \<Longrightarrow> since b \<le> t \<Longrightarrow> wf (snd (acquire t b))"
    and acquire_since: "since (snd (acquire t b)) = t"
    and acquire_rate: "rate (snd (acquire t b)) = rate b"
    and acquire_level: "wf b \<Longrightarrow> since b \<le> t \<Longrightarrow>
          level t (snd (acquire t b)) = level t b - (if fst (acquire t b) then 1 else 0)"
begin

fun grants :: "real list \<Rightarrow> 'b \<Rightarrow> nat" where
  "grants [] b = 0"
| "grants (t # ts) b =
     (case acquire t b of (ok, b') \<Rightarrow> (if ok then 1 else 0) + grants ts b')"

lemma grants_bound:
  "wf b \<Longrightarrow> sorted (t # ts) \<Longrightarrow> since b \<le> t \<Longrightarrow>
     real (grants (t # ts) b) \<le> level t b + rate b * (last (t # ts) - t)"
proof (induction ts arbitrary: t b)
  case Nil
  obtain ok b' where a: "acquire t b = (ok, b')" by (cases "acquire t b")
  have "0 \<le> level t b'"
    using Nil acquire_wf [of b t] acquire_since [of t b] level_nonneg [of b' t] by (simp add: a)
  then show ?case using acquire_level [of b t] Nil by (simp add: a split: if_splits)
next
  case (Cons u us)
  obtain ok b' where a: "acquire t b = (ok, b')" by (cases "acquire t b")
  have wf: "wf b'" and s: "since b' = t" and r: "rate b' = rate b"
    and l: "level t b' = level t b - (if ok then 1 else 0)"
    using Cons.prems acquire_wf [of b t] acquire_since [of t b] acquire_rate [of t b]
      acquire_level [of b t] by (simp_all add: a)
  have "real (grants (u # us) b') \<le> level u b' + rate b' * (last (u # us) - u)"
    using Cons.IH [of b' u] Cons.prems wf s by simp
  moreover have "level u b' \<le> level t b' + rate b' * (u - t)"
    using level_grows [of b' t u] wf s Cons.prems by simp
  ultimately have "real (grants (u # us) b') + (if ok then 1 else 0)
      \<le> level t b + rate b * (u - t) + rate b * (last (u # us) - u)"
    using l r by (simp split: if_splits)
  also have "\<dots> = level t b + rate b * (last (u # us) - t)" by argo
  finally show ?case by (simp add: a split: if_splits)
qed

end

lemma consume_wf: "tb_wf b \<Longrightarrow> tb_last_refill b \<le> t \<Longrightarrow> tb_wf (snd (consume 1 t b))"
  by (auto simp: tb_defs min_def)

lemma consume_since: "tb_last_refill (snd (consume n t b)) = t"
  by (simp add: tb_defs)

lemma consume_rate: "tb_rate (snd (consume n t b)) = tb_rate b"
  by (simp add: tb_defs)

lemma consume_capacity: "tb_capacity (snd (consume n t b)) = tb_capacity b"
  by (simp add: tb_defs)

lemma consume_level:
  "tb_wf b \<Longrightarrow> tb_last_refill b \<le> t \<Longrightarrow>
   available_tokens t (snd (consume 1 t b))
     = available_tokens t b - (if fst (consume 1 t b) then 1 else 0)"
  by (auto simp: tb_defs min_def)

lemma consume_ok_iff: "fst (consume n t b) \<longleftrightarrow> n \<le> available_tokens t b"
  by (simp add: tb_defs)

lemma available_grows:
  assumes "tb_wf b" "t \<le> u"
  shows "available_tokens u b \<le> available_tokens t b + tb_rate b * (u - t)"
proof -
  have "0 \<le> tb_rate b * (u - t)" using assms by (simp add: tb_wf_def)
  moreover have "(u - tb_last_refill b) * tb_rate b
      = (t - tb_last_refill b) * tb_rate b + tb_rate b * (u - t)" by argo
  ultimately show ?thesis by (auto simp: tb_defs min_def)
qed

interpretation tb: metered available_tokens "consume 1" tb_rate tb_last_refill tb_wf
  by unfold_locales
     (auto simp: consume_wf consume_since consume_rate consume_level
       intro: available_grows, auto simp: tb_defs)

section \<open>The limiter\<close>

record rate_limiter =
  global_rate :: real
  per_ip_rate :: real
  burst_multiplier :: real
  cleanup_interval :: real
  global_bucket :: token_bucket
  ip_buckets :: "(string, token_bucket) dict"
  ip_last_seen :: "(string, real) dict"
  last_cleanup :: real
  total_allowed :: nat
  rl_total_rejected :: nat
  rejected_by_ip :: "(string, nat) dict"
  counter_allowed :: nat
  counter_rejected :: nat

definition rl_init :: "real \<Rightarrow> real \<Rightarrow> real \<Rightarrow> real \<Rightarrow> real \<Rightarrow> real \<Rightarrow> rate_limiter" where
  "rl_init grate iprate burst interval t0 t1 =
     \<lparr>global_rate = grate, per_ip_rate = iprate, burst_multiplier = burst,
      cleanup_interval = interval, global_bucket = tb_init grate (grate * burst) t0,
      ip_buckets = [], ip_last_seen = [], last_cleanup = t1,
      total_allowed = 0, rl_total_rejected = 0, rejected_by_ip = [],
      counter_allowed = 0, counter_rejected = 0\<rparr>"

definition get_ip_bucket ::
  "string \<Rightarrow> real \<Rightarrow> real \<Rightarrow> rate_limiter \<Rightarrow> token_bucket \<times> rate_limiter" where
  "get_ip_bucket ip t0 t1 rl =
     (let rl = rl\<lparr>ip_last_seen := dset ip t0 (ip_last_seen rl)\<rparr> in
      case dget (ip_buckets rl) ip of
        Some b \<Rightarrow> (b, rl)
      | None \<Rightarrow>
          (let b = tb_init (per_ip_rate rl) (per_ip_rate rl * burst_multiplier rl) t1
           in (b, rl\<lparr>ip_buckets := dset ip b (ip_buckets rl)\<rparr>)))"

fun delete_stale :: "string list \<Rightarrow> rate_limiter \<Rightarrow> py_exn + rate_limiter" where
  "delete_stale [] rl = Inr rl"
| "delete_stale (ip # ips) rl =
     bindE (del_key ip (ip_buckets rl)) (\<lambda>bs.
     bindE (del_key ip (ip_last_seen rl)) (\<lambda>ls.
     delete_stale ips (rl\<lparr>ip_buckets := bs, ip_last_seen := ls,
       rejected_by_ip := ddel ip (rejected_by_ip rl)\<rparr>)))"

definition maybe_cleanup :: "real \<Rightarrow> rate_limiter \<Rightarrow> py_exn + rate_limiter" where
  "maybe_cleanup now rl =
     (if now - last_cleanup rl < cleanup_interval rl then Inr rl
      else (let rl = rl\<lparr>last_cleanup := now\<rparr>;
                stale_ips = map fst (filter (\<lambda>(ip, last_seen).
                  now - last_seen > cleanup_interval rl) (ip_last_seen rl))
            in delete_stale stale_ips rl))"

definition count_rejected :: "rate_limiter \<Rightarrow> rate_limiter" where
  "count_rejected rl = rl\<lparr>rl_total_rejected := rl_total_rejected rl + 1,
     counter_rejected := counter_rejected rl + 1\<rparr>"

text \<open>The clock readings of one \<open>check\<close>, in program order.\<close>

record check_times =
  ct_cleanup :: real
  ct_global :: real
  ct_seen :: real
  ct_create :: real
  ct_ip :: real

definition check ::
  "check_times \<Rightarrow> string \<Rightarrow> rate_limiter \<Rightarrow> py_exn + ((bool \<times> real option option) \<times> rate_limiter)" where
  "check ct client_ip rl =
     bindE (maybe_cleanup (ct_cleanup ct) rl) (\<lambda>rl.
       case consume 1 (ct_global ct) (global_bucket rl) of (ok, gb) \<Rightarrow>
       let rl = rl\<lparr>global_bucket := gb\<rparr> in
       if \<not> ok then Inr ((False, Some (time_until_available gb)), count_rejected rl)
       else
         (case get_ip_bucket client_ip (ct_seen ct) (ct_create ct) rl of (bucket, rl) \<Rightarrow>
          case consume 1 (ct_ip ct) bucket of (ok, bucket) \<Rightarrow>
          let rl = rl\<lparr>ip_buckets := dset client_ip bucket (ip_buckets rl)\<rparr> in
          if \<not> ok then
            Inr ((False, Some (time_until_available bucket)),
              (count_rejected rl)\<lparr>rejected_by_ip :=
                 dset client_ip (dget_default (rejected_by_ip rl) client_ip 0 + 1)
                   (rejected_by_ip rl)\<rparr>)
          else Inr ((True, None), rl\<lparr>total_allowed := total_allowed rl + 1,
                 counter_allowed := counter_allowed rl + 1\<rparr>)))"

record rl_metrics =
  rm_total_allowed :: nat
  rm_total_rejected :: nat
  rm_active_ip_buckets :: nat
  rm_global_tokens_available :: real
  rm_top_rejected_ips :: "(string, nat) dict"

definition rl_metrics_of :: "real \<Rightarrow> rate_limiter \<Rightarrow> rl_metrics" where
  "rl_metrics_of now rl =
     \<lparr>rm_total_allowed = total_allowed rl, rm_total_rejected = rl_total_rejected rl,
      rm_active_ip_buckets = length (ip_buckets rl),
      rm_global_tokens_available = available_tokens now (global_bucket rl),
      rm_top_rejected_ips = take 10 (sort_key_desc snd (rejected_by_ip rl))\<rparr>"

text \<open>The white list is an attribute of the class, shared by every limiter.\<close>

type_synonym whitelist = "string set"

definition add_to_whitelist :: "string \<Rightarrow> whitelist \<Rightarrow> whitelist" where
  "add_to_whitelist ip wl = insert ip wl"

definition is_whitelisted :: "string \<Rightarrow> whitelist \<Rightarrow> bool" where
  "is_whitelisted ip wl = (ip \<in> wl)"

section \<open>The middleware\<close>

definition EXEMPT_PATHS :: "string set" where
  "EXEMPT_PATHS = {''/health'', ''/live'', ''/ready'', ''/docs'', ''/openapi.json'', ''/redoc''}"

record http_request =
  rq_path :: string
  rq_client :: "string option"
  rq_forwarded_for :: "string option"

definition client_ip_of ::
  "(string \<Rightarrow> 'ip option) \<Rightarrow> ('ip \<Rightarrow> string) \<Rightarrow> ('ip \<Rightarrow> 'net \<Rightarrow> bool) \<Rightarrow> 'net list
     \<Rightarrow> http_request \<Rightarrow> string" where
  "client_ip_of ip_address str_ip in_net trusted_proxies request =
     (let peer = (case rq_client request of Some h \<Rightarrow> h | None \<Rightarrow> ''unknown'') in
      case ip_address peer of
        None \<Rightarrow> peer
      | Some peer_address \<Rightarrow>
          if \<not> list_ex (in_net peer_address) trusted_proxies then peer
          else
            (let header = (case rq_forwarded_for request of Some h \<Rightarrow> h | None \<Rightarrow> []);
                 forwarded = strip (takeWhile (\<lambda>c. c \<noteq> CHR '','') header)
             in if forwarded = [] then peer
                else case ip_address forwarded of Some a \<Rightarrow> str_ip a | None \<Rightarrow> peer))"

text \<open>
  A response: the downstream one untouched, the downstream one with the two
  rate-limit headers, or 429 with the body's \<open>retry_after\<close>, the \<open>Retry-After\<close>
  header and the limit header.
\<close>

datatype 'r limited_response =
    Unlimited 'r
  | WithHeaders 'r int int
  | TooManyRequests real int int

definition retry_header :: "real option option \<Rightarrow> py_exn + int" where
  "retry_header r = (case r of
     Some None \<Rightarrow> Inl OverflowError
   | Some (Some x) \<Rightarrow> Inr (if x \<noteq> 0 then py_int x + 1 else 1)
   | None \<Rightarrow> Inr 1)"

definition retry_body :: "real option option \<Rightarrow> real" where
  "retry_body r = (case r of
     Some (Some x) \<Rightarrow> (if x \<noteq> 0 then py_round_digits 1 x else 1)
   | _ \<Rightarrow> 1)"

definition dispatch ::
  "(http_request \<Rightarrow> string) \<Rightarrow> (http_request \<Rightarrow> 'r) \<Rightarrow> whitelist \<Rightarrow> check_times \<Rightarrow> real \<Rightarrow> real \<Rightarrow> real
     \<Rightarrow> http_request \<Rightarrow> rate_limiter \<Rightarrow> py_exn + ('r limited_response \<times> rate_limiter)" where
  "dispatch client_ip_fn call_next wl ct t0 t1 t2 request rl =
     (if rq_path request \<in> EXEMPT_PATHS then Inr (Unlimited (call_next request), rl)
      else
        (let client_ip = client_ip_fn request in
         if is_whitelisted client_ip wl then Inr (Unlimited (call_next request), rl)
         else
           bindE (check ct client_ip rl) (\<lambda>((allowed, retry_after), rl).
             if \<not> allowed then
               bindE (retry_header retry_after) (\<lambda>h.
                 Inr (TooManyRequests (retry_body retry_after) h (py_int (per_ip_rate rl)), rl))
             else
               (let response = call_next request in
                case get_ip_bucket client_ip t0 t1 rl of (bucket, rl') \<Rightarrow>
                  Inr (WithHeaders response (py_int (per_ip_rate rl))
                         (py_int (available_tokens t2 bucket)), rl')))))"

section \<open>Invariant of the limiter\<close>

definition rl_inv :: "real \<Rightarrow> real \<Rightarrow> rate_limiter \<Rightarrow> bool" where
  "rl_inv \<delta> t rl =
     (0 \<le> per_ip_rate rl \<and> 0 \<le> burst_multiplier rl
      \<and> tb_wf (global_bucket rl) \<and> tb_last_refill (global_bucket rl) \<le> t
      \<and> (\<forall>ip. dget (ip_buckets rl) ip = None \<longleftrightarrow> dget (ip_last_seen rl) ip = None)
      \<and> (\<forall>ip b s. dget (ip_buckets rl) ip = Some b \<longrightarrow> dget (ip_last_seen rl) ip = Some s \<longrightarrow>
           tb_wf b \<and> tb_rate b = per_ip_rate rl
           \<and> tb_capacity b = per_ip_rate rl * burst_multiplier rl
           \<and> tb_last_refill b \<le> t \<and> tb_last_refill b \<le> s + \<delta>)
      \<and> distinct (dkeys (ip_last_seen rl)))"

definition times_ok :: "real \<Rightarrow> real \<Rightarrow> check_times \<Rightarrow> bool" where
  "times_ok \<delta> t ct = (t \<le> ct_cleanup ct \<and> ct_cleanup ct \<le> ct_global ct \<and> ct_global ct \<le> ct_seen ct
     \<and> ct_seen ct \<le> ct_create ct \<and> ct_create ct \<le> ct_ip ct \<and> ct_ip ct \<le> ct_seen ct + \<delta>)"

lemma rl_inv_nonneg: "rl_inv \<delta> t rl \<Longrightarrow> 0 \<le> per_ip_rate rl \<and> 0 \<le> burst_multiplier rl"
  unfolding rl_inv_def by blast

lemma rl_inv_keys:
  "rl_inv \<delta> t rl \<Longrightarrow> dget (ip_buckets rl) ip = None \<longleftrightarrow> dget (ip_last_seen rl) ip = None"
  unfolding rl_inv_def by blast

lemma rl_inv_later: "rl_inv \<delta> t rl \<Longrightarrow> t \<le> u \<Longrightarrow> rl_inv \<delta> u rl"
  unfolding rl_inv_def by (meson order_trans)

lemma rl_inv_bucketD:
  assumes "rl_inv \<delta> t rl" "dget (ip_buckets rl) ip = Some b"
  shows "tb_wf b" "tb_rate b = per_ip_rate rl"
    "tb_capacity b = per_ip_rate rl * burst_multiplier rl" "tb_last_refill b \<le> t"
    "dget (ip_last_seen rl) ip = Some s \<Longrightarrow> tb_last_refill b \<le> s + \<delta>"
proof -
  from rl_inv_keys [OF assms(1)] assms(2) obtain s' where s: "dget (ip_last_seen rl) ip = Some s'"
    by (metis not_None_eq)
  with assms have *: "tb_wf b \<and> tb_rate b = per_ip_rate rl
      \<and> tb_capacity b = per_ip_rate rl * burst_multiplier rl
      \<and> tb_last_refill b \<le> t \<and> tb_last_refill b \<le> s' + \<delta>"
    unfolding rl_inv_def by blast
  then show "tb_wf b" "tb_rate b = per_ip_rate rl"
    "tb_capacity b = per_ip_rate rl * burst_multiplier rl" "tb_last_refill b \<le> t" by auto
  show "tb_last_refill b \<le> s + \<delta>" if "dget (ip_last_seen rl) ip = Some s"
    using that s * by simp
qed

text \<open>Deleting the buckets of listed addresses never raises, and deletes just them.\<close>

lemma delete_stale_ok:
  assumes "rl_inv \<delta> t rl" "distinct ips" "set ips \<subseteq> set (dkeys (ip_last_seen rl))"
  shows "\<exists>rl'. delete_stale ips rl = Inr rl' \<and> rl_inv \<delta> t rl'
    \<and> (\<forall>ip. dget (ip_buckets rl') ip = (if ip \<in> set ips then None else dget (ip_buckets rl) ip))
    \<and> global_bucket rl' = global_bucket rl \<and> per_ip_rate rl' = per_ip_rate rl
    \<and> burst_multiplier rl' = burst_multiplier rl \<and> cleanup_interval rl' = cleanup_interval rl"
  using assms
proof (induction ips arbitrary: rl)
  case (Cons ip ips)
  let ?rl = "rl\<lparr>ip_buckets := ddel ip (ip_buckets rl), ip_last_seen := ddel ip (ip_last_seen rl),
     rejected_by_ip := ddel ip (rejected_by_ip rl)\<rparr>"
  have seen: "dget (ip_last_seen rl) ip \<noteq> None"
    using Cons.prems by (simp add: map_of_eq_None_iff)
  have bucket: "dget (ip_buckets rl) ip \<noteq> None"
    using seen Cons.prems(1) by (auto simp: rl_inv_def)
  have "rl_inv \<delta> t ?rl" using Cons.prems(1) by (auto simp: rl_inv_def)
  moreover have "set ips \<subseteq> set (dkeys (ip_last_seen ?rl))"
    using Cons.prems by (auto simp: delete_keys)
  ultimately obtain rl' where "delete_stale ips ?rl = Inr rl' \<and> rl_inv \<delta> t rl'
    \<and> (\<forall>i. dget (ip_buckets rl') i = (if i \<in> set ips then None else dget (ip_buckets ?rl) i))
    \<and> global_bucket rl' = global_bucket rl \<and> per_ip_rate rl' = per_ip_rate rl
    \<and> burst_multiplier rl' = burst_multiplier rl \<and> cleanup_interval rl' = cleanup_interval rl"
    using Cons.IH [of ?rl] Cons.prems by auto
  then show ?case using seen bucket by (auto simp: del_key_def)
qed simp

lemma maybe_cleanup_ok:
  assumes "rl_inv \<delta> t rl" "t \<le> now"
  shows "\<exists>rl'. maybe_cleanup now rl = Inr rl' \<and> rl_inv \<delta> t rl'
    \<and> (\<forall>ip. dget (ip_buckets rl') ip = dget (ip_buckets rl) ip
          \<or> dget (ip_buckets rl') ip = None
            \<and> (\<exists>s. dget (ip_last_seen rl) ip = Some s \<and> now - s > cleanup_interval rl))
    \<and> global_bucket rl' = global_bucket rl \<and> per_ip_rate rl' = per_ip_rate rl
    \<and> burst_multiplier rl' = burst_multiplier rl \<and> cleanup_interval rl' = cleanup_interval rl"
proof (cases "now - last_cleanup rl < cleanup_interval rl")
  case True
  then show ?thesis using assms by (simp add: maybe_cleanup_def)
next
  case False
  let ?rl = "rl\<lparr>last_cleanup := now\<rparr>"
  let ?ips = "map fst (filter (\<lambda>(ip, s). now - s > cleanup_interval ?rl) (ip_last_seen ?rl))"
  have d: "distinct (dkeys (ip_last_seen rl))" and inv: "rl_inv \<delta> t ?rl"
    using assms by (auto simp: rl_inv_def)
  have "distinct ?ips" using d by (simp add: distinct_map_filter)
  moreover have "set ?ips \<subseteq> set (dkeys (ip_last_seen ?rl))" by auto
  moreover have "ip \<in> set ?ips \<Longrightarrow> \<exists>s. dget (ip_last_seen rl) ip = Some s
      \<and> now - s > cleanup_interval rl" for ip
    using d by (force simp: map_of_eq_Some_iff)
  ultimately show ?thesis
    using delete_stale_ok [OF inv, of ?ips] False by (auto simp: maybe_cleanup_def Let_def)
qed

section \<open>Tokens available to one address\<close>

definition ip_level :: "string \<Rightarrow> real \<Rightarrow> rate_limiter \<Rightarrow> real" where
  "ip_level ip t rl = (case dget (ip_buckets rl) ip of
     None \<Rightarrow> per_ip_rate rl * burst_multiplier rl
   | Some b \<Rightarrow> available_tokens t b)"

lemma ip_level_grows:
  assumes "rl_inv \<delta> t rl" "t \<le> u"
  shows "ip_level x u rl \<le> ip_level x t rl + per_ip_rate rl * (u - t)"
proof (cases "dget (ip_buckets rl) x")
  case None
  then show ?thesis using assms rl_inv_nonneg [of \<delta> t rl] by (simp add: ip_level_def)
next
  case (Some b)
  note b = rl_inv_bucketD [OF assms(1) Some]
  from b(1,2) show ?thesis using available_grows [of b t u] Some assms by (simp add: ip_level_def)
qed

text \<open>A bucket idle for longer than it needs to refill is full.\<close>

lemma idle_bucket_full:
  assumes "tb_wf b" "tb_capacity b = tb_rate b * m" "tb_last_refill b + m \<le> t"
  shows "available_tokens t b = tb_capacity b"
proof -
  have "tb_rate b * m \<le> tb_rate b * (t - tb_last_refill b)"
    using assms by (intro mult_left_mono) (auto simp: tb_wf_def)
  then show ?thesis using assms by (simp add: tb_defs min_def mult.commute)
qed

lemma maybe_cleanup_level:
  assumes inv: "rl_inv \<delta> t rl" and "t \<le> now" "burst_multiplier rl + \<delta> \<le> cleanup_interval rl"
    and run: "maybe_cleanup now rl = Inr rl'"
  shows "ip_level x now rl' = ip_level x now rl"
proof -
  note c = maybe_cleanup_ok [OF inv \<open>t \<le> now\<close>]
  have same: "per_ip_rate rl' = per_ip_rate rl" "burst_multiplier rl' = burst_multiplier rl"
    using c run by auto
  consider "dget (ip_buckets rl') x = dget (ip_buckets rl) x"
    | s where "dget (ip_buckets rl') x = None" "dget (ip_last_seen rl) x = Some s"
        "now - s > cleanup_interval rl"
    using c run by auto
  then show ?thesis
  proof cases
    case 1
    then show ?thesis using same by (simp add: ip_level_def split: option.split)
  next
    case 2
    then obtain b where b: "dget (ip_buckets rl) x = Some b"
      using rl_inv_keys [OF inv, of x] by auto
    note bD = rl_inv_bucketD [OF inv b]
    have "available_tokens now b = tb_capacity b"
      using 2 assms bD(1-3) bD(5) [of s] by (intro idle_bucket_full [of _ "burst_multiplier rl"]) auto
    then show ?thesis
      using 2 b same bD(3) by (simp add: ip_level_def)
  qed
qed

lemma tb_init_wf: "0 \<le> r \<Longrightarrow> 0 \<le> c \<Longrightarrow> tb_wf (tb_init r c t)"
  by (simp add: tb_wf_def tb_init_def)

lemma tb_init_level: "0 \<le> r \<Longrightarrow> t \<le> u \<Longrightarrow> available_tokens u (tb_init r c t) = c"
  by (simp add: available_tokens_def tb_init_def min_def mult_nonneg_nonneg)

lemma tb_init_simps [simp]:
  "tb_rate (tb_init r c t) = r" "tb_capacity (tb_init r c t) = c"
  "tb_last_refill (tb_init r c t) = t"
  by (simp_all add: tb_init_def)

text \<open>Writing a well-formed bucket of an address seen at \<open>s\<close> keeps the invariant.\<close>

lemma rl_inv_bucket:
  assumes inv: "rl_inv \<delta> t rl" and "t \<le> u" "tb_wf b" "tb_rate b = per_ip_rate rl"
    "tb_capacity b = per_ip_rate rl * burst_multiplier rl"
    "tb_last_refill b \<le> u" "tb_last_refill b \<le> s + \<delta>"
  shows "rl_inv \<delta> u (rl\<lparr>ip_buckets := dset ip b (ip_buckets rl),
    ip_last_seen := dset ip s (ip_last_seen rl)\<rparr>)"
proof -
  have "tb_wf b' \<and> tb_rate b' = per_ip_rate rl
      \<and> tb_capacity b' = per_ip_rate rl * burst_multiplier rl
      \<and> tb_last_refill b' \<le> u \<and> tb_last_refill b' \<le> s' + \<delta>"
    if "dget (dset ip b (ip_buckets rl)) ip' = Some b'"
       "dget (dset ip s (ip_last_seen rl)) ip' = Some s'" for ip' b' s'
  proof (cases "ip' = ip")
    case False
    then show ?thesis
      using that \<open>t \<le> u\<close> rl_inv_bucketD [OF inv, of ip' b'] by simp
  qed (use that assms in auto)
  moreover have "tb_last_refill (global_bucket rl) \<le> u" "tb_wf (global_bucket rl)"
    "distinct (dkeys (ip_last_seen rl))"
    using inv \<open>t \<le> u\<close> unfolding rl_inv_def by linarith+
  ultimately show ?thesis
    using rl_inv_nonneg [OF inv] rl_inv_keys [OF inv] unfolding rl_inv_def by simp
qed

lemma get_ip_bucket_ok:
  assumes inv: "rl_inv \<delta> t rl" and "0 \<le> \<delta>" "t \<le> t0" "t0 \<le> t1" "t1 \<le> t0 + \<delta>"
    and get: "get_ip_bucket ip t0 t1 rl = (b, rl')"
  shows "rl_inv \<delta> t1 rl' \<and> dget (ip_buckets rl') ip = Some b
    \<and> dget (ip_last_seen rl') ip = Some t0
    \<and> (t1 \<le> u \<longrightarrow> ip_level x u rl' = ip_level x u rl)
    \<and> global_bucket rl' = global_bucket rl \<and> per_ip_rate rl' = per_ip_rate rl
    \<and> burst_multiplier rl' = burst_multiplier rl \<and> cleanup_interval rl' = cleanup_interval rl"
proof (cases "dget (ip_buckets rl) ip")
  case None
  let ?b = "tb_init (per_ip_rate rl) (per_ip_rate rl * burst_multiplier rl) t1"
  have "rl_inv \<delta> t1 (rl\<lparr>ip_buckets := dset ip ?b (ip_buckets rl),
      ip_last_seen := dset ip t0 (ip_last_seen rl)\<rparr>)"
    using assms rl_inv_nonneg [OF inv] by (intro rl_inv_bucket [OF inv]) (auto intro!: tb_init_wf)
  moreover have "b = ?b" "rl' = rl\<lparr>ip_buckets := dset ip ?b (ip_buckets rl),
      ip_last_seen := dset ip t0 (ip_last_seen rl)\<rparr>"
    using None get by (auto simp: get_ip_bucket_def Let_def)
  ultimately show ?thesis
    using None rl_inv_nonneg [OF inv]
    by (simp add: ip_level_def tb_init_level split: option.split)
next
  case (Some b0)
  note b0 = rl_inv_bucketD(1-4) [OF inv Some]
  then have "rl_inv \<delta> t1 (rl\<lparr>ip_buckets := dset ip b0 (ip_buckets rl),
      ip_last_seen := dset ip t0 (ip_last_seen rl)\<rparr>)"
    using assms by (intro rl_inv_bucket [OF inv]) auto
  moreover have "b = b0" "rl' = rl\<lparr>ip_last_seen := dset ip t0 (ip_last_seen rl)\<rparr>"
    using Some get by (simp_all add: get_ip_bucket_def Let_def)
  ultimately show ?thesis using Some by (simp add: ip_level_def dset_same split: option.split)
qed

lemma rl_inv_global:
  assumes inv: "rl_inv \<delta> t rl" and "t \<le> u"
  shows "rl_inv \<delta> u (rl\<lparr>global_bucket := snd (consume 1 u (global_bucket rl))\<rparr>)"
proof -
  have "tb_wf (global_bucket rl)" "tb_last_refill (global_bucket rl) \<le> u"
    "distinct (dkeys (ip_last_seen rl))"
    using assms unfolding rl_inv_def by linarith+
  then show ?thesis
    using assms rl_inv_nonneg [OF inv] rl_inv_keys [OF inv] rl_inv_bucketD [OF inv]
    unfolding rl_inv_def by (force simp: consume_wf consume_since)
qed

text \<open>The invariant and the levels do not depend on the counters.\<close>

definition rl_core :: "rate_limiter \<Rightarrow> rate_limiter" where
  "rl_core rl = rl\<lparr>last_cleanup := 0, total_allowed := 0, rl_total_rejected := 0,
     rejected_by_ip := [], counter_allowed := 0, counter_rejected := 0\<rparr>"

lemma rl_core_simps [simp]:
  "rl_inv \<delta> t (rl_core rl) = rl_inv \<delta> t rl" "ip_level x t (rl_core rl) = ip_level x t rl"
  "global_bucket (rl_core rl) = global_bucket rl" "per_ip_rate (rl_core rl) = per_ip_rate rl"
  "burst_multiplier (rl_core rl) = burst_multiplier rl"
  "cleanup_interval (rl_core rl) = cleanup_interval rl"
  by (simp_all add: rl_core_def rl_inv_def ip_level_def split: option.split)

lemma rl_core_eq:
  assumes "rl_core a = rl_core b"
  shows "rl_inv \<delta> t a = rl_inv \<delta> t b" "ip_level x t a = ip_level x t b"
    "global_bucket a = global_bucket b" "per_ip_rate a = per_ip_rate b"
    "burst_multiplier a = burst_multiplier b" "cleanup_interval a = cleanup_interval b"
  using assms by (metis rl_core_simps)+

lemma ip_level_global [simp]: "ip_level x t (rl\<lparr>global_bucket := g\<rparr>) = ip_level x t rl"
  by (simp add: ip_level_def split: option.split)

text \<open>The cleanup and the global bucket.\<close>

lemma check_global_part:
  assumes inv: "rl_inv \<delta> t rl" and "t \<le> t0" "t0 \<le> u"
    and long: "burst_multiplier rl + \<delta> \<le> cleanup_interval rl"
    and run: "maybe_cleanup t0 rl = Inr rl1"
  shows "ip_level x u rl1 \<le> ip_level x t rl + per_ip_rate rl * (u - t)"
proof -
  have inv1: "rl_inv \<delta> t rl1" and p: "per_ip_rate rl1 = per_ip_rate rl"
    using maybe_cleanup_ok [OF inv \<open>t \<le> t0\<close>] run by auto
  have "ip_level x u rl1 \<le> ip_level x t0 rl1 + per_ip_rate rl1 * (u - t0)"
    using ip_level_grows [OF rl_inv_later [OF inv1]] assms by simp
  moreover have "ip_level x t0 rl1 = ip_level x t0 rl"
    by (rule maybe_cleanup_level [OF inv \<open>t \<le> t0\<close> long run])
  moreover have "ip_level x t0 rl \<le> ip_level x t rl + per_ip_rate rl * (t0 - t)"
    by (rule ip_level_grows [OF inv \<open>t \<le> t0\<close>])
  ultimately show ?thesis using p by (simp add: algebra_simps)
qed

text \<open>The bucket of the address.\<close>

lemma check_ip_part:
  assumes inv: "rl_inv \<delta> t rl" and "0 \<le> \<delta>" "t \<le> t0" "t0 \<le> t1" "t1 \<le> u" "u \<le> t0 + \<delta>"
    and get: "get_ip_bucket ip t0 t1 rl = (b, rl1)"
  defines "rl2 \<equiv> rl1\<lparr>ip_buckets := dset ip (snd (consume 1 u b)) (ip_buckets rl1)\<rparr>"
  shows "rl_inv \<delta> u rl2"
    "ip_level x u rl2 + (if fst (consume 1 u b) \<and> ip = x then 1 else 0) = ip_level x u rl"
    "global_bucket rl2 = global_bucket rl" "per_ip_rate rl2 = per_ip_rate rl"
    "burst_multiplier rl2 = burst_multiplier rl" "cleanup_interval rl2 = cleanup_interval rl"
proof -
  have inv1: "rl_inv \<delta> t1 rl1" and b: "dget (ip_buckets rl1) ip = Some b"
    and s: "dget (ip_last_seen rl1) ip = Some t0"
    and lev: "ip_level x u rl1 = ip_level x u rl"
    and p: "global_bucket rl1 = global_bucket rl" "per_ip_rate rl1 = per_ip_rate rl"
      "burst_multiplier rl1 = burst_multiplier rl" "cleanup_interval rl1 = cleanup_interval rl"
    using get_ip_bucket_ok [OF inv _ _ _ _ get, of u x] assms by auto
  note bD = rl_inv_bucketD [OF inv1 b]
  have lr: "tb_last_refill b \<le> u" using bD(4) assms by simp
  have "rl2 = rl1\<lparr>ip_buckets := dset ip (snd (consume 1 u b)) (ip_buckets rl1),
      ip_last_seen := dset ip t0 (ip_last_seen rl1)\<rparr>"
    by (simp add: rl2_def dset_same [OF s])
  then show "rl_inv \<delta> u rl2"
    using rl_inv_bucket [OF inv1, of u "snd (consume 1 u b)" t0 ip] bD(1-3) lr assms
    by (simp add: consume_wf consume_since consume_rate consume_capacity)
  show "ip_level x u rl2 + (if fst (consume 1 u b) \<and> ip = x then 1 else 0) = ip_level x u rl"
    using b consume_level [OF bD(1) lr] lev
    by (auto simp: rl2_def ip_level_def split: option.splits if_splits)
  show "global_bucket rl2 = global_bucket rl" "per_ip_rate rl2 = per_ip_rate rl"
    "burst_multiplier rl2 = burst_multiplier rl" "cleanup_interval rl2 = cleanup_interval rl"
    using p by (simp_all add: rl2_def)
qed

text \<open>
  One \<open>check\<close>: it does not raise, keeps the invariant, draws on the global bucket
  once, and the tokens an address has left grow at most at its rate, less the
  token an admission of that address costs.
\<close>

lemma check_step:
  assumes inv: "rl_inv \<delta> t rl" and ct: "times_ok \<delta> t ct" and d: "0 \<le> \<delta>"
    and long: "burst_multiplier rl + \<delta> \<le> cleanup_interval rl"
  shows "\<exists>r rl'. check ct ip rl = Inr (r, rl') \<and> rl_inv \<delta> (ct_ip ct) rl'
    \<and> global_bucket rl' = snd (consume 1 (ct_global ct) (global_bucket rl))
    \<and> (fst r \<longrightarrow> fst (consume 1 (ct_global ct) (global_bucket rl)))
    \<and> per_ip_rate rl' = per_ip_rate rl \<and> burst_multiplier rl' = burst_multiplier rl
    \<and> cleanup_interval rl' = cleanup_interval rl
    \<and> ip_level x (ct_ip ct) rl' + (if fst r \<and> ip = x then 1 else 0)
        \<le> ip_level x t rl + per_ip_rate rl * (ct_ip ct - t)"
proof -
  note tm = ct [unfolded times_ok_def]
  let ?T = "ct_ip ct"
  obtain rl1 where c1: "maybe_cleanup (ct_cleanup ct) rl = Inr rl1" and inv1: "rl_inv \<delta> t rl1"
    and p1: "global_bucket rl1 = global_bucket rl" "per_ip_rate rl1 = per_ip_rate rl"
      "burst_multiplier rl1 = burst_multiplier rl" "cleanup_interval rl1 = cleanup_interval rl"
    using maybe_cleanup_ok [OF inv, of "ct_cleanup ct"] tm by auto
  obtain ok gb where g: "consume 1 (ct_global ct) (global_bucket rl) = (ok, gb)"
    by (cases "consume 1 (ct_global ct) (global_bucket rl)")
  define rl2 where "rl2 = rl1\<lparr>global_bucket := gb\<rparr>"
  have inv2: "rl_inv \<delta> (ct_global ct) rl2"
    using rl_inv_global [OF inv1, of "ct_global ct"] tm p1 g by (simp add: rl2_def)
  have lev: "ip_level x ?T rl2 \<le> ip_level x t rl + per_ip_rate rl * (?T - t)"
    using check_global_part [OF inv _ _ long c1, of ?T x] tm by (simp add: rl2_def)
  have p2: "global_bucket rl2 = gb" "per_ip_rate rl2 = per_ip_rate rl"
    "burst_multiplier rl2 = burst_multiplier rl" "cleanup_interval rl2 = cleanup_interval rl"
    using p1 by (simp_all add: rl2_def)
  show ?thesis
  proof (cases ok)
    case False
    have "check ct ip rl = Inr ((False, Some (time_until_available gb)), count_rejected rl2)"
      using c1 p1 g False by (simp add: check_def rl2_def)
    moreover have "rl_core (count_rejected rl2) = rl_core rl2"
      by (simp add: rl_core_def count_rejected_def)
    ultimately show ?thesis
      using lev p2 g False rl_inv_later [OF inv2, of ?T] tm
      by (simp add: rl_core_eq [of "count_rejected rl2" rl2])
  next
    case True
    obtain b rl3 where get: "get_ip_bucket ip (ct_seen ct) (ct_create ct) rl2 = (b, rl3)"
      by (cases "get_ip_bucket ip (ct_seen ct) (ct_create ct) rl2")
    define rl4 where "rl4 = rl3\<lparr>ip_buckets := dset ip (snd (consume 1 ?T b)) (ip_buckets rl3)\<rparr>"
    obtain ok' b' where c: "consume 1 ?T b = (ok', b')" by (cases "consume 1 ?T b")
    obtain o' rl5 where "check ct ip rl = Inr ((fst (consume 1 ?T b), o'), rl5)"
        and "rl_core rl5 = rl_core rl4"
      using True c1 p1 get g c by (cases ok')
        (simp_all add: check_def rl2_def rl4_def count_rejected_def rl_core_def Let_def)
    moreover have "rl_inv \<delta> ?T rl4"
      "ip_level x ?T rl4 + (if fst (consume 1 ?T b) \<and> ip = x then 1 else 0) = ip_level x ?T rl2"
      "global_bucket rl4 = gb" "per_ip_rate rl4 = per_ip_rate rl"
      "burst_multiplier rl4 = burst_multiplier rl" "cleanup_interval rl4 = cleanup_interval rl"
      using check_ip_part(1,3-6) [OF inv2 d _ _ _ _ get, of ?T, folded rl4_def]
        check_ip_part(2) [OF inv2 d _ _ _ _ get, of ?T x, folded rl4_def] tm p2 by simp_all
    ultimately show ?thesis
      using lev g True by (simp add: rl_core_eq [of rl5 rl4])
  qed
qed

section \<open>Runs of the limiter\<close>

text \<open>The requests of a run, each with its clock readings; the outcomes in order.\<close>

fun rl_run ::
  "(string \<times> check_times) list \<Rightarrow> rate_limiter \<Rightarrow> py_exn + (bool list \<times> rate_limiter)" where
  "rl_run [] rl = Inr ([], rl)"
| "rl_run ((ip, ct) # reqs) rl =
     bindE (check ct ip rl) (\<lambda>((ok, _), rl).
     bindE (rl_run reqs rl) (\<lambda>(oks, rl). Inr (ok # oks, rl)))"

fun run_times_ok :: "real \<Rightarrow> real \<Rightarrow> (string \<times> check_times) list \<Rightarrow> bool" where
  "run_times_ok \<delta> t [] = True"
| "run_times_ok \<delta> t ((ip, ct) # reqs) = (times_ok \<delta> t ct \<and> run_times_ok \<delta> (ct_ip ct) reqs)"

definition admitted :: "bool list \<Rightarrow> nat" where
  "admitted oks = length (filter id oks)"

definition admitted_of :: "string \<Rightarrow> (string \<times> check_times) list \<Rightarrow> bool list \<Rightarrow> nat" where
  "admitted_of x reqs oks = length (filter (\<lambda>((ip, _), ok). ip = x \<and> ok) (zip reqs oks))"

definition run_end :: "real \<Rightarrow> (string \<times> check_times) list \<Rightarrow> real" where
  "run_end t reqs = (if reqs = [] then t else ct_ip (snd (last reqs)))"

lemma run_end_Cons: "run_end t ((ip, ct) # reqs) = run_end (ct_ip ct) reqs"
  by (simp add: run_end_def)

lemma run_end_later: "run_times_ok \<delta> t reqs \<Longrightarrow> t \<le> run_end t reqs"
  by (induction \<delta> t reqs rule: run_times_ok.induct)
     (auto simp: run_end_Cons times_ok_def, simp add: run_end_def)

text \<open>
  A run never raises; it admits no more requests than the global bucket grants,
  and no more requests of one address than that address's tokens allow.
\<close>

lemma rl_run_bounds:
  assumes "rl_inv \<delta> t rl" "run_times_ok \<delta> t reqs" "0 \<le> \<delta>"
    "burst_multiplier rl + \<delta> \<le> cleanup_interval rl"
  shows "\<exists>oks rl'. rl_run reqs rl = Inr (oks, rl') \<and> length oks = length reqs
    \<and> admitted oks \<le> tb.grants (map (\<lambda>r. ct_global (snd r)) reqs) (global_bucket rl)
    \<and> real (admitted_of x reqs oks) \<le> ip_level x t rl + per_ip_rate rl * (run_end t reqs - t)"
  using assms
proof (induction reqs arbitrary: t rl)
  case Nil
  have "0 \<le> ip_level x t rl"
    using rl_inv_nonneg [OF Nil.prems(1)] rl_inv_bucketD(1,4) [OF Nil.prems(1)] tb.level_nonneg
    by (force simp: ip_level_def split: option.split)
  then show ?case by (simp add: admitted_def admitted_of_def run_end_def)
next
  case (Cons req reqs)
  obtain ip ct where req: "req = (ip, ct)" by (cases req)
  let ?c = "consume 1 (ct_global ct) (global_bucket rl)"
  have ct: "times_ok \<delta> t ct" and rest: "run_times_ok \<delta> (ct_ip ct) reqs"
    using Cons.prems(2) req by simp_all
  obtain ok o' rl1 where c: "check ct ip rl = Inr ((ok, o'), rl1)" and inv1: "rl_inv \<delta> (ct_ip ct) rl1"
    and g1: "global_bucket rl1 = snd ?c" "ok \<longrightarrow> fst ?c" and p1: "per_ip_rate rl1 = per_ip_rate rl"
      "burst_multiplier rl1 = burst_multiplier rl" "cleanup_interval rl1 = cleanup_interval rl"
    and lev: "ip_level x (ct_ip ct) rl1 + (if ok \<and> ip = x then 1 else 0)
      \<le> ip_level x t rl + per_ip_rate rl * (ct_ip ct - t)"
    using check_step [OF Cons.prems(1) ct Cons.prems(3,4), of ip x] by fastforce
  from Cons.IH [OF inv1 rest] Cons.prems p1 obtain oks rl2 where
    r: "rl_run reqs rl1 = Inr (oks, rl2)" "length oks = length reqs" and
    a: "admitted oks \<le> tb.grants (map (\<lambda>r. ct_global (snd r)) reqs) (global_bucket rl1)" and
    b: "real (admitted_of x reqs oks) \<le> ip_level x (ct_ip ct) rl1
         + per_ip_rate rl * (run_end (ct_ip ct) reqs - ct_ip ct)" by auto
  have "admitted (ok # oks) \<le> tb.grants (map (\<lambda>r. ct_global (snd r)) (req # reqs)) (global_bucket rl)"
    using a g1 by (auto simp: req admitted_def split: prod.split)
  moreover have "real (admitted_of x (req # reqs) (ok # oks))
      \<le> ip_level x t rl + per_ip_rate rl * (run_end t (req # reqs) - t)"
    using b lev by (auto simp: admitted_of_def run_end_Cons req algebra_simps split: if_splits)
  ultimately show ?case using c r req by simp
qed

lemma run_times_sorted:
  "run_times_ok \<delta> t reqs \<Longrightarrow> sorted (t # map (\<lambda>r. ct_global (snd r)) reqs)
     \<and> last (t # map (\<lambda>r. ct_global (snd r)) reqs) \<le> run_end t reqs"
  by (induction \<delta> t reqs rule: run_times_ok.induct)
     (auto simp: times_ok_def run_end_Cons run_end_def split: if_splits)

lemma rl_init_inv:
  assumes "0 \<le> grate" "0 \<le> iprate" "0 \<le> burst" "t0 \<le> t1"
  shows "rl_inv \<delta> t1 (rl_init grate iprate burst interval t0 t1)"
  using assms by (simp add: rl_inv_def rl_init_def tb_init_wf)

section \<open>Properties\<close>


text \<open>Two requests of one address a second after the start, with a slow limiter.\<close>

definition sample_times :: "real \<Rightarrow> check_times" where
  "sample_times t = \<lparr>ct_cleanup = t, ct_global = t, ct_seen = t, ct_create = t, ct_ip = t\<rparr>"


text \<open>
  The \<open>retry_after\<close> of a rejection is exact: when a bucket that can hold a
  token rejects a request at time \<open>t\<close>, the reported wait \<open>w\<close> is positive and a
  request at time \<open>u\<close> (with none in between) succeeds if and only if \<open>u\<close> is at
  least \<open>t + w\<close>.
\<close>

theorem tb_retry_after_exact:
  assumes "tb_rate b > 0" "tb_capacity b \<ge> 1" "consume 1 t b = (False, b')" "t \<le> u"
  shows "\<exists>w. time_until_available b' = Some w \<and> 0 < w
    \<and> (fst (consume 1 u b') \<longleftrightarrow> t + w \<le> u)"
proof -
  have b': "tb_tokens b' < 1" "tb_rate b' = tb_rate b" "tb_capacity b' = tb_capacity b"
    "tb_last_refill b' = t"
    using assms by (auto simp: consume_def Let_def split: if_splits)
  let ?w = "(1 - tb_tokens b') / tb_rate b"
  have "t + ?w \<le> u \<longleftrightarrow> 1 \<le> tb_tokens b' + (u - t) * tb_rate b"
    using assms(1) by (simp add: field_simps)
  then have "fst (consume 1 u b') \<longleftrightarrow> t + ?w \<le> u"
    using b' assms(2) by (simp add: consume_ok_iff available_tokens_def)
  moreover have "time_until_available b' = Some ?w"
    using b' assms(1) by (simp add: time_until_available_def)
  ultimately show ?thesis using b' assms(1) by auto
qed

theorem tb_retry_after_exact_witness:
  "\<exists>w. time_until_available (snd (consume 1 10 (tb_init 2 4 10\<lparr>tb_tokens := 0\<rparr>))) = Some w
     \<and> 0 < w \<and> (fst (consume 1 11 (snd (consume 1 10 (tb_init 2 4 10\<lparr>tb_tokens := 0\<rparr>))))
       \<longleftrightarrow> 10 + w \<le> 11)"
  by (rule tb_retry_after_exact [of "tb_init 2 4 10\<lparr>tb_tokens := 0\<rparr>"])
     (simp_all add: tb_init_def consume_def)

end
