(* ===== verification/Retry.thy ===== *)
theory Retry
  imports Prelude
begin

text \<open>
  \<open>backend/shared/retry.py\<close>: exponential backoff with full jitter.  The
  function that is retried acts on a state \<open>'s\<close> of its own; \<open>rnd k\<close> is the
  \<open>k\<close>-th draw of \<open>random.random()\<close>, from which \<open>random.uniform(0, d)\<close> is
  \<open>rnd k * d\<close>.  With \<open>max_retries = 0\<close> the loop has no bound of its own, so
  \<open>retry_loop\<close> is a partial function whose value \<^const>\<open>None\<close> is divergence.
  \<open>2 ** attempt\<close> is an unbounded integer that Python converts to a float for
  the product with \<open>base_delay\<close>; the conversion raises \<^const>\<open>OverflowError\<close>
  from \<open>2 ** 1024\<close> on.
\<close>

record retry_policy =
  max_retries :: int
  base_delay :: real
  max_delay :: real
  jitter :: bool
  attempt :: nat

definition rp_init :: "int \<Rightarrow> real \<Rightarrow> real \<Rightarrow> bool \<Rightarrow> retry_policy" where
  "rp_init mr bd md j =
     \<lparr>max_retries = mr, base_delay = bd, max_delay = md, jitter = j, attempt = 0\<rparr>"

definition rp_reset :: "retry_policy \<Rightarrow> retry_policy" where
  "rp_reset p = p\<lparr>attempt := 0\<rparr>"

definition float_int_limit :: nat where
  "float_int_limit = 2 ^ 1024"

definition int_to_float :: "nat \<Rightarrow> py_exn + real" where
  "int_to_float n = (if n < float_int_limit then Inr (real n) else Inl OverflowError)"

definition get_delay :: "real \<Rightarrow> retry_policy \<Rightarrow> py_exn + real" where
  "get_delay u p =
     bindE (int_to_float (2 ^ attempt p)) (\<lambda>m.
       let exp_delay = min (max_delay p) (base_delay p * m)
       in Inr (if jitter p then u * exp_delay else exp_delay))"

definition should_retry :: "retry_policy \<Rightarrow> bool" where
  "should_retry p = (if max_retries p = 0 then True else int (attempt p) < max_retries p)"

text \<open>\<open>wait\<close>: the delay it sleeps for, and the policy with the attempt counted.\<close>

definition wait :: "real \<Rightarrow> retry_policy \<Rightarrow> py_exn + (real \<times> retry_policy)" where
  "wait u p = bindE (get_delay u p) (\<lambda>delay. Inr (delay, p\<lparr>attempt := attempt p + 1\<rparr>))"

datatype ('a, 'e) attempt_outcome = Ok 'a | Err 'e

datatype ('a, 'e) retry_result =
    Result 'a
  | Propagated 'e
  | RetryExhausted nat "'e option"
  | Crashed py_exn

text \<open>
  \<open>execute\<close>.  The loop returns the result, the policy, the caller's state and
  the delays slept; \<open>retryable\<close> is \<open>isinstance(e, retryable_exceptions)\<close> and
  \<open>on_retry\<close> the optional callback.
\<close>

partial_function (option) retry_loop ::
  "('s \<Rightarrow> ('a, 'e) attempt_outcome \<times> 's) \<Rightarrow> ('e \<Rightarrow> bool) \<Rightarrow> (nat \<Rightarrow> 'e \<Rightarrow> 's \<Rightarrow> 's) option
     \<Rightarrow> (nat \<Rightarrow> real) \<Rightarrow> retry_policy \<Rightarrow> 'e option \<Rightarrow> 's \<Rightarrow> real list
     \<Rightarrow> (('a, 'e) retry_result \<times> retry_policy \<times> 's \<times> real list) option" where
  "retry_loop func retryable on_retry rnd p last_error s slept =
     (if should_retry p then
        (case func s of
           (Ok v, s) \<Rightarrow> Some (Result v, rp_reset p, s, slept)
         | (Err e, s) \<Rightarrow>
             if \<not> retryable e then Some (Propagated e, p, s, slept)
             else
               (let s = (case on_retry of None \<Rightarrow> s | Some f \<Rightarrow> f (attempt p) e s) in
                if \<not> should_retry p then Some (RetryExhausted (attempt p) (Some e), p, s, slept)
                else
                  (case wait (rnd (attempt p)) p of
                     Inl x \<Rightarrow> Some (Crashed x, p, s, slept)
                   | Inr (d, p) \<Rightarrow>
                       retry_loop func retryable on_retry rnd p (Some e) s (slept @ [d]))))
      else Some (RetryExhausted (attempt p) last_error, p, s, slept))"

definition execute ::
  "('s \<Rightarrow> ('a, 'e) attempt_outcome \<times> 's) \<Rightarrow> ('e \<Rightarrow> bool) \<Rightarrow> (nat \<Rightarrow> 'e \<Rightarrow> 's \<Rightarrow> 's) option
     \<Rightarrow> (nat \<Rightarrow> real) \<Rightarrow> retry_policy \<Rightarrow> 's
     \<Rightarrow> (('a, 'e) retry_result \<times> retry_policy \<times> 's \<times> real list) option" where
  "execute func retryable on_retry rnd p s =
     retry_loop func retryable on_retry rnd (rp_reset p) None s []"

definition create_consumer_retry_policy :: retry_policy where
  "create_consumer_retry_policy = rp_init 0 1 30 True"

section \<open>Delays\<close>

lemma power2_less_limit [simp]: "2 ^ k < float_int_limit \<longleftrightarrow> k < 1024"
  unfolding float_int_limit_def by (rule power_strict_increasing_iff) simp

lemma get_delay_small:
  "attempt p < 1024 \<Longrightarrow> get_delay u p =
     Inr ((if jitter p then u else 1) * min (max_delay p) (base_delay p * 2 ^ attempt p))"
  by (simp add: get_delay_def int_to_float_def Let_def)

lemma get_delay_large: "attempt p \<ge> 1024 \<Longrightarrow> get_delay u p = Inl OverflowError"
  by (simp add: get_delay_def int_to_float_def)

definition delay_ok :: "retry_policy \<Rightarrow> real \<Rightarrow> bool" where
  "delay_ok p d = (0 \<le> d \<and> d \<le> max_delay p)"

lemma get_delay_bounds:
  assumes "attempt p < 1024" "0 \<le> u" "u \<le> 1" "0 \<le> base_delay p" "0 \<le> max_delay p"
  shows "\<exists>d. get_delay u p = Inr d \<and> delay_ok p d \<and> d \<le> base_delay p * 2 ^ attempt p"
proof -
  let ?m = "min (max_delay p) (base_delay p * 2 ^ attempt p)"
  have "0 \<le> ?m" using assms by simp
  moreover have "u * ?m \<le> ?m" using \<open>0 \<le> ?m\<close> assms by (intro mult_left_le_one_le) auto
  ultimately show ?thesis
    using assms by (auto simp: get_delay_small delay_ok_def intro: order_trans)
qed

section \<open>Runs of execute\<close>

text \<open>The state in which the \<open>k\<close>-th call is made when all earlier calls failed retryably.\<close>

fun call_state ::
  "('s \<Rightarrow> ('a, 'e) attempt_outcome \<times> 's) \<Rightarrow> (nat \<Rightarrow> 'e \<Rightarrow> 's \<Rightarrow> 's) option \<Rightarrow> nat \<Rightarrow> 's \<Rightarrow> 's" where
  "call_state func on_retry 0 s = s"
| "call_state func on_retry (Suc k) s =
     (case func (call_state func on_retry k s) of
        (Err e, s') \<Rightarrow> (case on_retry of None \<Rightarrow> s' | Some f \<Rightarrow> f k e s')
      | (Ok _, s') \<Rightarrow> s')"

definition fails_at ::
  "('s \<Rightarrow> ('a, 'e) attempt_outcome \<times> 's) \<Rightarrow> ('e \<Rightarrow> bool) \<Rightarrow> (nat \<Rightarrow> 'e \<Rightarrow> 's \<Rightarrow> 's) option \<Rightarrow> 's \<Rightarrow> nat
     \<Rightarrow> 'e \<Rightarrow> bool" where
  "fails_at func retryable on_retry s k e =
     (fst (func (call_state func on_retry k s)) = Err e \<and> retryable e)"

lemma retry_loop_step:
  assumes "fails_at func retryable on_retry s k e" "should_retry (p\<lparr>attempt := k\<rparr>)" "k < 1024"
  shows "\<exists>d. retry_loop func retryable on_retry rnd (p\<lparr>attempt := k\<rparr>) le
      (call_state func on_retry k s) slept
    = retry_loop func retryable on_retry rnd (p\<lparr>attempt := Suc k\<rparr>) (Some e)
      (call_state func on_retry (Suc k) s) (slept @ [d])
    \<and> get_delay (rnd k) (p\<lparr>attempt := k\<rparr>) = Inr d"
  using assms
  by (subst retry_loop.simps)
     (cases "func (call_state func on_retry k s)", auto simp: fails_at_def wait_def get_delay_small split: option.split)

text \<open>After \<open>n\<close> retryable failures the loop is about to make call number \<open>n\<close>.\<close>

lemma retry_loop_failures:
  assumes "\<And>k. k < n \<Longrightarrow> \<exists>e. fails_at func retryable on_retry s k e"
    and "max_retries p = 0 \<or> int n \<le> max_retries p" and "n \<le> 1024"
  shows "\<exists>slept le. execute func retryable on_retry rnd p s
      = retry_loop func retryable on_retry rnd (p\<lparr>attempt := n\<rparr>) le (call_state func on_retry n s) slept
    \<and> length slept = n \<and> (\<forall>k<n. get_delay (rnd k) (p\<lparr>attempt := k\<rparr>) = Inr (slept ! k))
    \<and> (n > 0 \<longrightarrow> (\<exists>e. le = Some e \<and> fails_at func retryable on_retry s (n - 1) e))"
  using assms
proof (induction n)
  case 0
  then show ?case by (auto simp: execute_def rp_reset_def)
next
  case (Suc n)
  have "max_retries p = 0 \<or> int n \<le> max_retries p" using Suc.prems(2) by auto
  then obtain slept le where
    r: "execute func retryable on_retry rnd p s
      = retry_loop func retryable on_retry rnd (p\<lparr>attempt := n\<rparr>) le (call_state func on_retry n s) slept"
    and l: "length slept = n" and g: "\<forall>k<n. get_delay (rnd k) (p\<lparr>attempt := k\<rparr>) = Inr (slept ! k)"
    using Suc.IH Suc.prems(1,3) by force
  from Suc.prems(1) [of n] obtain e where e: "fails_at func retryable on_retry s n e" by auto
  have "should_retry (p\<lparr>attempt := n\<rparr>)" using Suc.prems(2) by (auto simp: should_retry_def)
  with retry_loop_step [OF e this, of rnd le slept] Suc.prems(3) obtain d where
    "execute func retryable on_retry rnd p s
      = retry_loop func retryable on_retry rnd (p\<lparr>attempt := Suc n\<rparr>) (Some e)
          (call_state func on_retry (Suc n) s) (slept @ [d])"
    "get_delay (rnd n) (p\<lparr>attempt := n\<rparr>) = Inr d" using r by auto
  with l g e show ?case by (intro exI) (auto simp: nth_append less_Suc_eq)
qed

section \<open>Properties\<close>

text \<open>
  A policy with \<open>max_retries = m > 0\<close> whose every attempt fails with a
  retryable exception gives up with \<open>RetryExhausted(m, last error)\<close> after exactly
  \<open>m\<close> calls of the function; it has slept \<open>m\<close> times, the last time after the last
  failure, and each delay was between 0 and both \<open>max_delay\<close> and
  \<open>base_delay * 2 ** k\<close>.
\<close>

theorem retry_exhausts:
  assumes m: "max_retries p = int m" "0 < m" "m \<le> 1024"
    and fail: "\<forall>k<m. \<exists>e. fails_at func retryable on_retry s k e"
    and rnd: "\<forall>k. 0 \<le> rnd k \<and> rnd k \<le> 1" and pos: "0 \<le> base_delay p" "0 \<le> max_delay p"
  shows "\<exists>e slept. execute func retryable on_retry rnd p s
      = Some (RetryExhausted m (Some e), p\<lparr>attempt := m\<rparr>, call_state func on_retry m s, slept)
    \<and> fails_at func retryable on_retry s (m - 1) e \<and> length slept = m
    \<and> (\<forall>k<m. 0 \<le> slept ! k \<and> slept ! k \<le> max_delay p \<and> slept ! k \<le> base_delay p * 2 ^ k)"
proof -
  obtain slept le where
    r: "execute func retryable on_retry rnd p s
      = retry_loop func retryable on_retry rnd (p\<lparr>attempt := m\<rparr>) le (call_state func on_retry m s) slept"
    and l: "length slept = m" and g: "\<forall>k<m. get_delay (rnd k) (p\<lparr>attempt := k\<rparr>) = Inr (slept ! k)"
    and e: "\<exists>e. le = Some e \<and> fails_at func retryable on_retry s (m - 1) e"
    using retry_loop_failures [of m func retryable on_retry s p rnd] fail m by auto
  have "0 \<le> slept ! k \<and> slept ! k \<le> max_delay p \<and> slept ! k \<le> base_delay p * 2 ^ k"
    if "k < m" for k
    using get_delay_bounds [of "p\<lparr>attempt := k\<rparr>" "rnd k"] g that m rnd pos
    by (auto simp: delay_ok_def)
  moreover have "\<not> should_retry (p\<lparr>attempt := m\<rparr>)" using m by (simp add: should_retry_def)
  ultimately show ?thesis using r l e by (auto simp: retry_loop.simps)
qed

text \<open>A service that is down, and counts the calls it gets.\<close>

definition sample_down :: "nat \<Rightarrow> (nat, string) attempt_outcome \<times> nat" where
  "sample_down s = (Err ''timeout'', s + 1)"

theorem retry_exhausts_witness:
  "\<exists>e slept. execute sample_down (\<lambda>_. True) None (\<lambda>_. 1/2) (rp_init 3 1 60 True) 0
    = Some (RetryExhausted 3 (Some e), (rp_init 3 1 60 True)\<lparr>attempt := 3\<rparr>,
        call_state sample_down None 3 0, slept) \<and> length slept = 3"
  using retry_exhausts [of "rp_init 3 1 60 True" 3 sample_down "\<lambda>_. True" None 0 "\<lambda>_. 1/2"]
  by (auto simp: rp_init_def fails_at_def sample_down_def)

text \<open>
  If call number \<open>n\<close> is the first that does not fail with a retryable exception
  and the policy allows it (\<open>max_retries\<close> is 0 or exceeds \<open>n\<close>), \<open>execute\<close> returns:
  the value, with the counter reset, or the exception that is not retryable.
\<close>

theorem retry_returns:
  assumes fail: "\<forall>k<n. \<exists>e. fails_at func retryable on_retry s k e"
    and lim: "max_retries p = 0 \<or> int n < max_retries p" "n \<le> 1024"
    and res: "func (call_state func on_retry n s) = (r, s')"
    and stop: "\<nexists>e. r = Err e \<and> retryable e"
  shows "\<exists>slept. length slept = n \<and> execute func retryable on_retry rnd p s
    = Some (case r of Ok v \<Rightarrow> (Result v, rp_reset p, s', slept)
                    | Err e \<Rightarrow> (Propagated e, p\<lparr>attempt := n\<rparr>, s', slept))"
proof -
  obtain slept le where
    r: "execute func retryable on_retry rnd p s
      = retry_loop func retryable on_retry rnd (p\<lparr>attempt := n\<rparr>) le (call_state func on_retry n s) slept"
    and l: "length slept = n"
    using retry_loop_failures [of n func retryable on_retry s p rnd] fail lim by force
  have "should_retry (p\<lparr>attempt := n\<rparr>)" using lim by (auto simp: should_retry_def)
  then show ?thesis using r l res stop
    by (intro exI [of _ slept])
       (auto simp: retry_loop.simps [of _ _ _ _ "p\<lparr>attempt := n\<rparr>"] rp_reset_def split: attempt_outcome.split)
qed

theorem retry_returns_witness:
  "\<exists>slept. length slept = 2 \<and> execute (\<lambda>s::nat. (if s < 2 then Err ''timeout'' else Ok s, s + 1))
      (\<lambda>_. True) None (\<lambda>_. 1/2) create_consumer_retry_policy 0
    = Some (Result 2, rp_reset create_consumer_retry_policy, 3, slept)"
proof -
  let ?f = "\<lambda>s::nat. (if s < 2 then Err ''timeout'' else Ok s, s + 1)"
  have c: "call_state ?f None 0 0 = 0" "call_state ?f None 1 0 = 1" "call_state ?f None 2 0 = 2"
    by (simp_all add: numeral_2_eq_2)
  have "\<forall>k<2. \<exists>e. fails_at ?f (\<lambda>_. True) None 0 k e"
    using c by (auto simp: fails_at_def less_2_cases_iff)
  from retry_returns [OF this, of create_consumer_retry_policy "Ok 2" 3] c show ?thesis
    by (simp add: create_consumer_retry_policy_def rp_init_def)
qed

text \<open>
  A policy without a bound (\<open>max_retries = 0\<close>, as the consumer policy has)
  does not retry for ever: if 1025 calls in a row fail with a retryable exception,
  the 1025th backoff computes \<open>base_delay * 2 ** 1024\<close> and \<open>execute\<close> ends with an
  \<open>OverflowError\<close> of its own.
\<close>

theorem retry_unbounded_overflows:
  assumes "max_retries p = 0" and fail: "\<forall>k\<le>1024. \<exists>e. fails_at func retryable on_retry s k e"
  shows "\<exists>slept s'. length slept = 1024 \<and>
    execute func retryable on_retry rnd p s
      = Some (Crashed OverflowError, p\<lparr>attempt := 1024\<rparr>, s', slept)"
proof -
  obtain slept le where
    r: "execute func retryable on_retry rnd p s = retry_loop func retryable on_retry rnd
        (p\<lparr>attempt := 1024\<rparr>) le (call_state func on_retry 1024 s) slept"
    and l: "length slept = 1024"
    using retry_loop_failures [of 1024 func retryable on_retry s p rnd] assms by force
  obtain e where "fails_at func retryable on_retry s 1024 e" using fail by blast
  moreover have "should_retry (p\<lparr>attempt := 1024\<rparr>)" using assms by (simp add: should_retry_def)
  ultimately show ?thesis
    using r l by (cases "func (call_state func on_retry 1024 s)")
      (auto simp: retry_loop.simps [of _ _ _ _ "p\<lparr>attempt := 1024\<rparr>"] fails_at_def wait_def
        get_delay_large)
qed

theorem retry_unbounded_overflows_witness:
  "\<exists>slept s'. length slept = 1024 \<and>
    execute sample_down (\<lambda>_. True) None (\<lambda>_. 1/2) create_consumer_retry_policy 0
      = Some (Crashed OverflowError, create_consumer_retry_policy\<lparr>attempt := 1024\<rparr>, s', slept)"
  by (rule retry_unbounded_overflows)
     (auto simp: fails_at_def sample_down_def create_consumer_retry_policy_def rp_init_def)

end
