(* ===== verification/Deduplication.thy ===== *)
theory Deduplication
  imports Prelude
begin

text \<open>
  \<open>backend/shared/deduplication.py\<close>: the time-to-live cache of processed message
  ids, with its periodic cleanup and its forced eviction.  The cache is a
  dictionary from keys to expiry times; every clock reading is an argument.
\<close>

record idempotency_cache =
  ttl_seconds :: real
  max_size :: nat
  ic_cleanup_interval :: real
  cache :: "(string, real) dict"
  ic_last_cleanup :: real
  hits :: nat
  misses :: nat
  evictions :: nat

definition ic_init :: "real \<Rightarrow> nat \<Rightarrow> real \<Rightarrow> real \<Rightarrow> idempotency_cache" where
  "ic_init ttl ms interval now =
     \<lparr>ttl_seconds = ttl, max_size = ms, ic_cleanup_interval = interval, cache = [],
      ic_last_cleanup = now, hits = 0, misses = 0, evictions = 0\<rparr>"

text \<open>\<open>del self._cache[key]; self._evictions += 1\<close> for each listed key.\<close>

fun evict_keys :: "string list \<Rightarrow> idempotency_cache \<Rightarrow> py_exn + idempotency_cache" where
  "evict_keys [] ic = Inr ic"
| "evict_keys (k # ks) ic =
     bindE (del_key k (cache ic)) (\<lambda>c.
       evict_keys ks (ic\<lparr>cache := c, evictions := evictions ic + 1\<rparr>))"

definition ic_maybe_cleanup :: "real \<Rightarrow> idempotency_cache \<Rightarrow> py_exn + idempotency_cache" where
  "ic_maybe_cleanup now ic =
     (if now - ic_last_cleanup ic < ic_cleanup_interval ic then Inr ic
      else (let ic = ic\<lparr>ic_last_cleanup := now\<rparr>;
                expired_keys = map fst (filter (\<lambda>(key, expiry). now \<ge> expiry) (cache ic))
            in evict_keys expired_keys ic))"

definition is_duplicate ::
  "real \<Rightarrow> real \<Rightarrow> string \<Rightarrow> idempotency_cache \<Rightarrow> py_exn + (bool \<times> idempotency_cache)" where
  "is_duplicate t0 t1 key ic =
     bindE (ic_maybe_cleanup t0 ic) (\<lambda>ic.
       case dget (cache ic) key of
         None \<Rightarrow> Inr (False, ic\<lparr>misses := misses ic + 1\<rparr>)
       | Some expiry \<Rightarrow>
           if t1 < expiry then Inr (True, ic\<lparr>hits := hits ic + 1\<rparr>)
           else bindE (del_key key (cache ic)) (\<lambda>c.
             Inr (False, ic\<lparr>cache := c, misses := misses ic + 1\<rparr>)))"

definition evict_oldest :: "idempotency_cache \<Rightarrow> py_exn + idempotency_cache" where
  "evict_oldest ic =
     (let evict_count = max 1 (length (cache ic) div 5);
          sorted_entries = sort_key snd (cache ic)
      in evict_keys (map fst (take evict_count sorted_entries)) ic)"

definition mark_processed ::
  "real \<Rightarrow> string \<Rightarrow> real option \<Rightarrow> idempotency_cache \<Rightarrow> py_exn + idempotency_cache" where
  "mark_processed now key ttl_override ic =
     (let ttl = (case ttl_override of Some t \<Rightarrow> t | None \<Rightarrow> ttl_seconds ic);
          ic = ic\<lparr>cache := dset key (now + ttl) (cache ic)\<rparr>
      in if length (cache ic) > max_size ic then evict_oldest ic else Inr ic)"

definition ic_size :: "idempotency_cache \<Rightarrow> nat" where
  "ic_size ic = length (cache ic)"

record ic_metrics =
  im_size :: nat
  im_max_size :: nat
  im_ttl_seconds :: real
  im_hits :: nat
  im_misses :: nat
  im_evictions :: nat
  im_hit_rate :: real

definition ic_metrics_of :: "idempotency_cache \<Rightarrow> ic_metrics" where
  "ic_metrics_of ic =
     \<lparr>im_size = length (cache ic), im_max_size = max_size ic, im_ttl_seconds = ttl_seconds ic,
      im_hits = hits ic, im_misses = misses ic, im_evictions = evictions ic,
      im_hit_rate = real (hits ic) / real (max 1 (hits ic + misses ic))\<rparr>"

definition ic_clear :: "idempotency_cache \<Rightarrow> idempotency_cache" where
  "ic_clear ic = ic\<lparr>cache := []\<rparr>"

section \<open>Single operations\<close>

lemma evict_keys_ok:
  assumes "distinct (dkeys (cache ic))" "distinct ks" "set ks \<subseteq> set (dkeys (cache ic))"
  shows "\<exists>ic'. evict_keys ks ic = Inr ic' \<and> cache ic' = filter (\<lambda>(k, _). k \<notin> set ks) (cache ic)
    \<and> evictions ic' = evictions ic + length ks
    \<and> max_size ic' = max_size ic \<and> ttl_seconds ic' = ttl_seconds ic \<and> hits ic' = hits ic
    \<and> misses ic' = misses ic"
  using assms
proof (induction ks arbitrary: ic)
  case Nil
  then show ?case by simp
next
  case (Cons k ks)
  let ?ic = "ic\<lparr>cache := ddel k (cache ic), evictions := evictions ic + 1\<rparr>"
  have k: "dget (cache ic) k \<noteq> None" using Cons.prems by (simp add: map_of_eq_None_iff)
  have "set ks \<subseteq> set (dkeys (cache ?ic))" using Cons.prems by (auto simp: delete_keys)
  then obtain ic' where "evict_keys ks ?ic = Inr ic'"
    "cache ic' = filter (\<lambda>(k, _). k \<notin> set ks) (cache ?ic)"
    "evictions ic' = evictions ?ic + length ks"
    "max_size ic' = max_size ic" "ttl_seconds ic' = ttl_seconds ic" "hits ic' = hits ic"
    "misses ic' = misses ic"
    using Cons.IH [of ?ic] Cons.prems by auto
  moreover have "filter (\<lambda>(k, _). k \<notin> set ks) (ddel k (cache ic))
      = filter (\<lambda>(k', _). k' \<notin> set (k # ks)) (cache ic)"
    by (auto simp: AList.delete_eq intro!: filter_cong)
  ultimately show ?case using k by (auto simp: del_key_def)
qed

text \<open>The cleanup never raises and drops only entries that have expired.\<close>

lemma ic_maybe_cleanup_ok:
  assumes "distinct (dkeys (cache ic))"
  shows "\<exists>ic'. ic_maybe_cleanup now ic = Inr ic'
    \<and> (cache ic' = cache ic \<or> cache ic' = filter (\<lambda>(_, e). now < e) (cache ic))
    \<and> max_size ic' = max_size ic \<and> ttl_seconds ic' = ttl_seconds ic \<and> hits ic' = hits ic
    \<and> misses ic' = misses ic"
proof (cases "now - ic_last_cleanup ic < ic_cleanup_interval ic")
  case True
  then show ?thesis by (simp add: ic_maybe_cleanup_def)
next
  case False
  let ?ic = "ic\<lparr>ic_last_cleanup := now\<rparr>"
  let ?ks = "map fst (filter (\<lambda>(key, expiry). now \<ge> expiry) (cache ic))"
  have "filter (\<lambda>(k, _). k \<notin> set ?ks) (cache ic) = filter (\<lambda>(_, e). now < e) (cache ic)"
  proof (rule filter_cong [OF refl])
    fix p assume p: "p \<in> set (cache ic)"
    obtain k e where [simp]: "p = (k, e)" by (cases p)
    have "(k, e') \<in> set (cache ic) \<Longrightarrow> e' = e" for e'
      using eq_key_imp_eq_value [OF assms, of k e' e] p by simp
    moreover have "k \<in> set ?ks \<longleftrightarrow> (\<exists>e'. (k, e') \<in> set (cache ic) \<and> e' \<le> now)"
      by (auto simp: image_iff)
    ultimately have "k \<notin> set ?ks \<longleftrightarrow> now < e" using p by (metis \<open>p = (k, e)\<close> not_le)
    then show "(case p of (k, _) \<Rightarrow> k \<notin> set ?ks) = (case p of (_, e) \<Rightarrow> now < e)" by simp
  qed
  moreover have "distinct ?ks" using assms by (simp add: distinct_map_filter)
  moreover have "set ?ks \<subseteq> set (dkeys (cache ?ic))" by auto
  ultimately show ?thesis
    using evict_keys_ok [of ?ic ?ks] assms False by (auto simp: ic_maybe_cleanup_def Let_def)
qed

lemma distinct_dkeys_filter: "distinct (dkeys d) \<Longrightarrow> distinct (dkeys (filter P d))"
  by (rule distinct_map_filter)

lemma dget_filter:
  assumes "distinct (dkeys d)"
  shows "dget (filter (\<lambda>(_, e). P e) d) k = (case dget d k of Some e \<Rightarrow> if P e then Some e else None | None \<Rightarrow> None)"
  using assms by (induction d) (auto split: option.split simp: map_of_eq_None_iff)

text \<open>What an operation keeps: no duplicate keys, and the size bound.\<close>

definition ic_inv :: "idempotency_cache \<Rightarrow> bool" where
  "ic_inv ic = (distinct (dkeys (cache ic)) \<and> length (cache ic) \<le> max_size ic)"

text \<open>The expiry of a key that has not expired yet at time \<open>now\<close>.\<close>

definition live :: "real \<Rightarrow> idempotency_cache \<Rightarrow> string \<Rightarrow> real option" where
  "live now ic k = (case dget (cache ic) k of
     Some e \<Rightarrow> if now < e then Some e else None | None \<Rightarrow> None)"

lemma is_duplicate_spec:
  assumes "ic_inv ic" "t0 \<le> t1"
  shows "\<exists>ic'. is_duplicate t0 t1 key ic = Inr (live t1 ic key \<noteq> None, ic') \<and> ic_inv ic'
    \<and> max_size ic' = max_size ic \<and> ttl_seconds ic' = ttl_seconds ic
    \<and> (\<forall>k u. t1 \<le> u \<longrightarrow> live u ic' k = live u ic k)
    \<and> set (dkeys (cache ic')) \<subseteq> set (dkeys (cache ic))
    \<and> hits ic' + misses ic' = hits ic + misses ic + 1"
proof -
  have d: "distinct (dkeys (cache ic))" using assms by (simp add: ic_inv_def)
  obtain ic1 where c: "ic_maybe_cleanup t0 ic = Inr ic1"
    and k: "cache ic1 = cache ic \<or> cache ic1 = filter (\<lambda>(_, e). t0 < e) (cache ic)"
    and p: "max_size ic1 = max_size ic" "ttl_seconds ic1 = ttl_seconds ic" "hits ic1 = hits ic"
      "misses ic1 = misses ic"
    using ic_maybe_cleanup_ok [OF d] by blast
  have l1: "live u ic1 k = live u ic k" if "t1 \<le> u" for u k
    using k that \<open>t0 \<le> t1\<close> by (auto simp: live_def dget_filter [OF d] split: option.splits if_splits)
  have d1: "distinct (dkeys (cache ic1))" using k d by (auto simp: distinct_dkeys_filter)
  have len: "length (cache ic1) \<le> max_size ic"
    using k assms(1) by (auto simp: ic_inv_def intro: order_trans [OF length_filter_le])
  have sub: "set (dkeys (cache ic1)) \<subseteq> set (dkeys (cache ic))" using k by auto
  have r: "(live t1 ic1 key \<noteq> None) = (live t1 ic key \<noteq> None)" using l1 by simp
  have "\<exists>ic'. is_duplicate t0 t1 key ic = Inr (live t1 ic1 key \<noteq> None, ic')
      \<and> (cache ic' = cache ic1 \<or> \<not> (\<exists>e. dget (cache ic1) key = Some e \<and> t1 < e)
           \<and> cache ic' = ddel key (cache ic1))
      \<and> max_size ic' = max_size ic1 \<and> ttl_seconds ic' = ttl_seconds ic1
      \<and> hits ic' + misses ic' = hits ic1 + misses ic1 + 1"
    using c by (auto simp: is_duplicate_def live_def del_key_def split: option.split)
  then obtain ic' where i: "is_duplicate t0 t1 key ic = Inr (live t1 ic1 key \<noteq> None, ic')"
    "max_size ic' = max_size ic1" "ttl_seconds ic' = ttl_seconds ic1"
    "hits ic' + misses ic' = hits ic1 + misses ic1 + 1"
    and c': "cache ic' = cache ic1 \<or> \<not> (\<exists>e. dget (cache ic1) key = Some e \<and> t1 < e)
           \<and> cache ic' = ddel key (cache ic1)" by blast
  have "live u ic' k = live u ic k" if "t1 \<le> u" for u k
  proof -
    have "live u ic' k = live u ic1 k"
      using c' that by (cases "dget (cache ic1) k") (auto simp: live_def)
    then show ?thesis using l1 [OF that] by simp
  qed
  moreover have "ic_inv ic'"
    using c' d1 len i p length_ddel [of key "cache ic1"] by (auto simp: ic_inv_def)
  moreover have "set (dkeys (cache ic')) \<subseteq> set (dkeys (cache ic))"
    using c' sub by (auto simp: delete_keys simp del: set_map)
  ultimately show ?thesis using i p r by auto
qed

text \<open>Marking: the size bound again, and the entries it keeps.\<close>

lemma evict_oldest_ok:
  assumes "distinct (dkeys (cache ic))"
  defines "n \<equiv> max 1 (length (cache ic) div 5)"
  shows "\<exists>ic'. evict_oldest ic = Inr ic'
    \<and> cache ic' = filter (\<lambda>(k, _). k \<notin> set (map fst (take n (sort_key snd (cache ic))))) (cache ic)
    \<and> evictions ic' = evictions ic + min n (length (cache ic))
    \<and> max_size ic' = max_size ic \<and> ttl_seconds ic' = ttl_seconds ic \<and> hits ic' = hits ic
    \<and> misses ic' = misses ic"
proof -
  let ?ks = "map fst (take n (sort_key snd (cache ic)))"
  have "distinct (map fst (sort_key snd (cache ic)))"
    using assms(1) by (metis mset_map mset_sort mset_eq_imp_distinct_iff)
  then have "distinct ?ks" by (simp add: take_map [symmetric])
  moreover have "set ?ks \<subseteq> set (dkeys (cache ic))"
    using set_take_subset [of n "sort_key snd (cache ic)"] by auto
  ultimately show ?thesis
    using evict_keys_ok [OF assms(1), of ?ks] by (auto simp: evict_oldest_def n_def min.commute)
qed

lemma mark_processed_ok:
  assumes "ic_inv ic"
  shows "\<exists>ic'. mark_processed now key ttl ic = Inr ic' \<and> ic_inv ic'
    \<and> max_size ic' = max_size ic \<and> ttl_seconds ic' = ttl_seconds ic"
proof -
  let ?c = "dset key (now + (case ttl of Some t \<Rightarrow> t | None \<Rightarrow> ttl_seconds ic)) (cache ic)"
  let ?ic = "ic\<lparr>cache := ?c\<rparr>"
  let ?n = "max 1 (length ?c div 5)"
  have d: "distinct (dkeys ?c)" and len: "length ?c \<le> Suc (max_size ic)"
    using assms length_dset_le [of key _ "cache ic"] by (auto simp: ic_inv_def intro: order_trans)
  show ?thesis
  proof (cases "length ?c > max_size ic")
    case False
    then show ?thesis using d by (auto simp: mark_processed_def Let_def ic_inv_def)
  next
    case True
    let ?ks = "map fst (take ?n (sort_key snd ?c))"
    obtain ic' where e: "evict_oldest ?ic = Inr ic'"
      "cache ic' = filter (\<lambda>(k, _). k \<notin> set ?ks) ?c"
      "max_size ic' = max_size ic" "ttl_seconds ic' = ttl_seconds ic"
      using evict_oldest_ok [of ?ic] d by auto
    have "?c \<noteq> []" using True by auto
    then have "sort_key snd ?c \<noteq> []" by (metis length_0_conv length_sort)
    then obtain p ps where s: "sort_key snd ?c = p # ps" by (cases "sort_key snd ?c") auto
    then have "p \<in> set ?c" by (metis list.set_intros(1) set_sort)
    moreover have "fst p \<in> set ?ks" using s by (cases ?n) auto
    ultimately have "length (filter (\<lambda>(k, _). k \<notin> set ?ks) ?c) < length ?c"
      by (intro length_filter_less [of p]) (auto simp: case_prod_beta)
    with e len d True show ?thesis
      by (auto simp: mark_processed_def Let_def ic_inv_def distinct_dkeys_filter)
  qed
qed

section \<open>Runs, and what they should answer\<close>

datatype dedup_op = Mark real string "real option" | Query real real string

fun dedup_run :: "dedup_op list \<Rightarrow> idempotency_cache \<Rightarrow> py_exn + (bool list \<times> idempotency_cache)" where
  "dedup_run [] ic = Inr ([], ic)"
| "dedup_run (Mark now key ttl # ops) ic = bindE (mark_processed now key ttl ic) (dedup_run ops)"
| "dedup_run (Query t0 t1 key # ops) ic =
     bindE (is_duplicate t0 t1 key ic) (\<lambda>(b, ic).
     bindE (dedup_run ops ic) (\<lambda>(bs, ic). Inr (b # bs, ic)))"

text \<open>The specification: a map from keys to expiry times, never cleaned up.\<close>

fun dedup_spec :: "real \<Rightarrow> dedup_op list \<Rightarrow> (string \<rightharpoonup> real) \<Rightarrow> bool list" where
  "dedup_spec dttl [] m = []"
| "dedup_spec dttl (Mark now key ttl # ops) m =
     dedup_spec dttl ops (m(key \<mapsto> now + (case ttl of Some t \<Rightarrow> t | None \<Rightarrow> dttl)))"
| "dedup_spec dttl (Query t0 t1 key # ops) m =
     (case m key of Some e \<Rightarrow> t1 < e | None \<Rightarrow> False) # dedup_spec dttl ops m"

fun op_times_ok :: "real \<Rightarrow> dedup_op list \<Rightarrow> bool" where
  "op_times_ok t [] = True"
| "op_times_ok t (Mark now _ _ # ops) = (t \<le> now \<and> op_times_ok now ops)"
| "op_times_ok t (Query t0 t1 _ # ops) = (t \<le> t0 \<and> t0 \<le> t1 \<and> op_times_ok t1 ops)"

fun marked_keys :: "dedup_op list \<Rightarrow> string set" where
  "marked_keys [] = {}"
| "marked_keys (Mark _ key _ # ops) = insert key (marked_keys ops)"
| "marked_keys (Query _ _ _ # ops) = marked_keys ops"

lemma finite_marked_keys [simp]: "finite (marked_keys ops)"
  by (induction ops rule: marked_keys.induct) auto

definition dedup_sim :: "real \<Rightarrow> idempotency_cache \<Rightarrow> (string \<rightharpoonup> real) \<Rightarrow> bool" where
  "dedup_sim t ic m = (ic_inv ic \<and> (\<forall>k u. t \<le> u \<longrightarrow>
     live u ic k = (case m k of Some e \<Rightarrow> if u < e then Some e else None | None \<Rightarrow> None)))"

lemma dedup_sim_later: "dedup_sim t ic m \<Longrightarrow> t \<le> u \<Longrightarrow> dedup_sim u ic m"
  unfolding dedup_sim_def by (meson order_trans)

lemma dedup_sim_mark:
  assumes sim: "dedup_sim t ic m" and keys: "set (dkeys (cache ic)) \<subseteq> K" "key \<in> K" "finite K"
    "card K \<le> max_size ic"
  shows "\<exists>ic'. mark_processed now key ttl ic = Inr ic'
    \<and> dedup_sim t ic' (m(key \<mapsto> now + (case ttl of Some x \<Rightarrow> x | None \<Rightarrow> ttl_seconds ic)))
    \<and> set (dkeys (cache ic')) \<subseteq> K \<and> max_size ic' = max_size ic \<and> ttl_seconds ic' = ttl_seconds ic"
proof -
  let ?e = "now + (case ttl of Some x \<Rightarrow> x | None \<Rightarrow> ttl_seconds ic)"
  let ?c = "dset key ?e (cache ic)"
  have d: "distinct (dkeys ?c)" using sim by (simp add: dedup_sim_def ic_inv_def)
  have sub: "set (dkeys ?c) \<subseteq> K" using keys by (simp add: dom_update)
  have "length ?c = card (set (dkeys ?c))" using distinct_card [OF d] by simp
  also have "\<dots> \<le> card K" using sub keys(3) by (rule card_mono [rotated])
  finally have len: "length ?c \<le> max_size ic" using keys(4) by simp
  have "live u (ic\<lparr>cache := ?c\<rparr>) k
      = (case (m(key \<mapsto> ?e)) k of Some e \<Rightarrow> if u < e then Some e else None | None \<Rightarrow> None)"
    if "t \<le> u" for u k
  proof (cases "k = key")
    case False
    then have "live u (ic\<lparr>cache := ?c\<rparr>) k = live u ic k" by (simp add: live_def)
    then show ?thesis using sim that False by (simp add: dedup_sim_def)
  qed (simp add: live_def)
  then have "dedup_sim t (ic\<lparr>cache := ?c\<rparr>) (m(key \<mapsto> ?e))"
    using d len by (simp add: dedup_sim_def ic_inv_def)
  then show ?thesis using sub len by (simp add: mark_processed_def Let_def)
qed

lemma dedup_run_spec:
  assumes "dedup_sim t ic m" "op_times_ok t ops"
    and "set (dkeys (cache ic)) \<union> marked_keys ops \<subseteq> K" "finite K" "card K \<le> max_size ic"
  shows "\<exists>ic'. dedup_run ops ic = Inr (dedup_spec (ttl_seconds ic) ops m, ic')"
  using assms
proof (induction ops arbitrary: t ic m rule: marked_keys.induct)
  case (2 now key ttl ops)
  have "dedup_sim now ic m" using 2 by (auto intro: dedup_sim_later)
  then obtain ic' where "mark_processed now key ttl ic = Inr ic'"
    "dedup_sim now ic' (m(key \<mapsto> now + (case ttl of Some x \<Rightarrow> x | None \<Rightarrow> ttl_seconds ic)))"
    "set (dkeys (cache ic')) \<subseteq> K" "max_size ic' = max_size ic" "ttl_seconds ic' = ttl_seconds ic"
    using dedup_sim_mark [of now ic m K key now ttl] 2 by auto
  then show ?case using "2.IH" [of now ic'] "2.prems" by auto
next
  case (3 t0 t1 key ops)
  have sim: "dedup_sim t1 ic m" using 3 by (auto intro: dedup_sim_later)
  then obtain ic' where q: "is_duplicate t0 t1 key ic = Inr (live t1 ic key \<noteq> None, ic')"
    "ic_inv ic'" "max_size ic' = max_size ic" "ttl_seconds ic' = ttl_seconds ic"
    "\<forall>k u. t1 \<le> u \<longrightarrow> live u ic' k = live u ic k"
    "set (dkeys (cache ic')) \<subseteq> set (dkeys (cache ic))"
    using is_duplicate_spec [of ic t0 t1 key] 3 by (auto simp: dedup_sim_def)
  have "dedup_sim t1 ic' m" using sim q by (simp add: dedup_sim_def)
  moreover have "(live t1 ic key \<noteq> None) = (case m key of Some e \<Rightarrow> t1 < e | None \<Rightarrow> False)"
    using sim by (auto simp: dedup_sim_def split: option.splits)
  moreover have "set (dkeys (cache ic')) \<union> marked_keys ops \<subseteq> K"
    using q(6) "3.prems"(3) by (simp add: subset_trans)
  ultimately show ?case using "3.IH" [of t1 ic' m] "3.prems" q by auto
qed simp

section \<open>Properties\<close>

text \<open>
  C18.  Duplicate detection is exact as long as the cache is large enough: over any
  run of \<open>mark_processed\<close> and \<open>is_duplicate\<close> at non-decreasing times that marks at
  most \<open>max_size\<close> distinct ids, no operation raises and every query answers true
  exactly when the latest mark of its id has not expired, whatever the cleanup
  has removed in between.
\<close>

theorem dedup_exact:
  assumes "op_times_ok t ops" "card (marked_keys ops) \<le> ms"
  shows "\<exists>ic'. dedup_run ops (ic_init ttl ms interval t) = Inr (dedup_spec ttl ops Map.empty, ic')"
proof -
  have "dedup_sim t (ic_init ttl ms interval t) Map.empty"
    by (simp add: dedup_sim_def ic_inv_def ic_init_def live_def)
  from dedup_run_spec [OF this assms(1), of "marked_keys ops"] assms(2) show ?thesis
    by (simp add: ic_init_def)
qed

theorem dedup_exact_witness:
  "\<exists>ic'. dedup_run [Mark 1 ''m1'' None, Query 2 2 ''m1'', Query 400 400 ''m1'']
     (ic_init 300 10 60 0) = Inr ([True, False], ic')"
  using dedup_exact [of 0 "[Mark 1 ''m1'' None, Query 2 2 ''m1'', Query 400 400 ''m1'']" 10 300 60]
  by simp

lemma dedup_run_inv:
  assumes "ic_inv ic" "op_times_ok t ops"
  shows "\<exists>bs ic'. dedup_run ops ic = Inr (bs, ic') \<and> ic_inv ic' \<and> max_size ic' = max_size ic"
  using assms
proof (induction ops arbitrary: t ic rule: marked_keys.induct)
  case (2 now key ttl ops)
  obtain ic' where "mark_processed now key ttl ic = Inr ic'" "ic_inv ic'" "max_size ic' = max_size ic"
    using mark_processed_ok [OF "2.prems"(1)] by blast
  then show ?case using "2.IH" [of ic' now] "2.prems" by simp
next
  case (3 t0 t1 key ops)
  then have "t0 \<le> t1" by simp
  obtain b ic' where "is_duplicate t0 t1 key ic = Inr (b, ic')" "ic_inv ic'" "max_size ic' = max_size ic"
    using is_duplicate_spec [OF "3.prems"(1) \<open>t0 \<le> t1\<close>] by blast
  then show ?case using "3.IH" [of ic' t1] "3.prems" by (auto simp: bindE_Inr)
qed simp

text \<open>
  Memory stays bounded: over any run, however many ids it marks, no operation
  raises and the cache ends with at most \<open>max_size\<close> entries; the forced eviction
  always makes room.
\<close>

theorem dedup_bounded:
  assumes "op_times_ok t ops"
  shows "\<exists>bs ic'. dedup_run ops (ic_init ttl ms interval t) = Inr (bs, ic') \<and> ic_size ic' \<le> ms"
proof -
  have "ic_inv (ic_init ttl ms interval t)" by (simp add: ic_inv_def ic_init_def)
  from dedup_run_inv [OF this assms] show ?thesis
    by (auto simp: ic_inv_def ic_size_def ic_init_def)
qed

theorem dedup_bounded_witness:
  "\<exists>bs ic'. dedup_run [Mark 1 ''a'' None, Mark 2 ''b'' None, Mark 3 ''c'' None]
     (ic_init 300 2 60 0) = Inr (bs, ic') \<and> ic_size ic' \<le> 2"
  by (rule dedup_bounded [of 0]) simp

end
