(* ===== verification/Bounded_Executor.thy ===== *)
theory Bounded_Executor
  imports Prelude
begin

text \<open>
  \<open>backend/shared/bounded_executor.py\<close>: admission to a thread pool guarded by a
  semaphore of \<open>max_workers + queue_bound\<close> permits.  The regions of code between
  two suspension points (or under the state lock) are the operations; \<open>be_step\<close>
  lets them interleave.  Besides the executor the system state counts the
  requests at each stage: holding a permit, counted as queued, waiting in the
  pool, running, done but not yet called back, not yet registered, and
  cancelled by a shutdown.  The pool itself (\<open>ThreadPoolExecutor\<close>) runs at most
  \<open>max_workers\<close> tasks at a time.
\<close>

record bounded_executor =
  max_workers :: int
  queue_bound :: int
  submit_timeout_seconds :: real
  shutdown_timeout_seconds :: real
  capacity :: int
  active :: int
  queued :: int
  closed :: bool
  pending :: int
  gauge_max_workers :: int
  gauge_active :: int
  gauge_queue_depth :: int
  tasks_submitted :: int
  tasks_rejected :: int

definition publish_state_locked :: "bounded_executor \<Rightarrow> bounded_executor" where
  "publish_state_locked be = be\<lparr>gauge_active := active be, gauge_queue_depth := queued be\<rparr>"

definition be_init :: "int \<Rightarrow> int \<Rightarrow> real \<Rightarrow> real \<Rightarrow> py_exn + bounded_executor" where
  "be_init mw qb st sd =
     (if mw < 1 then Inl ValueError
      else if qb < 0 then Inl ValueError
      else if st \<le> 0 then Inl ValueError
      else if sd \<le> 0 then Inl ValueError
      else Inr (publish_state_locked
        \<lparr>max_workers = mw, queue_bound = qb, submit_timeout_seconds = st,
         shutdown_timeout_seconds = sd, capacity = mw + qb, active = 0, queued = 0,
         closed = False, pending = 0, gauge_max_workers = mw, gauge_active = 0,
         gauge_queue_depth = 0, tasks_submitted = 0, tasks_rejected = 0\<rparr>))"

datatype executor_overloaded = Saturated | Closed

definition record_rejection :: "bounded_executor \<Rightarrow> bounded_executor" where
  "record_rejection be = be\<lparr>tasks_rejected := tasks_rejected be + 1\<rparr>"

definition release :: "bounded_executor \<Rightarrow> bounded_executor" where
  "release be = be\<lparr>capacity := capacity be + 1\<rparr>"

text \<open>
  \<open>run\<close>, in its regions: the semaphore is acquired (when it has a permit) or the
  wait times out; the request is counted as queued unless the executor is closed;
  handing the task to the pool fails or succeeds; the future is registered.
\<close>

definition run_acquire :: "bounded_executor \<Rightarrow> bounded_executor option" where
  "run_acquire be = (if capacity be > 0 then Some (be\<lparr>capacity := capacity be - 1\<rparr>) else None)"

definition run_timeout :: "bounded_executor \<Rightarrow> executor_overloaded \<times> bounded_executor" where
  "run_timeout be = (Saturated, record_rejection be)"

definition run_enter :: "bounded_executor \<Rightarrow> (executor_overloaded + unit) \<times> bounded_executor" where
  "run_enter be =
     (if closed be then (Inl Closed, record_rejection (release be))
      else (Inr (), publish_state_locked (be\<lparr>queued := queued be + 1\<rparr>)))"

definition run_submit_failed :: "bounded_executor \<Rightarrow> bounded_executor" where
  "run_submit_failed be = release (publish_state_locked (be\<lparr>queued := queued be - 1\<rparr>))"

definition run_registered :: "bounded_executor \<Rightarrow> bounded_executor" where
  "run_registered be = be\<lparr>tasks_submitted := tasks_submitted be + 1, pending := pending be + 1\<rparr>"

text \<open>\<open>_execute\<close> before and after the callable, and the done callback.\<close>

definition execute_start :: "bounded_executor \<Rightarrow> bounded_executor" where
  "execute_start be = publish_state_locked (be\<lparr>queued := queued be - 1, active := active be + 1\<rparr>)"

definition execute_finish :: "bounded_executor \<Rightarrow> bounded_executor" where
  "execute_finish be = publish_state_locked (be\<lparr>active := active be - 1\<rparr>)"

definition completed :: "bounded_executor \<Rightarrow> bounded_executor" where
  "completed be = release (be\<lparr>pending := pending be - 1\<rparr>)"

definition shutdown_close :: "bounded_executor \<Rightarrow> bounded_executor" where
  "shutdown_close be = be\<lparr>closed := True\<rparr>"

text \<open>
  \<open>shutdown\<close>: its result, given whether the pending futures finish before the
  deadline; the pool then cancels what is still waiting (step \<open>be_cancel\<close> below).
\<close>

definition shutdown :: "bool \<Rightarrow> bounded_executor \<Rightarrow> bool \<times> bounded_executor" where
  "shutdown drained be =
     (let be = shutdown_close be in
      if pending be > 0 \<and> \<not> drained then (False, be) else (True, be))"

record executor_snapshot =
  snap_max_workers :: int
  snap_queue_bound :: int
  snap_active :: int
  snap_queued :: int
  snap_closed :: bool

definition snapshot :: "bounded_executor \<Rightarrow> executor_snapshot" where
  "snapshot be = \<lparr>snap_max_workers = max_workers be, snap_queue_bound = queue_bound be,
     snap_active = active be, snap_queued = queued be, snap_closed = closed be\<rparr>"

section \<open>Interleavings\<close>

record be_system =
  ex :: bounded_executor
  admitting :: nat
  entered :: nat
  waiting :: nat
  running :: nat
  finished :: nat
  unregistered :: nat
  cancelled :: nat

definition be_start :: "bounded_executor \<Rightarrow> be_system" where
  "be_start be = \<lparr>ex = be, admitting = 0, entered = 0, waiting = 0, running = 0, finished = 0,
     unregistered = 0, cancelled = 0\<rparr>"

inductive be_step :: "be_system \<Rightarrow> be_system \<Rightarrow> bool" where
  be_acquire: "run_acquire (ex s) = Some be \<Longrightarrow> be_step s (s\<lparr>ex := be, admitting := admitting s + 1\<rparr>)"
| be_timeout: "be_step s (s\<lparr>ex := snd (run_timeout (ex s))\<rparr>)"
| be_enter: "admitting s = Suc n \<Longrightarrow> run_enter (ex s) = (Inr (), be) \<Longrightarrow>
    be_step s (s\<lparr>ex := be, admitting := n, entered := entered s + 1\<rparr>)"
| be_refuse: "admitting s = Suc n \<Longrightarrow> run_enter (ex s) = (Inl e, be) \<Longrightarrow>
    be_step s (s\<lparr>ex := be, admitting := n\<rparr>)"
| be_submit_failed: "entered s = Suc n \<Longrightarrow>
    be_step s (s\<lparr>ex := run_submit_failed (ex s), entered := n\<rparr>)"
| be_submit: "entered s = Suc n \<Longrightarrow>
    be_step s (s\<lparr>entered := n, waiting := waiting s + 1, unregistered := unregistered s + 1\<rparr>)"
| be_register: "unregistered s = Suc n \<Longrightarrow>
    be_step s (s\<lparr>ex := run_registered (ex s), unregistered := n\<rparr>)"
| be_run: "waiting s = Suc n \<Longrightarrow> int (running s) < max_workers (ex s) \<Longrightarrow>
    be_step s (s\<lparr>ex := execute_start (ex s), waiting := n, running := running s + 1\<rparr>)"
| be_finish: "running s = Suc n \<Longrightarrow>
    be_step s (s\<lparr>ex := execute_finish (ex s), running := n, finished := finished s + 1\<rparr>)"
| be_callback: "finished s = Suc n \<Longrightarrow> pending (ex s) > 0 \<Longrightarrow>
    be_step s (s\<lparr>ex := completed (ex s), finished := n\<rparr>)"
| be_shutdown: "be_step s (s\<lparr>ex := shutdown_close (ex s)\<rparr>)"
| be_cancel: "closed (ex s) \<Longrightarrow> waiting s = Suc n \<Longrightarrow>
    be_step s (s\<lparr>waiting := n, finished := finished s + 1, cancelled := cancelled s + 1\<rparr>)"

lemmas be_ops_defs [step_defs] =
  run_acquire_def run_timeout_def run_enter_def run_submit_failed_def run_registered_def
  execute_start_def execute_finish_def completed_def shutdown_close_def
  publish_state_locked_def record_rejection_def release_def

definition be_inv :: "int \<Rightarrow> int \<Rightarrow> be_system \<Rightarrow> bool" where
  "be_inv mw qb s = (let be = ex s in
     max_workers be = mw \<and> queue_bound be = qb \<and> 0 \<le> capacity be
     \<and> capacity be + int (admitting s) + int (entered s) + int (waiting s) + int (running s)
         + int (finished s) = mw + qb
     \<and> queued be = int (entered s) + int (waiting s) + int (cancelled s)
     \<and> active be = int (running s) \<and> active be \<le> mw
     \<and> pending be + int (unregistered s) = int (waiting s) + int (running s) + int (finished s)
     \<and> (cancelled s > 0 \<longrightarrow> closed be)
     \<and> gauge_active be = active be \<and> gauge_queue_depth be = queued be \<and> gauge_max_workers be = mw)"

lemma be_step_keeps_inv: "be_step s t \<Longrightarrow> be_inv mw qb s \<Longrightarrow> be_inv mw qb t"
  by (induction rule: be_step.induct)
     (auto simp: step_defs be_inv_def Let_def split: if_splits)

interpretation be: transition_invariant be_step "be_inv mw qb" for mw qb
  by unfold_locales (rule be_step_keeps_inv)

lemma be_init_inv: "be_init mw qb st sd = Inr b \<Longrightarrow> be_inv mw qb (be_start b)"
  by (auto simp: be_init_def be_start_def be_inv_def step_defs Let_def split: if_splits)

section \<open>Properties\<close>


definition sample_executor :: bounded_executor where
  "sample_executor = publish_state_locked
     \<lparr>max_workers = 2, queue_bound = 1, submit_timeout_seconds = 5,
      shutdown_timeout_seconds = 10, capacity = 3, active = 0, queued = 0,
      closed = False, pending = 0, gauge_max_workers = 2, gauge_active = 0,
      gauge_queue_depth = 0, tasks_submitted = 0, tasks_rejected = 0\<rparr>"

lemma sample_executor_init: "be_init 2 1 5 10 = Inr sample_executor"
  by (simp add: be_init_def sample_executor_def)


text \<open>
  No permit is lost: whatever happened before (timeouts, refusals after close,
  failed submissions, cancelled or completed tasks), once no request is between
  admission and its callback the semaphore has all \<open>max_workers + queue_bound\<close>
  permits, so the next request acquires one at once.
\<close>

theorem be_no_permit_leak:
  assumes "be_init mw qb st sd = Inr b" "be_step\<^sup>*\<^sup>* (be_start b) s"
    and "admitting s = 0" "entered s = 0" "waiting s = 0" "running s = 0" "finished s = 0"
  shows "capacity (ex s) = mw + qb \<and> run_acquire (ex s) \<noteq> None"
proof -
  have "be_inv mw qb s" by (rule be.reach_inv [OF assms(2) be_init_inv [OF assms(1)]])
  moreover have "mw \<ge> 1" "qb \<ge> 0" using assms(1) by (auto simp: be_init_def split: if_splits)
  ultimately show ?thesis using assms(3-) by (simp add: be_inv_def Let_def run_acquire_def)
qed

theorem be_no_permit_leak_witness:
  "capacity (snd (run_timeout sample_executor)) = 3"
proof -
  have "be_step\<^sup>*\<^sup>* (be_start sample_executor)
      ((be_start sample_executor)\<lparr>ex := snd (run_timeout (ex (be_start sample_executor)))\<rparr>)"
    by (rule r_into_rtranclp, rule be_timeout)
  from be_no_permit_leak [OF sample_executor_init this] show ?thesis
    by (simp add: be_start_def)
qed

end
