(* ===== verification/Dead_Letter.thy ===== *)
theory Dead_Letter
  imports Prelude
begin

text \<open>
  \<open>backend/shared/dlq.py\<close>: the dead letter queue, the sanitising of messages and
  the escalation of a message after repeated failures.  The Kafka producer and
  the MongoDB collection are parameters that either accept an entry or fail; a
  failure is logged and swallowed.  Error text, traceback and timestamp are
  arguments.  A correlation id is any JSON value; one that is not hashable
  cannot be a dictionary key and raises \<^const>\<open>TypeError\<close>.
\<close>

section \<open>Sanitising\<close>

definition list_notice :: "nat \<Rightarrow> string" where
  "list_notice n = ''[list of '' @ show_nat n @ '' items, truncated]''"

definition text_notice :: "nat \<Rightarrow> string" where
  "text_notice n = ''... [truncated, total '' @ show_nat n @ '' chars]''"

fun sanitize_message :: "(string \<times> pyval) list \<Rightarrow> (string \<times> pyval) list" where
  "sanitize_message [] = []"
| "sanitize_message ((key, PList xs) # items) =
     (key, if length xs > 50 then PStr (list_notice (length xs)) else PList xs)
       # sanitize_message items"
| "sanitize_message ((key, PStr s) # items) =
     (key, if length s > 5000 then PStr (take 5000 s @ text_notice (length s)) else PStr s)
       # sanitize_message items"
| "sanitize_message ((key, PDict d) # items) =
     (key, PDict (sanitize_message d)) # sanitize_message items"
| "sanitize_message ((key, v) # items) = (key, v) # sanitize_message items"

section \<open>The queue\<close>

record dlq_entry =
  e_service :: string
  e_original_topic :: string
  e_original_message :: "(string \<times> pyval) list"
  e_correlation_id :: pyval
  e_error_type :: string
  e_error_message :: string
  e_traceback :: string
  e_retry_count :: nat
  e_metadata :: "(string \<times> pyval) list"
  e_timestamp :: string
  e_status :: string

record dlq =
  service_name :: string
  dlq_topic :: string
  has_collection :: bool
  total_sent :: nat
  total_by_error_type :: "(string, nat) dict"
  published :: "dlq_entry list"
  persisted :: "dlq_entry list"

definition dlq_init :: "string \<Rightarrow> bool \<Rightarrow> dlq" where
  "dlq_init name coll =
     \<lparr>service_name = name, dlq_topic = name @ ''_dlq'', has_collection = coll,
      total_sent = 0, total_by_error_type = [], published = [], persisted = []\<rparr>"

text \<open>What identifies an exception here: its class name, text and traceback.\<close>

record error_info =
  err_type :: string
  err_text :: string
  err_traceback :: string

definition pyget :: "(string \<times> pyval) list \<Rightarrow> string \<Rightarrow> pyval" where
  "pyget d k = (case map_of d k of Some v \<Rightarrow> v | None \<Rightarrow> PNone)"

definition dlq_send ::
  "(dlq_entry \<Rightarrow> bool) \<Rightarrow> (dlq_entry \<Rightarrow> bool) \<Rightarrow> string \<Rightarrow> (string \<times> pyval) list \<Rightarrow> error_info
     \<Rightarrow> string option \<Rightarrow> nat \<Rightarrow> (string \<times> pyval) list option \<Rightarrow> dlq \<Rightarrow> dlq_entry \<times> dlq" where
  "dlq_send kafka_ok mongo_ok now original_message err original_topic retry_count metadata q =
     (let error_type = err_type err;
          entry = \<lparr>e_service = service_name q,
            e_original_topic = (case original_topic of
              Some t \<Rightarrow> if t = [] then ''unknown'' else t | None \<Rightarrow> ''unknown''),
            e_original_message = sanitize_message original_message,
            e_correlation_id = pyget original_message ''correlation_id'',
            e_error_type = error_type, e_error_message = err_text err,
            e_traceback = err_traceback err, e_retry_count = retry_count,
            e_metadata = (case metadata of Some m \<Rightarrow> m | None \<Rightarrow> []),
            e_timestamp = now, e_status = ''unprocessed''\<rparr>;
          q = (if kafka_ok entry then q\<lparr>published := published q @ [entry]\<rparr> else q);
          q = (if has_collection q \<and> mongo_ok entry
               then q\<lparr>persisted := persisted q @ [entry]\<rparr> else q);
          q = q\<lparr>total_sent := total_sent q + 1,
                total_by_error_type := dset error_type
                  (dget_default (total_by_error_type q) error_type 0 + 1) (total_by_error_type q)\<rparr>
      in (entry, q))"

record dlq_metrics =
  dm_service :: string
  dm_topic :: string
  dm_total_sent :: nat
  dm_by_error_type :: "(string, nat) dict"

definition dlq_metrics_of :: "dlq \<Rightarrow> dlq_metrics" where
  "dlq_metrics_of q = \<lparr>dm_service = service_name q, dm_topic = dlq_topic q,
     dm_total_sent = total_sent q, dm_by_error_type = total_by_error_type q\<rparr>"

section \<open>Escalation\<close>

record dlq_handler =
  h_dlq :: dlq
  dlq_max_retries :: nat
  failure_counts :: "(pyval, nat) dict"

definition init_dlq :: "dlq \<Rightarrow> nat \<Rightarrow> dlq_handler" where
  "init_dlq q m = \<lparr>h_dlq = q, dlq_max_retries = m, failure_counts = []\<rparr>"

fun hashable :: "pyval \<Rightarrow> bool" where
  "hashable (PList _) = False"
| "hashable (PDict _) = False"
| "hashable _ = True"

definition handle_with_dlq ::
  "(dlq_entry \<Rightarrow> bool) \<Rightarrow> (dlq_entry \<Rightarrow> bool) \<Rightarrow> string \<Rightarrow> (string \<times> pyval) list \<Rightarrow> error_info
     \<Rightarrow> string \<Rightarrow> dlq_handler \<Rightarrow> py_exn + (bool \<times> dlq_handler)" where
  "handle_with_dlq kafka_ok mongo_ok now message err original_topic h =
     (let correlation_id = (case map_of message ''correlation_id'' of
            Some v \<Rightarrow> v | None \<Rightarrow> PStr ''unknown'') in
      if \<not> hashable correlation_id then Inl TypeError
      else
        (let count = dget_default (failure_counts h) correlation_id 0 + 1;
             h = h\<lparr>failure_counts := dset correlation_id count (failure_counts h)\<rparr> in
         if count \<ge> dlq_max_retries h then
           (let q = snd (dlq_send kafka_ok mongo_ok now message err (Some original_topic) count
                      None (h_dlq h))
            in Inr (True, h\<lparr>h_dlq := q, failure_counts := ddel correlation_id (failure_counts h)\<rparr>))
         else Inr (False, h)))"

section \<open>Sanitising, along paths\<close>

text \<open>The value reached by following keys through nested dictionaries.\<close>

fun path_get :: "string list \<Rightarrow> pyval \<Rightarrow> pyval option" where
  "path_get [] v = Some v"
| "path_get (k # ks) (PDict d) = (case map_of d k of None \<Rightarrow> None | Some v \<Rightarrow> path_get ks v)"
| "path_get (k # ks) _ = None"

text \<open>What one value becomes.\<close>

fun sanitize_value :: "pyval \<Rightarrow> pyval" where
  "sanitize_value (PList xs) = (if length xs > 50 then PStr (list_notice (length xs)) else PList xs)"
| "sanitize_value (PStr s) =
     (if length s > 5000 then PStr (take 5000 s @ text_notice (length s)) else PStr s)"
| "sanitize_value (PDict d) = PDict (sanitize_message d)"
| "sanitize_value v = v"

lemma sanitize_message_map: "sanitize_message items = map (\<lambda>(k, v). (k, sanitize_value v)) items"
  by (induction items rule: sanitize_message.induct) simp_all

lemma sanitize_keys: "map fst (sanitize_message items) = map fst items"
  by (simp add: sanitize_message_map case_prod_beta)

lemma map_of_sanitize: "map_of (sanitize_message d) k = map_option sanitize_value (map_of d k)"
  by (simp add: sanitize_message_map map_of_map)

lemma path_get_not_dict:
  "ks \<noteq> [] \<Longrightarrow> (\<nexists>d. v = PDict d) \<Longrightarrow> path_get ks v = None"
  by (cases ks; cases v) auto

lemma path_get_sanitize:
  "path_get ks (sanitize_value v) = map_option sanitize_value (path_get ks v)"
proof (induction ks v rule: path_get.induct)
  case (2 k ks d)
  then show ?case by (simp add: map_of_sanitize split: option.split)
qed (auto simp: path_get_not_dict)

text \<open>How large the field \<open>v\<close> that replaces \<open>w\<close> may be.\<close>

definition field_bound :: "pyval \<Rightarrow> pyval \<Rightarrow> bool" where
  "field_bound w v = (case v of
     PList xs \<Rightarrow> length xs \<le> 50
   | PStr s \<Rightarrow> (case w of
         PStr t \<Rightarrow> length s \<le> 5000
           \<or> take 5000 s = take 5000 t \<and> length s = 5029 + length (show_nat (length t))
       | PList xs \<Rightarrow> length s = 27 + length (show_nat (length xs))
       | _ \<Rightarrow> False)
   | _ \<Rightarrow> True)"

lemma sanitize_value_bound: "field_bound w (sanitize_value w)"
  by (cases w) (simp_all add: field_bound_def list_notice_def text_notice_def)

section \<open>Escalation over a run\<close>

definition message_id :: "(string \<times> pyval) list \<Rightarrow> pyval" where
  "message_id m = (case map_of m ''correlation_id'' of Some v \<Rightarrow> v | None \<Rightarrow> PStr ''unknown'')"

fun failures_run ::
  "(dlq_entry \<Rightarrow> bool) \<Rightarrow> (dlq_entry \<Rightarrow> bool) \<Rightarrow> string \<Rightarrow> error_info \<Rightarrow> string
     \<Rightarrow> (string \<times> pyval) list list \<Rightarrow> dlq_handler \<Rightarrow> py_exn + (bool list \<times> dlq_handler)" where
  "failures_run ko mo now err topic [] h = Inr ([], h)"
| "failures_run ko mo now err topic (m # ms) h =
     bindE (handle_with_dlq ko mo now m err topic h) (\<lambda>(b, h).
     bindE (failures_run ko mo now err topic ms h) (\<lambda>(bs, h). Inr (b # bs, h)))"

text \<open>The outcomes a run should have, from the number of earlier failures per id.\<close>

fun failures_spec :: "nat \<Rightarrow> (pyval \<Rightarrow> nat) \<Rightarrow> (string \<times> pyval) list list \<Rightarrow> bool list" where
  "failures_spec m n [] = []"
| "failures_spec m n (msg # msgs) =
     (let i = message_id msg; c = n i + 1
      in (c mod m = 0) # failures_spec m (n(i := c)) msgs)"

lemma dlq_send_total [simp]: "total_sent (snd (dlq_send ko mo now msg err t n md q)) = total_sent q + 1"
  by (simp add: dlq_send_def Let_def)

lemma handle_with_dlq_counts:
  assumes "hashable (message_id msg)" "dlq_max_retries h = m" "0 < m"
    and "\<forall>i. dget_default (failure_counts h) i 0 = n i mod m"
  shows "\<exists>h'. handle_with_dlq ko mo now msg err topic h = Inr ((n (message_id msg) + 1) mod m = 0, h')
    \<and> dlq_max_retries h' = m
    \<and> (\<forall>i. dget_default (failure_counts h') i 0
          = (n(message_id msg := n (message_id msg) + 1)) i mod m)
    \<and> total_sent (h_dlq h') = total_sent (h_dlq h)
         + (if (n (message_id msg) + 1) mod m = 0 then 1 else 0)"
proof -
  let ?i = "message_id msg" and ?c = "n (message_id msg) mod m + 1"
  have c: "?c \<ge> m \<longleftrightarrow> (n ?i + 1) mod m = 0"
    using \<open>0 < m\<close> by (metis Suc_eq_plus1 mod_Suc mod_less_divisor le_less_Suc_eq le_less not_less_eq_eq nat.simps(3))
  have c': "\<not> ?c \<ge> m \<Longrightarrow> (n ?i + 1) mod m = ?c"
    using \<open>0 < m\<close> by (simp add: mod_Suc)
  show ?thesis
    using assms c c' by (auto simp: handle_with_dlq_def message_id_def [symmetric] Let_def dget_default_def)
qed

lemma failures_run_spec:
  assumes "\<forall>msg\<in>set msgs. hashable (message_id msg)" "dlq_max_retries h = m" "0 < m"
    and "\<forall>i. dget_default (failure_counts h) i 0 = n i mod m"
  shows "\<exists>h'. failures_run ko mo now err topic msgs h = Inr (failures_spec m n msgs, h')
    \<and> total_sent (h_dlq h') = total_sent (h_dlq h) + length (filter (\<lambda>b. b) (failures_spec m n msgs))"
  using assms
proof (induction msgs arbitrary: h n)
  case (Cons msg msgs)
  define n' where "n' = n(message_id msg := n (message_id msg) + 1)"
  obtain h' where h: "handle_with_dlq ko mo now msg err topic h
      = Inr ((n (message_id msg) + 1) mod m = 0, h')" "dlq_max_retries h' = m"
    "\<forall>i. dget_default (failure_counts h') i 0 = n' i mod m"
    "total_sent (h_dlq h') = total_sent (h_dlq h)
         + (if (n (message_id msg) + 1) mod m = 0 then 1 else 0)"
    using handle_with_dlq_counts [of msg h m n ko mo now err topic] Cons.prems
    unfolding n'_def by auto
  obtain h'' where "failures_run ko mo now err topic msgs h' = Inr (failures_spec m n' msgs, h'')"
    "total_sent (h_dlq h'') = total_sent (h_dlq h') + length (filter (\<lambda>b. b) (failures_spec m n' msgs))"
    using Cons.IH [of h' n'] Cons.prems h by auto
  with h show ?case by (simp add: Let_def n'_def)
qed simp

section \<open>Properties\<close>

text \<open>
  Sanitising keeps the shape of a message: the top-level keys stay, a path of
  keys leads to a value in the sanitised message exactly when it does in the
  original one, and that value is the original one, except that a list of more
  than 50 items is replaced by a notice, and a string of more than 5000 characters
  by its first 5000 and a notice of 29 characters and the length; nothing reached
  through dictionaries is larger.
\<close>

theorem dlq_sanitize_paths:
  "map fst (sanitize_message m) = map fst m \<and>
   (case (path_get ks (PDict m), path_get ks (PDict (sanitize_message m))) of
      (Some w, Some v) \<Rightarrow> v = sanitize_value w \<and> field_bound w v
    | (None, None) \<Rightarrow> True
    | _ \<Rightarrow> False)"
  using path_get_sanitize [of ks "PDict m"]
  by (auto simp: sanitize_keys sanitize_value_bound split: option.splits)

text \<open>
  Escalation: with \<open>max_retries = m > 0\<close>, over any sequence of failing messages
  (hashable correlation ids, in any interleaving) the handler reports that a
  message went to the dead letter queue exactly at every \<open>m\<close>-th failure of its
  correlation id, and the queue has been sent exactly that many messages.
\<close>

theorem dlq_escalates:
  assumes "\<forall>msg\<in>set msgs. hashable (message_id msg)" "0 < m"
  shows "\<exists>h'. failures_run ko mo now err topic msgs (init_dlq q m)
      = Inr (failures_spec m (\<lambda>_. 0) msgs, h')
    \<and> total_sent (h_dlq h') = total_sent q + length (filter (\<lambda>b. b) (failures_spec m (\<lambda>_. 0) msgs))"
  using failures_run_spec [of msgs "init_dlq q m" m "\<lambda>_. 0" ko mo now err topic] assms
  by (simp add: init_dlq_def dget_default_def)

theorem dlq_escalates_witness:
  "\<exists>h'. failures_run (\<lambda>_. True) (\<lambda>_. False) ''2026-01-01'' \<lparr>err_type = ''E'', err_text = ''x'', err_traceback = []\<rparr>
      ''files'' [[(''correlation_id'', PStr ''a'')], [(''correlation_id'', PStr ''b'')],
        [(''correlation_id'', PStr ''a'')]] (init_dlq (dlq_init ''rag'' True) 2)
      = Inr ([False, False, True], h') \<and> total_sent (h_dlq h') = 1"
  using dlq_escalates [of "[[(''correlation_id'', PStr ''a'')], [(''correlation_id'', PStr ''b'')],
        [(''correlation_id'', PStr ''a'')]]" 2 "\<lambda>_. True" "\<lambda>_. False" "''2026-01-01''"
        "\<lparr>err_type = ''E'', err_text = ''x'', err_traceback = []\<rparr>" "''files''" "dlq_init ''rag'' True"]
  by (simp add: message_id_def Let_def dlq_init_def)

end
