(* ===== verification/Files_Text.thy ===== *)
theory Files_Text
  imports Prelude
begin

text \<open>
  The text utilities of \<open>backend/files/app/utils/common.py\<close>: chunking with
  overlap, patch maps (the redactions of a review), snippets and previews, and
  the check that a stored path lies in the directory of its tenant and file.
  Spans are integers; \<open>chunk_text\<close> is a loop that the parameter checks alone keep
  from running for ever, so it is a partial function and its termination a
  theorem.
\<close>

section \<open>Operations\<close>

type_synonym span = "int \<times> int"

partial_function (option) chunk_loop ::
  "int \<Rightarrow> int \<Rightarrow> int \<Rightarrow> int \<Rightarrow> span list \<Rightarrow> span list option" where
  "chunk_loop chunk_size chunk_overlap text_length start chunks =
     (if start < text_length then
        (let stop = min (start + chunk_size) text_length;
             chunks = chunks @ [(start, stop)] in
         if stop = text_length then Some chunks
         else chunk_loop chunk_size chunk_overlap text_length (stop - chunk_overlap) chunks)
      else Some chunks)"

declare chunk_loop.simps [code]

text \<open>\<^const>\<open>None\<close>: does not return.\<close>

definition chunk_text :: "string \<Rightarrow> int \<Rightarrow> int \<Rightarrow> (py_exn + span list) option" where
  "chunk_text text chunk_size chunk_overlap =
     (if text = [] then Some (Inr [])
      else if chunk_size \<le> 0 then Some (Inl ValueError)
      else if chunk_overlap \<ge> chunk_size then Some (Inl ValueError)
      else map_option Inr (chunk_loop chunk_size chunk_overlap (int (length text)) 0 []))"

record patch =
  p_id :: string
  p_action :: string
  p_start :: int
  p_end :: int
  p_replacement :: "string option"
  p_reason :: string

definition apply_patch :: "string \<Rightarrow> patch \<Rightarrow> string" where
  "apply_patch patched p =
     py_upto (p_start p) patched
     @ (case p_replacement p of Some r \<Rightarrow> r | None \<Rightarrow> [])
     @ py_from (p_end p) patched"

definition apply_patch_map :: "string \<Rightarrow> patch list \<Rightarrow> string" where
  "apply_patch_map text patch_map =
     foldl apply_patch text (sort_key_desc (\<lambda>p. (p_start p, p_end p)) patch_map)"

fun check_patches :: "int \<Rightarrow> int \<Rightarrow> patch list \<Rightarrow> py_exn + unit" where
  "check_patches text_length previous_end [] = Inr ()"
| "check_patches text_length previous_end (p # ps) =
     (if p_start p < 0 \<or> p_end p < 0 \<or> p_start p \<ge> p_end p \<or> p_end p > text_length
      then Inl ValueError
      else if p_start p < previous_end then Inl ValueError
      else check_patches text_length (p_end p) ps)"

definition validate_patch_map :: "string \<Rightarrow> patch list \<Rightarrow> py_exn + unit" where
  "validate_patch_map text patch_map =
     (if patch_map = [] then Inl ValueError
      else check_patches (int (length text)) (-1) (sort_key (\<lambda>p. (p_start p, p_end p)) patch_map))"

definition build_snippet :: "string \<Rightarrow> int \<Rightarrow> int \<Rightarrow> int \<Rightarrow> string" where
  "build_snippet text start stop max_chars =
     (if text = [] then []
      else
        (let safe_start = max 0 start;
             safe_end = min (int (length text)) (max stop safe_start) in
         if safe_end - safe_start \<ge> max_chars then py_slice safe_start (safe_start + max_chars) text
         else
           (let remaining = max_chars - (safe_end - safe_start);
                pad_left = remaining div 2;
                pad_right = remaining - pad_left;
                snippet_start = max 0 (safe_start - pad_left);
                snippet_end = min (int (length text)) (safe_end + pad_right);
                snippet = py_slice snippet_start snippet_end text
            in py_upto max_chars snippet)))"

definition build_preview :: "string \<Rightarrow> int \<Rightarrow> string" where
  "build_preview text max_chars = py_upto max_chars text"

definition matches_any_phrase :: "string \<Rightarrow> string list \<Rightarrow> bool" where
  "matches_any_phrase text phrases =
     (let lowered = py_lower text in list_ex (\<lambda>phrase. sublist phrase lowered) phrases)"

text \<open>
  Paths are lists of components from the root; \<open>resolve\<close> is \<open>Path.resolve\<close>,
  which depends on the file system.
\<close>

type_synonym path = "string list"

definition safe_id :: "string \<Rightarrow> string" where
  "safe_id s = filter (\<lambda>c. py_isalnum c \<or> c = CHR ''-'' \<or> c = CHR ''_'') s"

definition validate_managed_file_path ::
  "(path \<Rightarrow> path) \<Rightarrow> path \<Rightarrow> string \<Rightarrow> string \<Rightarrow> path \<Rightarrow> py_exn + path" where
  "validate_managed_file_path resolve upload_dir tenant_id file_id file_path =
     (let safe_tenant = safe_id tenant_id; safe_file_id = safe_id file_id in
      if safe_tenant \<noteq> tenant_id \<or> safe_file_id \<noteq> file_id \<or> safe_tenant = [] \<or> safe_file_id = []
      then Inl ValueError
      else
        (let base = resolve upload_dir;
             expected_directory = resolve (base @ [safe_tenant, safe_file_id]);
             candidate = resolve file_path in
         if butlast candidate \<noteq> expected_directory \<or> \<not> strict_prefix base candidate
         then Inl ValueError
         else Inr candidate))"

section \<open>Chunking\<close>

text \<open>
  What a list of spans from \<open>start\<close> on should be: non-empty windows of at most
  \<open>sz\<close> characters, each but the last exactly that long, each starting
  \<open>overlap\<close> before the end of the previous one, the last ending at \<open>len\<close>.
\<close>

fun spans_ok :: "int \<Rightarrow> int \<Rightarrow> int \<Rightarrow> int \<Rightarrow> span list \<Rightarrow> bool" where
  "spans_ok sz overlap len start [] = False"
| "spans_ok sz overlap len start [(a, b)] = (a = start \<and> a < b \<and> b - a \<le> sz \<and> b = len)"
| "spans_ok sz overlap len start ((a, b) # s # rest) =
     (a = start \<and> b = a + sz \<and> b < len \<and> spans_ok sz overlap len (b - overlap) (s # rest))"

lemma chunk_loop_ok:
  assumes "0 < sz" "overlap < sz"
  shows "\<exists>spans. chunk_loop sz overlap len start acc = Some (acc @ spans)
    \<and> (0 \<le> overlap \<and> start < len \<longrightarrow> spans_ok sz overlap len start spans)"
proof (induction "nat (len - start)" arbitrary: start acc rule: less_induct)
  case less
  let ?e = "min (start + sz) len"
  show ?case
  proof (cases "start < len \<and> ?e \<noteq> len")
    case True
    then have e: "?e = start + sz" "start + sz < len" by auto
    have "nat (len - (?e - overlap)) < nat (len - start)" using True assms by auto
    from less.hyps [OF this] obtain spans where
      r: "chunk_loop sz overlap len (?e - overlap) (acc @ [(start, ?e)])
        = Some ((acc @ [(start, ?e)]) @ spans)"
      and ok: "0 \<le> overlap \<and> ?e - overlap < len \<longrightarrow> spans_ok sz overlap len (?e - overlap) spans"
      by blast
    have "chunk_loop sz overlap len start acc = Some (acc @ (start, ?e) # spans)"
      using True r by (subst chunk_loop.simps) (simp add: Let_def)
    moreover have "spans_ok sz overlap len start ((start, ?e) # spans)" if "0 \<le> overlap"
      using ok that e assms by (cases spans) auto
    ultimately show ?thesis by auto
  next
    case False
    then show ?thesis using assms
      by (subst chunk_loop.simps) (auto simp: Let_def)
  qed
qed

text \<open>Every character position is in some span.\<close>

lemma spans_cover:
  assumes "spans_ok sz overlap len start spans" "0 \<le> overlap" "start \<le> i" "i < len"
  shows "\<exists>(a, b)\<in>set spans. a \<le> i \<and> i < b"
  using assms
proof (induction sz overlap len start spans rule: spans_ok.induct)
  case (3 sz overlap len start a b s rest)
  then show ?case by (cases "i < b") auto
qed auto

lemma spans_bounds:
  assumes "spans_ok sz overlap len start spans" "0 \<le> start" "0 \<le> overlap" "overlap < sz"
    "(a, b) \<in> set spans"
  shows "0 \<le> a \<and> a < b \<and> b \<le> len \<and> b - a \<le> sz"
  using assms
proof (induction sz overlap len start spans arbitrary: a b rule: spans_ok.induct)
  case (3 sz overlap len start a' b' s rest)
  then show ?case by auto
qed auto

text \<open>The pieces, each but the first without its overlap, make up the text.\<close>

fun glue :: "int \<Rightarrow> string \<Rightarrow> span list \<Rightarrow> string" where
  "glue overlap text [] = []"
| "glue overlap text ((a, b) # rest) =
     py_slice a b text @ concat (map (\<lambda>(a, b). drop (nat overlap) (py_slice a b text)) rest)"

lemma py_slice_nonneg: "0 \<le> a \<Longrightarrow> 0 \<le> b \<Longrightarrow> py_slice a b xs = slice (nat a) (nat b) xs"
  using py_slice_nat [of "nat a" "nat b" xs] by simp

lemma slice_append: "a \<le> b \<Longrightarrow> b \<le> c \<Longrightarrow> slice a b xs @ slice b c xs = slice a c xs"
  using take_add [of "b - a" "c - b" "drop a xs"] by (simp add: slice_def)

lemma drop_slice: "drop n (slice a b xs) = slice (a + n) b xs"
  by (simp add: slice_def drop_take add.commute)

lemma glue_spans:
  assumes "spans_ok sz overlap (int (length text)) start spans" "0 \<le> start" "0 \<le> overlap"
    "overlap < sz"
  shows "glue overlap text spans = drop (nat start) text"
  using assms
proof (induction sz overlap "int (length text)" start spans rule: spans_ok.induct)
  case (2 sz overlap start a b)
  then show ?case by (simp add: py_slice_nonneg slice_def)
next
  case (3 sz overlap start a b s rest)
  obtain c d where s: "s = (c, d)" by (cases s)
  have b: "a = start" "b = start + sz" "b < int (length text)"
    and ok: "spans_ok sz overlap (int (length text)) (b - overlap) (s # rest)"
    using "3.prems" by auto
  have c: "c = b - overlap" "overlap < d - c" "d \<le> int (length text)"
    using ok s b "3.prems" by (cases rest; auto)+
  have IH: "glue overlap text (s # rest) = drop (nat (b - overlap)) text"
    using 3 b ok by simp
  have "length (py_slice c d text) = nat (d - c)"
    using c b "3.prems" by (simp add: py_slice_nonneg)
  then have "drop (nat overlap) (glue overlap text (s # rest))
      = concat (map (\<lambda>(a, b). drop (nat overlap) (py_slice a b text)) (s # rest))"
    using c s by simp
  moreover have "drop (nat overlap) (drop (nat (b - overlap)) text) = drop (nat b) text"
    using b "3.prems" by (simp add: nat_add_distrib [symmetric])
  moreover have "py_slice a b text @ drop (nat b) text = drop (nat start) text"
    using b "3.prems" slice_append [of "nat start" "nat b" "length text" "text"]
    by (simp add: py_slice_nonneg slice_def)
  ultimately show ?case using IH by simp
qed simp

section \<open>Patch maps\<close>

text \<open>The reference: replace the spans from left to right, copying what lies between.\<close>

definition replacement :: "patch \<Rightarrow> string" where
  "replacement p = (case p_replacement p of Some r \<Rightarrow> r | None \<Rightarrow> [])"

fun splice :: "string \<Rightarrow> nat \<Rightarrow> patch list \<Rightarrow> string" where
  "splice text pos [] = drop pos text"
| "splice text pos (p # ps) =
     slice pos (nat (p_start p)) text @ replacement p @ splice text (nat (p_end p)) ps"

abbreviation patch_key :: "patch \<Rightarrow> int \<times> int" where
  "patch_key p \<equiv> (p_start p, p_end p)"

lemma check_patches_Cons:
  "check_patches len prev (p # ps) = Inr () \<longleftrightarrow>
     0 \<le> p_start p \<and> p_start p < p_end p \<and> p_end p \<le> len \<and> prev \<le> p_start p
     \<and> check_patches len (p_end p) ps = Inr ()"
  by auto

lemma check_patches_starts:
  "check_patches len prev ps = Inr () \<Longrightarrow> p \<in> set ps \<Longrightarrow> prev \<le> p_start p"
  by (induction ps arbitrary: prev) (auto simp del: check_patches.simps(2) simp: check_patches_Cons, fastforce)

lemma check_patches_distinct:
  "check_patches len prev ps = Inr () \<Longrightarrow> distinct (map patch_key ps)"
proof (induction ps arbitrary: prev)
  case (Cons p ps)
  then have c: "check_patches len (p_end p) ps = Inr ()" "p_start p < p_end p"
    by (auto simp del: check_patches.simps(2) simp: check_patches_Cons)
  have "patch_key p \<noteq> patch_key q" if "q \<in> set ps" for q
    using check_patches_starts [OF c(1) that] c(2) by auto
  then show ?case using Cons.IH [OF c(1)] by auto
qed simp

text \<open>Applying valid patches from the end is splicing from the left.\<close>

lemma foldr_apply_patch:
  assumes "check_patches (int (length text)) prev ps = Inr ()" "int q \<le> prev \<or> q = 0"
  shows "foldr (\<lambda>p t. apply_patch t p) ps text = take q text @ splice text q ps"
  using assms
proof (induction ps arbitrary: prev q)
  case (Cons p ps)
  let ?s = "nat (p_start p)" and ?e = "nat (p_end p)"
  have p: "0 \<le> p_start p" "p_start p < p_end p" "p_end p \<le> int (length text)" "prev \<le> p_start p"
    "check_patches (int (length text)) (p_end p) ps = Inr ()"
    using Cons.prems by (auto simp del: check_patches.simps(2) simp: check_patches_Cons)
  have "foldr (\<lambda>p t. apply_patch t p) ps text = take ?e text @ splice text ?e ps"
    using Cons.IH [OF p(5), of ?e] p by auto
  moreover have "apply_patch t p = take ?s t @ replacement p @ drop ?e t" for t
    using p py_upto_nat [of ?s t] py_from_nat [of ?e t] by (simp add: apply_patch_def replacement_def)
  moreover have "?s \<le> ?e" "?e \<le> length text" using p by auto
  then have "take ?s (take ?e text @ splice text ?e ps) = take ?s text" by simp
  moreover have "drop ?e (take ?e text @ splice text ?e ps) = splice text ?e ps"
    using p by simp
  moreover have "take ?s text = take q text @ slice q ?s text"
    using Cons.prems(2) p take_slice [of q ?s "text"] by auto
  ultimately show ?case by simp
qed simp

lemma filter_key_distinct:
  "distinct (map f ys) \<Longrightarrow> k \<in> set ys \<Longrightarrow> filter (\<lambda>x. f k = f x) ys = [k]"
  by (induction ys) (auto simp: filter_empty_conv image_iff)

lemma sort_key_rev_distinct:
  assumes "distinct (map f xs)"
  shows "sort_key f (rev xs) = sort_key f xs"
proof (rule properties_for_sort_key)
  fix k assume "k \<in> set (sort_key f xs)"
  then have k: "k \<in> set xs" by simp
  have "distinct (map f (sort_key f xs))"
    using assms by (metis mset_map mset_sort mset_eq_imp_distinct_iff)
  moreover have "distinct (map f (rev xs))" using assms by (simp add: rev_map [symmetric])
  ultimately show "filter (\<lambda>x. f k = f x) (sort_key f xs) = filter (\<lambda>x. f k = f x) (rev xs)"
    using k by (simp add: filter_key_distinct)
qed simp_all

lemma apply_patch_map_splice:
  assumes "validate_patch_map text ps = Inr ()"
  shows "apply_patch_map text ps = splice text 0 (sort_key patch_key ps)"
proof -
  let ?o = "sort_key patch_key ps"
  have ok: "check_patches (int (length text)) (-1) ?o = Inr ()"
    using assms by (auto simp: validate_patch_map_def split: if_splits)
  have "mset (map patch_key ?o) = mset (map patch_key ps)" by simp
  then have "distinct (map patch_key ps)"
    using check_patches_distinct [OF ok] mset_eq_imp_distinct_iff by blast
  then have "sort_key_desc patch_key ps = rev ?o"
    by (simp add: sort_key_desc_def sort_key_rev_distinct)
  then have "apply_patch_map text ps = foldr (\<lambda>p t. apply_patch t p) ?o text"
    by (simp add: apply_patch_map_def foldr_conv_foldl)
  with foldr_apply_patch [OF ok, of 0] show ?thesis by simp
qed

lemma length_splice:
  assumes "check_patches (int (length text)) prev ps = Inr ()" "int q \<le> prev \<or> q = 0" "q \<le> length text"
  shows "int (length (splice text q ps))
    = int (length text) - int q - (\<Sum>p\<leftarrow>ps. p_end p - p_start p) + (\<Sum>p\<leftarrow>ps. int (length (replacement p)))"
  using assms
proof (induction ps arbitrary: prev q)
  case (Cons p ps)
  have p: "0 \<le> p_start p" "p_start p < p_end p" "p_end p \<le> int (length text)" "prev \<le> p_start p"
    "check_patches (int (length text)) (p_end p) ps = Inr ()"
    using Cons.prems by (auto simp del: check_patches.simps(2) simp: check_patches_Cons)
  moreover have "int (min (nat (p_start p) - q) (length text - q)) = p_start p - int q"
    using Cons.prems p by auto
  ultimately show ?case using Cons.IH [OF p(5), of "nat (p_end p)"] by simp
qed simp

section \<open>Snippets\<close>

lemma build_snippet_bounded:
  assumes "0 \<le> max_chars"
  shows "int (length (build_snippet text start stop max_chars)) \<le> max_chars"
proof -
  have "0 \<le> max 0 start" by simp
  then have "int (length (py_slice (max 0 start) (max 0 start + max_chars) text)) \<le> max_chars"
    using assms by (simp add: py_slice_nonneg nat_add_distrib)
  moreover have "int (length (py_upto max_chars xs)) \<le> max_chars" for xs :: string
    using length_py_upto [OF assms, of xs] assms by linarith
  ultimately show ?thesis
    unfolding build_snippet_def Let_def using assms by (simp only: split: if_split) simp
qed

text \<open>A span that fits is part of its snippet.\<close>

lemma sublist_slice:
  assumes "s \<le> a" "a \<le> b" "b \<le> e"
  shows "sublist (slice a b xs) (slice s e xs)"
proof -
  have "slice a b xs = take (b - a) (drop (a - s) (slice s e xs))"
    using assms by (simp add: slice_def drop_take min_def)
  then show ?thesis by (metis sublist_drop sublist_take sublist_order.order.trans)
qed

lemma build_snippet_contains:
  assumes "0 \<le> start" "start \<le> stop" "stop \<le> int (length text)" "stop - start \<le> max_chars"
  shows "sublist (py_slice start stop text) (build_snippet text start stop max_chars)"
proof (cases "text = []")
  case True
  then show ?thesis by (simp add: py_slice_def build_snippet_def)
next
  case False
  have clamp: "max 0 start = start" "min (int (length text)) (max stop start) = stop"
    using assms by auto
  show ?thesis
  proof (cases "stop - start = max_chars")
    case True
    then have "start + max_chars = stop" by simp
    with True have "build_snippet text start stop max_chars = py_slice start stop text"
      using False clamp by (simp add: build_snippet_def Let_def)
    then show ?thesis by simp
  next
    case neq: False
    define r where "r = max_chars - (stop - start)"
    define s where "s = nat (max 0 (start - r div 2))"
    define e where "e = nat (min (int (length text)) (stop + (r - r div 2)))"
    have r: "0 < r" using neq assms by (auto simp: r_def)
    have int_se: "int s = max 0 (start - r div 2)"
      "int e = min (int (length text)) (stop + (r - r div 2))"
      using r assms by (auto simp: s_def e_def)
    have se: "s \<le> nat start" "nat stop \<le> e" "e - s \<le> nat max_chars"
      using r assms by (auto simp: s_def e_def r_def)
    have "build_snippet text start stop max_chars = py_upto max_chars (py_slice (int s) (int e) text)"
      unfolding build_snippet_def Let_def clamp int_se using False neq assms by (simp add: r_def)
    also have "\<dots> = slice s e text"
      using se assms py_upto_nat [of "nat max_chars" "slice s e text"] by simp
    finally have "build_snippet text start stop max_chars = slice s e text" .
    moreover have "py_slice start stop text = slice (nat start) (nat stop) text"
      using assms py_slice_nat [of "nat start" "nat stop" "text"] by simp
    moreover have "nat start \<le> nat stop" using assms by simp
    ultimately show ?thesis using sublist_slice [OF se(1) _ se(2)] by simp
  qed
qed

section \<open>Managed paths\<close>

lemma validate_managed_file_path_ok:
  assumes "validate_managed_file_path resolve upload_dir tenant_id file_id file_path = Inr c"
  shows "safe_id tenant_id = tenant_id" "safe_id file_id = file_id" "tenant_id \<noteq> []" "file_id \<noteq> []"
    "c = resolve file_path" "butlast c = resolve (resolve upload_dir @ [tenant_id, file_id])"
    "strict_prefix (resolve upload_dir) c"
  using assms by (auto simp: validate_managed_file_path_def Let_def split: if_splits)

lemma safe_id_no_slash: "safe_id s = s \<Longrightarrow> CHR ''/'' \<notin> set s \<and> CHR ''.'' \<notin> set s"
  by (auto simp: safe_id_def filter_id_conv py_isalnum_def Let_def)

section \<open>Properties\<close>

text \<open>
  C23.  \<open>chunk_text\<close> returns for every text and all parameters, and with a positive
  size and an overlap from 0 up to less than the size it returns spans that are
  windows of exactly \<open>chunk_size\<close> characters (the last one up to the end of the
  text), lie inside the text, and from which the text is recovered by dropping
  the overlap of every piece but the first: no character is lost.
\<close>

theorem chunk_text_recovers:
  assumes "text \<noteq> []" "0 < chunk_size" "0 \<le> chunk_overlap" "chunk_overlap < chunk_size"
  shows "\<exists>spans. chunk_text text chunk_size chunk_overlap = Some (Inr spans)
    \<and> spans_ok chunk_size chunk_overlap (int (length text)) 0 spans
    \<and> (\<forall>a b. (a, b) \<in> set spans \<longrightarrow> 0 \<le> a \<and> a < b \<and> b \<le> int (length text) \<and> b - a \<le> chunk_size)
    \<and> glue chunk_overlap text spans = text"
proof -
  obtain spans where l: "chunk_loop chunk_size chunk_overlap (int (length text)) 0 [] = Some spans"
    and ok: "spans_ok chunk_size chunk_overlap (int (length text)) 0 spans"
    using chunk_loop_ok [of chunk_size chunk_overlap "int (length text)" 0 "[]"] assms by auto
  have "chunk_text text chunk_size chunk_overlap = Some (Inr spans)"
    using l assms by (simp add: chunk_text_def)
  moreover have "glue chunk_overlap text spans = text"
    using glue_spans [OF ok] assms by simp
  ultimately show ?thesis using ok spans_bounds [OF ok] assms by auto
qed

theorem chunk_text_recovers_witness:
  "\<exists>spans. chunk_text ''retrieval'' 4 1 = Some (Inr spans) \<and> glue 1 ''retrieval'' spans = ''retrieval''"
  using chunk_text_recovers [of "''retrieval''" 4 1] by auto


text \<open>
  C26.  Redaction is exact: when \<open>validate_patch_map\<close> accepts a patch map, the
  right-to-left application of \<open>apply_patch_map\<close> equals replacing the spans from
  left to right in the original text and copying everything between them, and the
  length of the result is the length of the text less the spans plus the
  replacements.
\<close>

theorem apply_patch_map_exact:
  assumes "validate_patch_map text patch_map = Inr ()"
  shows "apply_patch_map text patch_map = splice text 0 (sort_key patch_key patch_map)
    \<and> int (length (apply_patch_map text patch_map)) = int (length text)
        - (\<Sum>p\<leftarrow>sort_key patch_key patch_map. p_end p - p_start p)
        + (\<Sum>p\<leftarrow>sort_key patch_key patch_map. int (length (replacement p)))"
proof -
  have ok: "check_patches (int (length text)) (-1) (sort_key patch_key patch_map) = Inr ()"
    using assms by (auto simp: validate_patch_map_def split: if_splits)
  show ?thesis using apply_patch_map_splice [OF assms] length_splice [OF ok, of 0] by simp
qed

definition sample_patches :: "patch list" where
  "sample_patches =
     [\<lparr>p_id = ''p1'', p_action = ''replace'', p_start = 8, p_end = 11, p_replacement = Some ''[X]'',
       p_reason = ''pii''\<rparr>,
      \<lparr>p_id = ''p2'', p_action = ''replace'', p_start = 0, p_end = 3, p_replacement = None,
       p_reason = ''pii''\<rparr>]"

theorem apply_patch_map_exact_witness:
  "apply_patch_map ''SSN 123-456 end'' sample_patches
     = splice ''SSN 123-456 end'' 0 (sort_key patch_key sample_patches)"
  using apply_patch_map_exact [of "''SSN 123-456 end''" sample_patches]
  by (simp add: validate_patch_map_def sample_patches_def)

text \<open>
  A snippet never exceeds \<open>max_chars\<close>, and a span inside the text that fits into
  \<open>max_chars\<close> appears in its snippet in full.
\<close>

theorem build_snippet_shows_span:
  assumes "0 \<le> start" "start \<le> stop" "stop \<le> int (length text)" "stop - start \<le> max_chars"
  shows "int (length (build_snippet text start stop max_chars)) \<le> max_chars
    \<and> sublist (py_slice start stop text) (build_snippet text start stop max_chars)"
  using build_snippet_bounded [of max_chars] build_snippet_contains [OF assms] assms by simp

theorem build_snippet_shows_span_witness:
  "int (length (build_snippet ''call 555-0100 now'' 5 13 10)) \<le> 10
   \<and> sublist (py_slice 5 13 ''call 555-0100 now'') (build_snippet ''call 555-0100 now'' 5 13 10)"
  by (rule build_snippet_shows_span) simp_all

end
