(* ===== verification/Issue_Detector.thy ===== *)
theory Issue_Detector
  imports Files_Text
begin

text \<open>
  \<open>backend/files/app/services/issue_detector.py\<close>: the detectors that gate the
  ingestion of a file behind a human review.  The three regular expressions run
  on a small backtracking matcher that enumerates the ends of matches in the
  order in which Python's \<open>re\<close> tries them.  Characters are Latin-1; the predicate
  \<open>is_fffd\<close> says which of them stands for U+FFFD, the replacement character of
  failed decoding.
\<close>

section \<open>Regular expressions\<close>

datatype regex =
    RChar "char \<Rightarrow> bool"
  | RSeq regex regex
  | RBoundary
  | RRepeat bool nat nat regex

definition is_digit :: "char \<Rightarrow> bool" where
  "is_digit c = (let n = of_char c :: nat in 48 \<le> n \<and> n \<le> 57)"

definition is_upper :: "char \<Rightarrow> bool" where
  "is_upper c = (let n = of_char c :: nat in 65 \<le> n \<and> n \<le> 90)"

definition is_word :: "char \<Rightarrow> bool" where
  "is_word c = (py_isalnum c \<or> c = CHR ''_'')"

definition word_at :: "string \<Rightarrow> nat \<Rightarrow> bool" where
  "word_at s i = (i < length s \<and> is_word (s ! i))"

definition at_boundary :: "string \<Rightarrow> nat \<Rightarrow> bool" where
  "at_boundary s i = ((i > 0 \<and> word_at s (i - 1)) \<noteq> word_at s i)"

text \<open>Repetition, with the further rounds first (greedy) or last (lazy).\<close>

fun repeat_ends :: "(nat \<Rightarrow> nat list) \<Rightarrow> bool \<Rightarrow> nat \<Rightarrow> nat \<Rightarrow> nat \<Rightarrow> nat list" where
  "repeat_ends f greedy lo 0 i = (if lo = 0 then [i] else [])"
| "repeat_ends f greedy lo (Suc hi) i =
     (let more = concat (map (repeat_ends f greedy (lo - 1) hi) (f i)) in
      if lo > 0 then more else if greedy then more @ [i] else i # more)"

primrec re_ends :: "regex \<Rightarrow> string \<Rightarrow> nat \<Rightarrow> nat list" where
  "re_ends (RChar p) s i = (if i < length s \<and> p (s ! i) then [Suc i] else [])"
| "re_ends (RSeq a b) s i = concat (map (re_ends b s) (re_ends a s i))"
| "re_ends RBoundary s i = (if at_boundary s i then [i] else [])"
| "re_ends (RRepeat greedy lo hi r) s i = repeat_ends (re_ends r s) greedy lo hi i"

fun search_from :: "regex \<Rightarrow> string \<Rightarrow> nat list \<Rightarrow> (nat \<times> nat) option" where
  "search_from r s [] = None"
| "search_from r s (i # is) =
     (case re_ends r s i of [] \<Rightarrow> search_from r s is | e # _ \<Rightarrow> Some (i, e))"

definition re_search :: "regex \<Rightarrow> string \<Rightarrow> (nat \<times> nat) option" where
  "re_search r s = search_from r s [0..<Suc (length s)]"

definition digits :: "nat \<Rightarrow> regex" where
  "digits n = RRepeat True n n (RChar is_digit)"

definition ssn_pattern :: regex where
  "ssn_pattern = RSeq RBoundary (RSeq (digits 3) (RSeq (RChar (\<lambda>c. c = CHR ''-''))
     (RSeq (digits 2) (RSeq (RChar (\<lambda>c. c = CHR ''-'')) (RSeq (digits 4) RBoundary)))))"

text \<open>The gaps of a card number have no bound of their own; the text's length is one.\<close>

definition payment_card_pattern :: "string \<Rightarrow> regex" where
  "payment_card_pattern s = RSeq RBoundary (RSeq
     (RRepeat True 13 16 (RSeq (RChar is_digit)
        (RRepeat False 0 (length s) (RChar (\<lambda>c. c = CHR '' '' \<or> c = CHR ''-'')))))
     RBoundary)"

definition iban_pattern :: regex where
  "iban_pattern = RSeq RBoundary (RSeq (RRepeat True 2 2 (RChar is_upper)) (RSeq (digits 2)
     (RSeq (RRepeat True 11 30 (RChar (\<lambda>c. is_upper c \<or> is_digit c))) RBoundary)))"

section \<open>Detectors\<close>

definition PROMPT_INJECTION_PATTERNS :: "string list" where
  "PROMPT_INJECTION_PATTERNS =
     [''ignore previous instructions'', ''disregard all prior instructions'', ''system prompt'',
      ''developer message'', ''reveal the hidden instructions'']"

definition UNSAFE_CONTENT_PATTERNS :: "string list" where
  "UNSAFE_CONTENT_PATTERNS =
     [''how to make a bomb'', ''build an explosive'', ''terrorist attack'', ''commit murder'',
      ''harm a child'']"

definition PII_PATTERNS :: "string \<Rightarrow> (string \<times> regex) list" where
  "PII_PATTERNS s = [(''ssn'', ssn_pattern), (''payment_card'', payment_card_pattern s),
     (''iban'', iban_pattern)]"

record detector_config =
  prompt_injection_threshold :: real
  pii_high_risk_threshold :: real
  unsafe_content_threshold :: real
  parser_problem_threshold :: real

record finding =
  category :: string
  score :: real
  threshold :: real
  title :: string
  problem_description :: string
  why_problematic :: string
  span_start :: int
  span_end :: int
  detector :: string

fun find_phrase :: "string \<Rightarrow> string list \<Rightarrow> (nat \<times> nat) option" where
  "find_phrase lowered [] = None"
| "find_phrase lowered (phrase # phrases) =
     (case py_find lowered phrase of
        Some index \<Rightarrow> Some (index, index + length phrase)
      | None \<Rightarrow> find_phrase lowered phrases)"

definition detect_prompt_injection :: "detector_config \<Rightarrow> string \<Rightarrow> finding list" where
  "detect_prompt_injection cfg text =
     (let lowered = py_lower text in
      case find_phrase lowered PROMPT_INJECTION_PATTERNS of
        None \<Rightarrow> []
      | Some (i, e) \<Rightarrow>
          [\<lparr>category = ''prompt_injection_risk'', score = 95/100,
            threshold = prompt_injection_threshold cfg,
            title = ''Prompt injection risk detected'',
            problem_description = ''The extracted text appears to contain instruction-like content aimed at manipulating downstream models.'',
            why_problematic = ''This content can alter model behavior if embedded or surfaced without review.'',
            span_start = int i, span_end = int e, detector = ''prompt_phrase_v1''\<rparr>])"

definition pii_finding :: "detector_config \<Rightarrow> string \<Rightarrow> nat \<times> nat \<Rightarrow> finding" where
  "pii_finding cfg label m =
     \<lparr>category = ''pii_high_risk'', score = 95/100, threshold = pii_high_risk_threshold cfg,
      title = ''High-risk PII detected'',
      problem_description = ''Potentially sensitive '' @ map (\<lambda>c. if c = CHR ''_'' then CHR '' '' else c) label
        @ '' data was detected in the extracted text.'',
      why_problematic = ''Sensitive data should not be embedded or retrieved without human review.'',
      span_start = int (fst m), span_end = int (snd m), detector = ''pii_regex_v1''\<rparr>"

definition detect_pii :: "detector_config \<Rightarrow> string \<Rightarrow> finding list" where
  "detect_pii cfg text =
     take 3 (concat (map (\<lambda>(label, pattern). case re_search pattern text of
       None \<Rightarrow> [] | Some m \<Rightarrow> [pii_finding cfg label m]) (PII_PATTERNS text)))"

definition detect_unsafe_content :: "detector_config \<Rightarrow> string \<Rightarrow> finding list" where
  "detect_unsafe_content cfg text =
     (let lowered = py_lower text in
      case find_phrase lowered UNSAFE_CONTENT_PATTERNS of
        None \<Rightarrow> []
      | Some (i, e) \<Rightarrow>
          [\<lparr>category = ''unsafe_or_prohibited_content'', score = 92/100,
            threshold = unsafe_content_threshold cfg,
            title = ''Unsafe or prohibited content detected'',
            problem_description = ''The extracted text appears to describe harmful or prohibited content.'',
            why_problematic = ''This content may violate policy and should be reviewed before ingestion continues.'',
            span_start = int i, span_end = int e, detector = ''unsafe_phrase_v1''\<rparr>])"

text \<open>\<open>warnings\<close>: whether the extractor's diagnostics carry warnings.\<close>

definition detect_parser_problem ::
  "(char \<Rightarrow> bool) \<Rightarrow> detector_config \<Rightarrow> string \<Rightarrow> bool \<Rightarrow> finding list" where
  "detect_parser_problem is_fffd cfg text warnings =
     (let stripped = strip text in
      if stripped = [] then
        [\<lparr>category = ''parser_or_format_problem'', score = 99/100,
          threshold = parser_problem_threshold cfg,
          title = ''Parser or format problem detected'',
          problem_description = ''The extractor returned no usable text.'',
          why_problematic = ''The file could not be ingested safely because the extracted text is empty.'',
          span_start = 0, span_end = 0, detector = ''empty_text_v1''\<rparr>]
      else
        (let replacement_ratio = real (length (filter is_fffd stripped)) / real (max (length stripped) 1) in
         if replacement_ratio \<ge> 3/100 \<or> warnings then
           [\<lparr>category = ''parser_or_format_problem'',
             score = (if replacement_ratio \<ge> 3/100 then 8/10 else 72/100),
             threshold = parser_problem_threshold cfg,
             title = ''Parser or format problem detected'',
             problem_description = ''The extracted text contains parsing artifacts or extractor warnings.'',
             why_problematic = ''Malformed extraction can lead to poor chunking, incorrect embeddings, or misleading retrieval results.'',
             span_start = 0, span_end = int (min (length stripped) 80), detector = ''diagnostics_v1''\<rparr>]
         else []))"

definition detect ::
  "(char \<Rightarrow> bool) \<Rightarrow> detector_config \<Rightarrow> string \<Rightarrow> bool \<Rightarrow> finding list" where
  "detect is_fffd cfg text warnings =
     detect_prompt_injection cfg text @ detect_pii cfg text @ detect_unsafe_content cfg text
     @ detect_parser_problem is_fffd cfg text warnings"

section \<open>The matcher\<close>

lemma repeat_ends_bounds:
  assumes f: "\<And>k j. k \<le> n \<Longrightarrow> j \<in> set (f k) \<Longrightarrow> k \<le> j \<and> j \<le> n"
  shows "i \<le> n \<Longrightarrow> j \<in> set (repeat_ends f g lo hi i) \<Longrightarrow> i \<le> j \<and> j \<le> n"
proof (induction hi arbitrary: lo i)
  case (Suc hi)
  then consider "j = i" | k where "k \<in> set (f i)" "j \<in> set (repeat_ends f g (lo - 1) hi k)"
    by (auto simp: Let_def split: if_splits)
  then show ?case
  proof cases
    case (2 k)
    with f [OF Suc.prems(1) 2(1)] Suc.IH [of k "lo - 1"] show ?thesis by auto
  qed (use Suc.prems in simp)
qed (simp split: if_splits)

lemma re_ends_bounds: "i \<le> length s \<Longrightarrow> j \<in> set (re_ends r s i) \<Longrightarrow> i \<le> j \<and> j \<le> length s"
proof (induction r arbitrary: i j)
  case (RRepeat g lo hi r)
  have "j \<in> set (repeat_ends (re_ends r s) g lo hi i)" using RRepeat.prems(2) by simp
  from repeat_ends_bounds [OF RRepeat.IH RRepeat.prems(1) this] show ?case .
next
  case (RSeq a b)
  from RSeq.prems(2) obtain k where k: "k \<in> set (re_ends a s i)" "j \<in> set (re_ends b s k)"
    by auto
  from RSeq.IH(1) [OF RSeq.prems(1) k(1)] have "i \<le> k" "k \<le> length s" by simp_all
  with RSeq.IH(2) [OF this(2) k(2)] show ?case by simp
next
  case (RChar p)
  then show ?case by (cases "i < length s \<and> p (s ! i)") auto
next
  case RBoundary
  then show ?case by (cases "at_boundary s i") auto
qed

lemma search_from_bounds:
  "search_from r s is = Some (i, e) \<Longrightarrow> \<forall>k\<in>set is. k \<le> length s \<Longrightarrow>
   i \<in> set is \<and> e \<in> set (re_ends r s i)"
  by (induction r s "is" rule: search_from.induct) (auto split: list.splits)

lemma re_search_bounds:
  "re_search r s = Some (i, e) \<Longrightarrow> e \<in> set (re_ends r s i) \<and> i \<le> e \<and> e \<le> length s"
  using search_from_bounds [of r s "[0..<Suc (length s)]" i e] re_ends_bounds [of i s e r]
  by (auto simp: re_search_def less_Suc_eq_le simp del: upt_Suc)

lemma re_search_None: "re_search r s = None \<longleftrightarrow> (\<forall>i\<le>length s. re_ends r s i = [])"
proof -
  have "search_from r s is = None \<longleftrightarrow> (\<forall>i\<in>set is. re_ends r s i = [])" for "is"
    by (induction "is") (auto split: list.split)
  then show ?thesis by (auto simp: re_search_def less_Suc_eq_le simp del: upt_Suc)
qed

lemma repeat_digits:
  "re_ends (digits n) s i = (if i + n \<le> max i (length s) \<and> (\<forall>k<n. is_digit (s ! (i + k))) then [i + n] else [])"
proof (induction n arbitrary: i)
  case (Suc n)
  have "(\<forall>k<Suc n. P k) \<longleftrightarrow> P 0 \<and> (\<forall>k<n. P (Suc k))" for P
    by (metis less_Suc_eq_0_disj)
  then show ?case using Suc.IH [of "Suc i"]
    by (auto simp: digits_def Let_def max_def split: if_splits)
qed (simp add: digits_def)

section \<open>The detectors\<close>

lemma find_phrase_Some:
  "find_phrase l ps = Some (i, e) \<Longrightarrow> i \<le> e \<and> e \<le> length l \<and> slice i e l \<in> set ps"
  by (induction ps) (auto split: option.splits dest: py_find_Some)

lemma find_phrase_None: "find_phrase l ps = None \<longleftrightarrow> \<not> list_ex (\<lambda>p. sublist p l) ps"
  by (induction ps) (auto split: option.split simp: py_find_None [symmetric])

definition span_ok :: "string \<Rightarrow> finding \<Rightarrow> bool" where
  "span_ok text f = (0 \<le> span_start f \<and> span_start f \<le> span_end f \<and> span_end f \<le> int (length text))"

lemma detect_prompt_injection_spans: "list_all (span_ok text) (detect_prompt_injection cfg text)"
  using find_phrase_Some [of "py_lower text" PROMPT_INJECTION_PATTERNS]
  by (auto simp: detect_prompt_injection_def span_ok_def split: option.split)

lemma detect_unsafe_content_spans: "list_all (span_ok text) (detect_unsafe_content cfg text)"
  using find_phrase_Some [of "py_lower text" UNSAFE_CONTENT_PATTERNS]
  by (auto simp: detect_unsafe_content_def span_ok_def split: option.split)

lemma detect_pii_spans: "list_all (span_ok text) (detect_pii cfg text)"
proof -
  have "span_ok text (pii_finding cfg label m)" if "re_search r text = Some m" for label r m
    using that re_search_bounds [of r "text" "fst m" "snd m"] by (simp add: span_ok_def pii_finding_def)
  then have "\<forall>f\<in>set (concat (map (\<lambda>(label, pattern). case re_search pattern text of
       None \<Rightarrow> [] | Some m \<Rightarrow> [pii_finding cfg label m]) (PII_PATTERNS text))). span_ok text f"
    by (auto split: option.splits)
  then show ?thesis unfolding detect_pii_def list_all_iff by (blast dest: in_set_takeD)
qed

lemma detect_parser_problem_spans: "list_all (span_ok text) (detect_parser_problem p cfg text w)"
  using length_strip [of "text"] by (auto simp: detect_parser_problem_def span_ok_def Let_def)

lemma detect_pii_Nil:
  "detect_pii cfg text = [] \<longleftrightarrow> list_all (\<lambda>(_, r). re_search r text = None) (PII_PATTERNS text)"
proof -
  have "(case x of (label, pattern) \<Rightarrow> case re_search pattern text of
      None \<Rightarrow> [] | Some m \<Rightarrow> [pii_finding cfg label m]) = []
    \<longleftrightarrow> (case x of (_, r) \<Rightarrow> re_search r text = None)" for x :: "string \<times> regex"
    by (simp split: prod.split option.split)
  then show ?thesis by (simp add: detect_pii_def list_all_iff)
qed

section \<open>Properties\<close>

text \<open>
  Every finding points into the text: its span starts at or after 0, does not
  end before it starts, and does not end after the text.
\<close>

theorem detect_spans_inside: "list_all (span_ok text) (detect is_fffd cfg text warnings)"
  by (simp add: detect_def detect_prompt_injection_spans detect_pii_spans
      detect_unsafe_content_spans detect_parser_problem_spans)

text \<open>
  The detector is silent exactly on clean text: no injection or unsafe phrase
  occurs in it in any letter case, no pattern for personal data matches, it is not
  blank, at most 3 per cent of it are replacement characters, and the extractor
  had no warnings.
\<close>

theorem detect_silent_iff:
  "detect is_fffd cfg text warnings = [] \<longleftrightarrow>
     \<not> matches_any_phrase text PROMPT_INJECTION_PATTERNS
     \<and> list_all (\<lambda>(_, r). re_search r text = None) (PII_PATTERNS text)
     \<and> \<not> matches_any_phrase text UNSAFE_CONTENT_PATTERNS
     \<and> strip text \<noteq> [] \<and> \<not> warnings
     \<and> real (length (filter is_fffd (strip text))) < 3/100 * real (length (strip text))"
proof -
  have "detect_prompt_injection cfg text = [] \<longleftrightarrow> \<not> matches_any_phrase text PROMPT_INJECTION_PATTERNS"
    "detect_unsafe_content cfg text = [] \<longleftrightarrow> \<not> matches_any_phrase text UNSAFE_CONTENT_PATTERNS"
    by (auto simp: detect_prompt_injection_def detect_unsafe_content_def matches_any_phrase_def
        find_phrase_None [symmetric] split: option.split)
  moreover have "detect_parser_problem is_fffd cfg text warnings = [] \<longleftrightarrow>
      strip text \<noteq> [] \<and> \<not> warnings
      \<and> real (length (filter is_fffd (strip text))) < 3/100 * real (length (strip text))"
  proof (cases "strip text = []")
    case False
    then have "max (length (strip text)) 1 = length (strip text)" by (cases "strip text") auto
    with False show ?thesis by (auto simp: detect_parser_problem_def Let_def field_simps)
  qed (simp add: detect_parser_problem_def)
  ultimately show ?thesis by (simp add: detect_def detect_pii_Nil)
qed

end
