(* ===== verification/Ingestion_State.thy ===== *)
theory Ingestion_State
  imports Prelude
begin

text \<open>
  \<open>backend/files/app/services/ingestion_state.py\<close> and the state enumeration of
  \<open>backend/files/app/core/constants.py\<close>: the nodes of the ingestion workflow, the
  table of allowed transitions, and the check every persisted transition goes
  through.
\<close>

datatype ingestion_state =
    LOAD_EXTRACTION_RESULT | DETECT_ISSUES | AWAIT_HUMAN_REVIEW | APPLY_DECISION
  | CHUNK_TEXT | REQUEST_EMBEDDINGS | FINALIZE

fun state_value :: "ingestion_state \<Rightarrow> string" where
  "state_value LOAD_EXTRACTION_RESULT = ''load_extraction_result''"
| "state_value DETECT_ISSUES = ''detect_issues''"
| "state_value AWAIT_HUMAN_REVIEW = ''await_human_review''"
| "state_value APPLY_DECISION = ''apply_decision''"
| "state_value CHUNK_TEXT = ''chunk_text''"
| "state_value REQUEST_EMBEDDINGS = ''request_embeddings''"
| "state_value FINALIZE = ''finalize''"

definition all_states :: "ingestion_state list" where
  "all_states = [LOAD_EXTRACTION_RESULT, DETECT_ISSUES, AWAIT_HUMAN_REVIEW, APPLY_DECISION,
     CHUNK_TEXT, REQUEST_EMBEDDINGS, FINALIZE]"

text \<open>\<open>IngestionState(value)\<close>.\<close>

definition state_of_value :: "string \<Rightarrow> ingestion_state option" where
  "state_of_value v = find (\<lambda>s. state_value s = v) all_states"

fun ALLOWED_INGESTION_TRANSITIONS :: "ingestion_state \<Rightarrow> ingestion_state set" where
  "ALLOWED_INGESTION_TRANSITIONS LOAD_EXTRACTION_RESULT = {DETECT_ISSUES}"
| "ALLOWED_INGESTION_TRANSITIONS DETECT_ISSUES = {AWAIT_HUMAN_REVIEW, CHUNK_TEXT}"
| "ALLOWED_INGESTION_TRANSITIONS AWAIT_HUMAN_REVIEW = {APPLY_DECISION}"
| "ALLOWED_INGESTION_TRANSITIONS APPLY_DECISION = {CHUNK_TEXT, FINALIZE}"
| "ALLOWED_INGESTION_TRANSITIONS CHUNK_TEXT = {REQUEST_EMBEDDINGS}"
| "ALLOWED_INGESTION_TRANSITIONS REQUEST_EMBEDDINGS = {FINALIZE}"
| "ALLOWED_INGESTION_TRANSITIONS FINALIZE = {}"

definition transition_ingestion_state :: "string \<Rightarrow> ingestion_state \<Rightarrow> py_exn + string" where
  "transition_ingestion_state current target =
     (case state_of_value current of
        None \<Rightarrow> Inl ValueError
      | Some current_state \<Rightarrow>
          if target \<notin> ALLOWED_INGESTION_TRANSITIONS current_state then Inl ValueError
          else Inr (state_value target))"

section \<open>The state machine\<close>

lemma state_of_value_value [simp]: "state_of_value (state_value s) = Some s"
  by (cases s) (simp_all add: state_of_value_def all_states_def)

declare state_value.simps [simp del]

lemma state_value_inject [simp]: "state_value s = state_value t \<longleftrightarrow> s = t"
  by (metis option.inject state_of_value_value)

lemma state_of_value_Some: "state_of_value v = Some s \<Longrightarrow> v = state_value s"
  by (auto simp: state_of_value_def find_Some_iff)

lemma transition_value:
  "transition_ingestion_state (state_value s) t
     = (if t \<in> ALLOWED_INGESTION_TRANSITIONS s then Inr (state_value t) else Inl ValueError)"
  by (simp add: transition_ingestion_state_def)

inductive node_step :: "string \<Rightarrow> string \<Rightarrow> bool" where
  "transition_ingestion_state v t = Inr v' \<Longrightarrow> node_step v v'"

inductive_cases node_stepE: "node_step v v'"

text \<open>
  How far a run has come: the rank strictly increases with every transition, so
  a task has at most six of them and never returns to a node.
\<close>

fun state_rank :: "ingestion_state \<Rightarrow> nat" where
  "state_rank LOAD_EXTRACTION_RESULT = 0"
| "state_rank DETECT_ISSUES = 1"
| "state_rank AWAIT_HUMAN_REVIEW = 2"
| "state_rank APPLY_DECISION = 3"
| "state_rank CHUNK_TEXT = 4"
| "state_rank REQUEST_EMBEDDINGS = 5"
| "state_rank FINALIZE = 6"

lemma allowed_rank: "t \<in> ALLOWED_INGESTION_TRANSITIONS s \<Longrightarrow> state_rank s < state_rank t"
  by (cases s) auto

lemma node_step_states:
  "node_step v v' \<Longrightarrow> \<exists>s t. v = state_value s \<and> v' = state_value t \<and> t \<in> ALLOWED_INGESTION_TRANSITIONS s"
proof (elim node_stepE)
  fix t assume "transition_ingestion_state v t = Inr v'"
  then obtain s where "state_of_value v = Some s" "t \<in> ALLOWED_INGESTION_TRANSITIONS s"
    "v' = state_value t"
    by (auto simp: transition_ingestion_state_def split: option.splits if_splits)
  then show ?thesis by (blast dest: state_of_value_Some)
qed

definition node_rank :: "string \<Rightarrow> nat" where
  "node_rank v = (case state_of_value v of Some s \<Rightarrow> state_rank s | None \<Rightarrow> 0)"

lemma node_step_rank: "node_step v v' \<Longrightarrow> node_rank v < node_rank v' \<and> node_rank v' \<le> 6"
proof -
  assume "node_step v v'"
  then obtain s t where "v = state_value s" "v' = state_value t" "t \<in> ALLOWED_INGESTION_TRANSITIONS s"
    by (blast dest: node_step_states)
  then show ?thesis using allowed_rank [of t s] by (cases t) (auto simp: node_rank_def)
qed

interpretation node_states: transition_invariant node_step "\<lambda>v. state_of_value v \<noteq> None"
  by unfold_locales (auto dest!: node_step_states)

text \<open>
  The persisted workflow is a finite, acyclic machine: every sequence of
  accepted transitions from \<open>load_extraction_result\<close> stays in the seven known nodes
  and has at most six steps, and a run is stuck exactly at \<open>finalize\<close>.
\<close>

theorem ingestion_bounded:
  assumes "(node_step ^^ n) (state_value LOAD_EXTRACTION_RESULT) v"
  shows "n \<le> 6 \<and> (\<exists>s. v = state_value s) \<and> ((\<nexists>v'. node_step v v') \<longleftrightarrow> v = state_value FINALIZE)"
proof -
  have rank: "(node_step ^^ n) a b \<Longrightarrow> node_rank a + n \<le> node_rank b \<and> (n = 0 \<or> node_rank b \<le> 6)" for n a b
  proof (induction n arbitrary: b)
    case (Suc n)
    then obtain c where "(node_step ^^ n) a c" "node_step c b" by auto
    with Suc.IH [of c] node_step_rank [of c b] show ?case by auto
  qed simp
  have "node_step\<^sup>*\<^sup>* (state_value LOAD_EXTRACTION_RESULT) v"
    using assms by (rule relpowp_imp_rtranclp)
  then have "state_of_value v \<noteq> None" by (rule node_states.reach_inv) simp
  then obtain s where s: "v = state_value s" by (auto dest: state_of_value_Some)
  have "(\<nexists>v'. node_step v v') \<longleftrightarrow> s = FINALIZE"
    unfolding s by (cases s) (auto simp: node_step.simps transition_value)
  then show ?thesis using rank [OF assms] s
    by (cases s) (auto simp: node_rank_def)
qed

theorem ingestion_bounded_witness:
  "(node_step ^^ 1) (state_value LOAD_EXTRACTION_RESULT) (state_value DETECT_ISSUES) \<and> (1::nat) \<le> 6"
proof -
  have s: "(node_step ^^ 1) (state_value LOAD_EXTRACTION_RESULT) (state_value DETECT_ISSUES)"
    by (simp only: relpowp_1)
       (rule node_step.intros [of _ DETECT_ISSUES], simp add: transition_value)
  then show ?thesis using ingestion_bounded [OF s] by simp
qed

end
