(* ===== verification/Auth.thy ===== *)
theory Auth
  imports Prelude
begin

text \<open>
  \<open>backend/shared/auth.py\<close>: identities, signed internal tickets, the binding of a
  ticket to a message envelope, and password hashes.  The primitives (HMAC,
  PBKDF2, SHA-256, JSON, base64) are the fields of a record \<open>codec\<close>; the theorems
  state the laws they need of them.  Environment variables, clock readings,
  salts and ticket ids are arguments.  Claims that callers add or require are
  strings, as at every call site.
\<close>

section \<open>Identities\<close>

text \<open>\<open>AuthError(message, code)\<close>; encoding a string that is not ASCII raises its own exception.\<close>

datatype auth_error = AuthError string string | UnicodeEncodeError

definition auth_err :: "string \<Rightarrow> auth_error" where
  "auth_err m = AuthError m ''internal_auth_invalid''"

definition ROLE_ADMIN :: string where "ROLE_ADMIN = ''admin''"
definition ROLE_USER :: string where "ROLE_USER = ''user''"
definition ROLE_SERVICE :: string where "ROLE_SERVICE = ''service''"
definition VALID_ROLES :: "string set" where "VALID_ROLES = {ROLE_ADMIN, ROLE_USER, ROLE_SERVICE}"

record auth_identity =
  id_tenant :: string
  id_user :: string
  id_role :: string
  id_email :: "string option"
  id_admin :: "string option"
  id_session :: "string option"

definition identity_check :: "auth_identity \<Rightarrow> auth_error + auth_identity" where
  "identity_check i =
     (if id_tenant i = [] \<or> id_user i = [] then Inl (auth_err ''tenant_id and user_id are required'')
      else if id_role i \<notin> VALID_ROLES then Inl (auth_err (''unsupported role: '' @ id_role i))
      else Inr i)"

definition is_admin :: "auth_identity \<Rightarrow> bool" where
  "is_admin i = (id_role i = ROLE_ADMIN)"

definition is_service :: "auth_identity \<Rightarrow> bool" where
  "is_service i = (id_role i = ROLE_SERVICE)"

type_synonym claims = "(string, pyval) dict"

definition opt_claim :: "string \<Rightarrow> string option \<Rightarrow> claims" where
  "opt_claim k v = (case v of Some s \<Rightarrow> [(k, PStr s)] | None \<Rightarrow> [])"

definition identity_to_dict :: "auth_identity \<Rightarrow> claims" where
  "identity_to_dict i =
     [(''tenant_id'', PStr (id_tenant i)), (''user_id'', PStr (id_user i)), (''role'', PStr (id_role i))]
     @ opt_claim ''email'' (id_email i) @ opt_claim ''admin_id'' (id_admin i)
     @ opt_claim ''session_id'' (id_session i)"

text \<open>The primitives.  \<open>cd_str\<close> is \<open>str(v)\<close> of a value that is not a string.\<close>

record codec =
  cd_hmac :: "string \<Rightarrow> string \<Rightarrow> string"
  cd_pbkdf2 :: "string \<Rightarrow> string \<Rightarrow> nat \<Rightarrow> string"
  cd_sha256 :: "string \<Rightarrow> string"
  cd_dumps :: "claims \<Rightarrow> string"
  cd_loads :: "string \<Rightarrow> pyval option"
  cd_b64encode :: "string \<Rightarrow> string"
  cd_b64decode :: "string \<Rightarrow> string option"
  cd_str :: "pyval \<Rightarrow> string"

definition py_str :: "codec \<Rightarrow> pyval \<Rightarrow> string" where
  "py_str c v = (case v of PStr s \<Rightarrow> s | _ \<Rightarrow> cd_str c v)"

definition claim :: "claims \<Rightarrow> string \<Rightarrow> pyval" where
  "claim p k = (case dget p k of Some v \<Rightarrow> v | None \<Rightarrow> PNone)"

definition str_or_empty :: "codec \<Rightarrow> pyval \<Rightarrow> string" where
  "str_or_empty c v = (if truthy v then py_str c v else [])"

definition str_or_none :: "codec \<Rightarrow> pyval \<Rightarrow> string option" where
  "str_or_none c v = (if truthy v then Some (py_str c v) else None)"

definition identity_from_mapping :: "codec \<Rightarrow> claims \<Rightarrow> auth_error + auth_identity" where
  "identity_from_mapping c p = identity_check
     \<lparr>id_tenant = str_or_empty c (claim p ''tenant_id''),
      id_user = str_or_empty c (claim p ''user_id''),
      id_role = str_or_empty c (claim p ''role''),
      id_email = str_or_none c (claim p ''email''),
      id_admin = str_or_none c (claim p ''admin_id''),
      id_session = str_or_none c (claim p ''session_id'')\<rparr>"

definition identity_from_context :: "codec \<Rightarrow> bool \<Rightarrow> claims \<Rightarrow> auth_error + auth_identity option" where
  "identity_from_context c required context =
     (if \<not> truthy (claim context ''tenant_id'') \<or> \<not> truthy (claim context ''user_id'')
         \<or> \<not> truthy (claim context ''role'')
      then (if required
            then Inl (auth_err ''authenticated identity is missing from request context'')
            else Inr None)
      else bindE (identity_from_mapping c context) (\<lambda>i. Inr (Some i)))"

section \<open>Tickets\<close>

definition MINIMUM_SECRET_BYTES :: nat where "MINIMUM_SECRET_BYTES = 32"

text \<open>\<open>len(s.encode("utf-8"))\<close> of Latin-1 text, and \<open>s.encode("ascii")\<close>.\<close>

definition utf8_length :: "string \<Rightarrow> nat" where
  "utf8_length s = (\<Sum>c\<leftarrow>s. if (of_char c :: nat) < 128 then 1 else 2)"

definition encode_ascii :: "string \<Rightarrow> auth_error + string" where
  "encode_ascii s = (if list_all (\<lambda>c. (of_char c :: nat) < 128) s then Inr s else Inl UnicodeEncodeError)"

definition secret_bytes :: "string \<Rightarrow> auth_error + string" where
  "secret_bytes secret =
     (if utf8_length secret < MINIMUM_SECRET_BYTES
      then Inl (auth_err ''authentication secret must contain at least 32 bytes'')
      else Inr secret)"

definition b64decode :: "codec \<Rightarrow> string \<Rightarrow> auth_error + string" where
  "b64decode c v = (case cd_b64decode c v of
     Some x \<Rightarrow> Inr x | None \<Rightarrow> Inl (auth_err ''invalid base64 encoding''))"

definition ticket_payload ::
  "auth_identity \<Rightarrow> string \<Rightarrow> int \<Rightarrow> string \<Rightarrow> string \<Rightarrow> int \<Rightarrow> string \<Rightarrow> (string \<times> string) list \<Rightarrow> claims" where
  "ticket_payload i audience ttl_seconds purpose issuer issued_at jti extra_claims =
     identity_to_dict i
     @ [(''aud'', PStr audience), (''purpose'', PStr purpose), (''iat'', PInt issued_at),
        (''exp'', PInt (issued_at + ttl_seconds)), (''jti'', PStr jti), (''iss'', PStr issuer)]
     @ map (\<lambda>(k, v). (k, PStr v)) extra_claims"

definition sign_auth_ticket ::
  "codec \<Rightarrow> auth_identity \<Rightarrow> string \<Rightarrow> string \<Rightarrow> int \<Rightarrow> string \<Rightarrow> string \<Rightarrow> int \<Rightarrow> string
     \<Rightarrow> (string \<times> string) list \<Rightarrow> auth_error + string" where
  "sign_auth_ticket c i secret audience ttl_seconds purpose issuer now jti extra_claims =
     (if audience = [] \<or> ttl_seconds \<le> 0 \<or> ttl_seconds > 900
      then Inl (auth_err ''invalid ticket audience or lifetime'')
      else
        (let base = ticket_payload i audience ttl_seconds purpose issuer now jti [] in
         if list_ex (\<lambda>(k, _). k \<in> set (dkeys base)) extra_claims
         then Inl (auth_err ''authentication ticket claims contain reserved fields'')
         else
           (let encoded = cd_b64encode c (cd_dumps c
                  (ticket_payload i audience ttl_seconds purpose issuer now jti extra_claims)) in
            bindE (secret_bytes secret) (\<lambda>key.
            bindE (encode_ascii encoded) (\<lambda>msg.
              Inr (encoded @ ''.'' @ cd_b64encode c (cd_hmac c key msg)))))))"

text \<open>\<open>ticket.split(".", 1)\<close>.\<close>

definition split_ticket :: "string \<Rightarrow> (string \<times> string) option" where
  "split_ticket t = (if CHR ''.'' \<in> set t
     then Some (takeWhile (\<lambda>c. c \<noteq> CHR ''.'') t, tl (dropWhile (\<lambda>c. c \<noteq> CHR ''.'') t))
     else None)"

definition int_claim :: "pyval \<Rightarrow> int option" where
  "int_claim v = (case v of PInt i \<Rightarrow> Some i | PBool b \<Rightarrow> Some (if b then 1 else 0) | _ \<Rightarrow> None)"

definition check_claims ::
  "claims \<Rightarrow> string \<Rightarrow> string option \<Rightarrow> int \<Rightarrow> int \<Rightarrow> (string \<times> string) list \<Rightarrow> auth_error + unit" where
  "check_claims payload audience purpose current_time skew required_claims =
     (if claim payload ''iss'' \<notin> {PStr ''ragapp-gateway'', PStr ''ragapp-internal''}
         \<or> claim payload ''aud'' \<noteq> PStr audience
      then Inl (auth_err ''authentication ticket audience mismatch'')
      else if purpose \<noteq> None \<and> claim payload ''purpose'' \<noteq> PStr (the purpose)
      then Inl (auth_err ''authentication ticket purpose mismatch'')
      else
        (case (int_claim (claim payload ''iat''), int_claim (claim payload ''exp'')) of
           (Some iat, Some expiry) \<Rightarrow>
             if iat > current_time + skew
             then Inl (auth_err ''authentication ticket is not active yet'')
             else if expiry \<le> current_time - skew
             then Inl (AuthError ''authentication ticket has expired'' ''internal_auth_expired'')
             else if list_all (\<lambda>(k, v). claim payload k = PStr v) required_claims then Inr ()
             else Inl (auth_err ''authentication ticket is not bound to this request'')
         | _ \<Rightarrow> Inl (auth_err ''authentication ticket has no valid lifetime'')))"

definition verify_auth_ticket ::
  "codec \<Rightarrow> string \<Rightarrow> string \<Rightarrow> string \<Rightarrow> string option \<Rightarrow> int \<Rightarrow> int \<Rightarrow> (string \<times> string) list
     \<Rightarrow> auth_error + auth_identity" where
  "verify_auth_ticket c ticket secret audience purpose now skew required_claims =
     (case split_ticket ticket of
        None \<Rightarrow> Inl (auth_err ''malformed authentication ticket'')
      | Some (encoded, raw_signature) \<Rightarrow>
          bindE (secret_bytes secret) (\<lambda>key.
          bindE (encode_ascii encoded) (\<lambda>msg.
          let expected = cd_hmac c key msg in
          bindE (b64decode c raw_signature) (\<lambda>supplied.
          if expected \<noteq> supplied then Inl (auth_err ''invalid authentication ticket signature'')
          else
            bindE (b64decode c encoded) (\<lambda>raw.
            case cd_loads c raw of
              Some (PDict payload) \<Rightarrow>
                bindE (check_claims payload audience purpose now skew required_claims) (\<lambda>_.
                identity_from_mapping c payload)
            | _ \<Rightarrow> Inl (auth_err ''invalid authentication ticket payload''))))))"

section \<open>Envelopes\<close>

definition internal_envelope_digest :: "codec \<Rightarrow> claims \<Rightarrow> string" where
  "internal_envelope_digest c envelope =
     cd_sha256 c (cd_dumps c (filter (\<lambda>(k, _). k \<noteq> ''auth_context'') envelope))"

definition verify_internal_ticket_from_envelope ::
  "codec \<Rightarrow> bool \<Rightarrow> string \<Rightarrow> int \<Rightarrow> claims \<Rightarrow> auth_error + auth_identity option" where
  "verify_internal_ticket_from_envelope c auth_required secret now envelope =
     (let ticket = claim envelope ''auth_context'' in
      if \<not> truthy ticket then
        (if auth_required
         then Inl (AuthError ''signed authentication context is required'' ''internal_auth_required'')
         else Inr None)
      else
        bindE (verify_auth_ticket c (py_str c ticket) secret ''internal'' (Some ''request'') now 30
          [(''payload_sha256'', internal_envelope_digest c envelope)]) (\<lambda>i. Inr (Some i)))"

text \<open>\<open>identity\<close>: the one passed in, or the one of the request context.\<close>

definition attach_internal_auth_context ::
  "codec \<Rightarrow> bool \<Rightarrow> string \<Rightarrow> auth_identity option \<Rightarrow> int \<Rightarrow> int \<Rightarrow> string \<Rightarrow> claims \<Rightarrow> auth_error + claims" where
  "attach_internal_auth_context c required secret i ttl_seconds now jti envelope =
     (if i = None \<or> secret = [] then
        (if required
         then Inl (auth_err ''cannot publish an internal message without authenticated identity'')
         else Inr envelope)
      else
        bindE (sign_auth_ticket c (the i) secret ''internal'' ttl_seconds ''request'' ''ragapp-internal''
            now jti [(''payload_sha256'', internal_envelope_digest c envelope)])
          (\<lambda>t. Inr (dset ''auth_context'' (PStr t) envelope)))"

section \<open>Passwords\<close>

definition PASSWORD_SCHEME :: string where "PASSWORD_SCHEME = ''pbkdf2_sha256''"

definition hash_password ::
  "codec \<Rightarrow> string \<Rightarrow> string \<Rightarrow> string \<Rightarrow> nat \<Rightarrow> auth_error + string" where
  "hash_password c salt password pepper iterations =
     (if length password < 15 then Inl (auth_err ''password must contain at least 15 characters'')
      else if iterations < 100000
      then Inl (auth_err ''password hashing iteration count is too low'')
      else
        (let digest = cd_pbkdf2 c (password @ pepper) salt iterations in
         Inr (PASSWORD_SCHEME @ ''$'' @ show_nat iterations @ ''$'' @ cd_b64encode c salt @ ''$''
              @ cd_b64encode c digest)))"

text \<open>
  \<open>encoded.split("$", 3)\<close> into exactly four parts, and \<open>int(s)\<close> of decimal digits
  (the only spelling \<open>hash_password\<close> writes).
\<close>

definition split_once :: "string \<Rightarrow> (string \<times> string) option" where
  "split_once s = (if CHR ''$'' \<in> set s
     then Some (takeWhile (\<lambda>c. c \<noteq> CHR ''$'') s, tl (dropWhile (\<lambda>c. c \<noteq> CHR ''$'') s))
     else None)"

definition parse_nat :: "string \<Rightarrow> nat option" where
  "parse_nat s = (if s \<noteq> [] \<and> list_all (\<lambda>c. 48 \<le> (of_char c :: nat) \<and> (of_char c :: nat) \<le> 57) s
     then Some (foldl (\<lambda>n c. 10 * n + (of_char c - 48)) 0 s) else None)"

definition verify_password :: "codec \<Rightarrow> string \<Rightarrow> string \<Rightarrow> string \<Rightarrow> bool" where
  "verify_password c password encoded pepper =
     (case split_once encoded of None \<Rightarrow> False
      | Some (scheme, r1) \<Rightarrow>
        (case split_once r1 of None \<Rightarrow> False
         | Some (raw_iterations, r2) \<Rightarrow>
           (case split_once r2 of None \<Rightarrow> False
            | Some (raw_salt, raw_digest) \<Rightarrow>
                if scheme \<noteq> PASSWORD_SCHEME then False
                else
                  (case (parse_nat raw_iterations, cd_b64decode c raw_salt, cd_b64decode c raw_digest) of
                     (Some iterations, Some salt, Some expected) \<Rightarrow>
                       iterations > 0 \<and> cd_pbkdf2 c (password @ pepper) salt iterations = expected
                   | _ \<Rightarrow> False))))"

section \<open>Lemmas\<close>

lemma takeWhile_until: "c \<notin> set a \<Longrightarrow> takeWhile (\<lambda>x. x \<noteq> c) (a @ c # b) = a"
  by (induction a) auto

lemma dropWhile_until: "c \<notin> set a \<Longrightarrow> dropWhile (\<lambda>x. x \<noteq> c) (a @ c # b) = c # b"
  by (induction a) auto

lemma split_ticket_append: "CHR ''.'' \<notin> set a \<Longrightarrow> split_ticket (a @ CHR ''.'' # b) = Some (a, b)"
  by (simp add: split_ticket_def takeWhile_until dropWhile_until)

lemma split_once_append: "CHR ''$'' \<notin> set a \<Longrightarrow> split_once (a @ CHR ''$'' # b) = Some (a, b)"
  by (simp add: split_once_def takeWhile_until dropWhile_until)

lemma dget_opt_claim: "dget (opt_claim k v) k' = (if k' = k then map_option PStr v else None)"
  by (simp add: opt_claim_def split: option.split)

lemmas payload_defs = ticket_payload_def identity_to_dict_def claim_def dget_opt_claim map_add_def

abbreviation extra_dict :: "(string \<times> string) list \<Rightarrow> claims" where
  "extra_dict extra \<equiv> map (\<lambda>(k, v). (k, PStr v)) extra"

lemma payload_claims:
  fixes i aud ttl purpose iss now jti extra
  defines "P \<equiv> ticket_payload i aud ttl purpose iss now jti extra"
  shows "claim P ''tenant_id'' = PStr (id_tenant i)" "claim P ''user_id'' = PStr (id_user i)"
    "claim P ''role'' = PStr (id_role i)" "claim P ''aud'' = PStr aud"
    "claim P ''purpose'' = PStr purpose" "claim P ''iss'' = PStr iss" "claim P ''iat'' = PInt now"
    "claim P ''exp'' = PInt (now + ttl)"
    "claim P ''email'' = (case id_email i of Some s \<Rightarrow> PStr s | None \<Rightarrow> claim (extra_dict extra) ''email'')"
    "claim P ''admin_id'' = (case id_admin i of Some s \<Rightarrow> PStr s | None \<Rightarrow> claim (extra_dict extra) ''admin_id'')"
    "claim P ''session_id'' = (case id_session i of Some s \<Rightarrow> PStr s | None \<Rightarrow> claim (extra_dict extra) ''session_id'')"
  by (simp_all add: P_def payload_defs split: option.split)

lemma payload_extra:
  assumes "k \<notin> set (dkeys (ticket_payload i aud ttl purpose iss now jti []))"
  shows "claim (ticket_payload i aud ttl purpose iss now jti extra) k = claim (extra_dict extra) k"
proof -
  have "dget (ticket_payload i aud ttl purpose iss now jti []) k = None"
    using assms by (simp add: map_of_eq_None_iff)
  moreover have "ticket_payload i aud ttl purpose iss now jti extra
      = ticket_payload i aud ttl purpose iss now jti [] @ extra_dict extra"
    by (simp add: ticket_payload_def)
  ultimately show ?thesis by (simp add: claim_def map_add_def)
qed

text \<open>Reading back the identity that was written; empty optional fields read as absent.\<close>

definition drop_empty :: "string option \<Rightarrow> string option" where
  "drop_empty v = (if v = Some [] then None else v)"

definition identity_norm :: "auth_identity \<Rightarrow> auth_identity" where
  "identity_norm i = i\<lparr>id_email := drop_empty (id_email i), id_admin := drop_empty (id_admin i),
     id_session := drop_empty (id_session i)\<rparr>"

lemma str_claims [simp]:
  "str_or_empty c (PStr s) = s"
  "str_or_none c (case v of Some s \<Rightarrow> PStr s | None \<Rightarrow> PNone) = drop_empty v"
  by (auto simp: str_or_empty_def str_or_none_def py_str_def drop_empty_def split: option.split)

lemma identity_from_payload:
  assumes "identity_check i = Inr i"
    and "claim (extra_dict extra) ''email'' = PNone" "claim (extra_dict extra) ''admin_id'' = PNone"
      "claim (extra_dict extra) ''session_id'' = PNone"
  shows "identity_from_mapping c (ticket_payload i aud ttl purpose iss now jti extra) = Inr (identity_norm i)"
proof -
  have "identity_check (identity_norm i) = Inr (identity_norm i)"
    using assms(1) by (auto simp: identity_check_def identity_norm_def split: if_splits)
  moreover have "identity_from_mapping c (ticket_payload i aud ttl purpose iss now jti extra)
      = identity_check (identity_norm i)"
    unfolding identity_from_mapping_def payload_claims assms(2-4) str_claims
    by (cases i) (simp add: identity_norm_def)
  ultimately show ?thesis by simp
qed

lemma split_ticket_Some: "split_ticket t = Some (a, b) \<Longrightarrow> t = a @ ''.'' @ b \<and> CHR ''.'' \<notin> set a"
proof -
  assume "split_ticket t = Some (a, b)"
  then have m: "CHR ''.'' \<in> set t" "a = takeWhile (\<lambda>c. c \<noteq> CHR ''.'') t"
    "b = tl (dropWhile (\<lambda>c. c \<noteq> CHR ''.'') t)" by (auto simp: split_ticket_def split: if_splits)
  then obtain u v where "t = u @ CHR ''.'' # v" "CHR ''.'' \<notin> set u" by (meson split_list_first)
  with m show ?thesis by (simp add: takeWhile_until dropWhile_until)
qed

lemma check_claims_ok:
  "check_claims payload aud purpose now skew req = Inr () \<longleftrightarrow>
     claim payload ''iss'' \<in> {PStr ''ragapp-gateway'', PStr ''ragapp-internal''}
     \<and> claim payload ''aud'' = PStr aud
     \<and> (case purpose of None \<Rightarrow> True | Some u \<Rightarrow> claim payload ''purpose'' = PStr u)
     \<and> (\<exists>iat expiry. int_claim (claim payload ''iat'') = Some iat
          \<and> int_claim (claim payload ''exp'') = Some expiry
          \<and> iat \<le> now + skew \<and> now - skew < expiry)
     \<and> list_all (\<lambda>(k, v). claim payload k = PStr v) req"
  by (cases "int_claim (claim payload ''iat'')"; cases "int_claim (claim payload ''exp'')"; cases purpose)
     (auto simp: check_claims_def)

text \<open>What \<open>verify_auth_ticket\<close> has established when it returns an identity.\<close>

definition ticket_genuine ::
  "codec \<Rightarrow> string \<Rightarrow> string \<Rightarrow> claims \<Rightarrow> bool" where
  "ticket_genuine c ticket secret payload =
     (\<exists>encoded sig raw. ticket = encoded @ ''.'' @ sig \<and> CHR ''.'' \<notin> set encoded
        \<and> utf8_length secret \<ge> 32 \<and> cd_b64decode c sig = Some (cd_hmac c secret encoded)
        \<and> cd_b64decode c encoded = Some raw \<and> cd_loads c raw = Some (PDict payload))"

lemma verify_genuine:
  assumes "verify_auth_ticket c ticket secret aud purpose now skew req = Inr i"
  shows "\<exists>payload. ticket_genuine c ticket secret payload
    \<and> check_claims payload aud purpose now skew req = Inr () \<and> identity_from_mapping c payload = Inr i"
proof -
  obtain encoded sig where sp: "split_ticket ticket = Some (encoded, sig)"
    using assms by (auto simp: verify_auth_ticket_def split: option.splits)
  obtain raw where 1: "secret_bytes secret = Inr secret" "encode_ascii encoded = Inr encoded"
    "cd_b64decode c sig = Some (cd_hmac c secret encoded)" "cd_b64decode c encoded = Some raw"
    using assms sp by (auto simp: verify_auth_ticket_def Let_def bindE_Inr b64decode_def secret_bytes_def
        encode_ascii_def split: option.splits if_splits)
  obtain payload where 2: "cd_loads c raw = Some (PDict payload)"
    using assms sp 1 by (auto simp: verify_auth_ticket_def Let_def b64decode_def split: option.splits pyval.splits)
  show ?thesis
    using assms sp 1 2 split_ticket_Some [OF sp]
    by (intro exI [of _ payload])
       (auto simp: verify_auth_ticket_def Let_def b64decode_def ticket_genuine_def bindE_Inr
         secret_bytes_def MINIMUM_SECRET_BYTES_def split: if_splits)
qed

lemma verify_returns:
  assumes "CHR ''.'' \<notin> set encoded" "encode_ascii encoded = Inr encoded" "utf8_length secret \<ge> 32"
    "cd_b64decode c sig = Some (cd_hmac c secret encoded)" "cd_b64decode c encoded = Some raw"
    "cd_loads c raw = Some (PDict payload)" "check_claims payload aud purpose now skew req = Inr ()"
  shows "verify_auth_ticket c (encoded @ ''.'' @ sig) secret aud purpose now skew req
    = identity_from_mapping c payload"
  using assms by (simp add: verify_auth_ticket_def split_ticket_append secret_bytes_def b64decode_def
      MINIMUM_SECRET_BYTES_def Let_def)

lemma sign_ok:
  assumes "sign_auth_ticket c i secret aud ttl purpose iss now jti extra = Inr ticket"
  defines "P \<equiv> ticket_payload i aud ttl purpose iss now jti extra"
  defines "encoded \<equiv> cd_b64encode c (cd_dumps c P)"
  shows "ticket = encoded @ ''.'' @ cd_b64encode c (cd_hmac c secret encoded)"
    "encode_ascii encoded = Inr encoded" "utf8_length secret \<ge> 32" "0 < ttl" "ttl \<le> 900"
    "\<And>k v. (k, v) \<in> set extra \<Longrightarrow> k \<notin> set (dkeys (ticket_payload i aud ttl purpose iss now jti []))"
  using assms by (auto simp: sign_auth_ticket_def Let_def bindE_Inr secret_bytes_def encode_ascii_def
      MINIMUM_SECRET_BYTES_def list_ex_iff split: if_splits)

lemma claim_extra_dict:
  "distinct (map fst extra) \<Longrightarrow> (k, v) \<in> set extra \<Longrightarrow> claim (extra_dict extra) k = PStr v"
  by (simp add: claim_def map_of_map)

lemma claim_extra_absent: "k \<notin> set (map fst extra) \<Longrightarrow> claim (extra_dict extra) k = PNone"
  by (simp add: claim_def map_of_map) (metis map_of_eq_None_iff option.simps(4) option.map_disc_iff)

text \<open>
  The laws of the codecs that a ticket with payload \<open>P\<close> relies on: JSON and base64
  decode what they encode, and a base64 text is ASCII without a full stop.
\<close>

definition codec_ok :: "codec \<Rightarrow> string \<Rightarrow> claims \<Rightarrow> bool" where
  "codec_ok c secret P =
     (let encoded = cd_b64encode c (cd_dumps c P); sig = cd_hmac c secret encoded in
      cd_loads c (cd_dumps c P) = Some (PDict P)
      \<and> cd_b64decode c encoded = Some (cd_dumps c P)
      \<and> cd_b64decode c (cd_b64encode c sig) = Some sig
      \<and> CHR ''.'' \<notin> set encoded \<and> encode_ascii encoded = Inr encoded)"

section \<open>Properties\<close>


definition sample_identity :: auth_identity where
  "sample_identity = \<lparr>id_tenant = ''t1'', id_user = ''u1'', id_role = ''user'', id_email = None,
     id_admin = Some ''a1'', id_session = None\<rparr>"

definition sample_payload :: "(string \<times> string) list \<Rightarrow> claims" where
  "sample_payload x = ticket_payload sample_identity ''internal'' 300 ''request'' ''ragapp-internal'' 1000 ''j1'' x"

definition sample_secret :: string where
  "sample_secret = replicate 32 CHR ''k''"

definition sample_codec :: "claims \<Rightarrow> codec" where
  "sample_codec P = \<lparr>cd_hmac = (\<lambda>k m. k @ m), cd_pbkdf2 = (\<lambda>p s n. p @ s), cd_sha256 = (\<lambda>s. s),
     cd_dumps = (\<lambda>_. ''p''), cd_loads = (\<lambda>_. Some (PDict P)), cd_b64encode = (\<lambda>x. x),
     cd_b64decode = Some, cd_str = (\<lambda>_. [])\<rparr>"

lemma sample_secret_length: "utf8_length sample_secret = 32"
  by (simp add: utf8_length_def sample_secret_def sum_list_replicate)

lemma sample_codec_ok: "codec_ok (sample_codec P) sample_secret P"
  by (simp add: codec_ok_def sample_codec_def Let_def encode_ascii_def)

lemma sample_identity_valid: "identity_check sample_identity = Inr sample_identity"
  by (simp add: identity_check_def sample_identity_def VALID_ROLES_def ROLE_USER_def)


text \<open>
  C8.  A ticket is accepted only if it is genuine: its signature is the HMAC of its
  encoded part under the given secret (of at least 32 bytes), its payload names a
  known issuer, the expected audience and purpose, it is active and not expired
  beyond the skew, it carries every required claim, and the identity returned is
  a valid one read from that payload.
\<close>

theorem ticket_accepted_genuine:
  assumes "verify_auth_ticket c ticket secret aud (Some purpose) t skew required = Inr i"
  shows "\<exists>P. ticket_genuine c ticket secret P
    \<and> claim P ''iss'' \<in> {PStr ''ragapp-gateway'', PStr ''ragapp-internal''}
    \<and> claim P ''aud'' = PStr aud \<and> claim P ''purpose'' = PStr purpose
    \<and> (\<exists>iat expiry. int_claim (claim P ''iat'') = Some iat \<and> int_claim (claim P ''exp'') = Some expiry
         \<and> iat \<le> t + skew \<and> t - skew < expiry)
    \<and> list_all (\<lambda>(k, v). claim P k = PStr v) required
    \<and> identity_from_mapping c P = Inr i \<and> identity_check i = Inr i"
proof -
  obtain P where P: "ticket_genuine c ticket secret P"
    "check_claims P aud (Some purpose) t skew required = Inr ()" "identity_from_mapping c P = Inr i"
    using verify_genuine [OF assms] by blast
  moreover from P(3) have "identity_check i = Inr i"
    by (auto simp: identity_from_mapping_def identity_check_def split: if_splits)
  ultimately show ?thesis by (intro exI [of _ P]) (simp add: check_claims_ok)
qed

lemma sample_verify:
  "verify_auth_ticket (sample_codec (sample_payload [])) (''p.'' @ sample_secret @ ''p'') sample_secret
     ''internal'' (Some ''request'') 1200 30 [] = Inr sample_identity"
proof -
  have "verify_auth_ticket (sample_codec (sample_payload [])) (''p'' @ ''.'' @ (sample_secret @ ''p''))
      sample_secret ''internal'' (Some ''request'') 1200 30 []
    = identity_from_mapping (sample_codec (sample_payload [])) (sample_payload [])"
    by (rule verify_returns [where raw = "''p''"])
       (simp_all add: sample_codec_def encode_ascii_def sample_secret_length check_claims_ok
         sample_payload_def payload_claims int_claim_def)
  also have "\<dots> = Inr (identity_norm sample_identity)"
    unfolding sample_payload_def by (rule identity_from_payload [OF sample_identity_valid])
      (simp_all add: claim_def)
  finally show ?thesis by (simp add: identity_norm_def sample_identity_def drop_empty_def)
qed

theorem ticket_accepted_genuine_witness:
  "\<exists>P. ticket_genuine (sample_codec (sample_payload [])) (''p.'' @ sample_secret @ ''p'') sample_secret P
    \<and> claim P ''aud'' = PStr ''internal''"
  using ticket_accepted_genuine [OF sample_verify] by blast


definition sample_bound :: "(string \<times> string) list" where
  "sample_bound = [(''payload_sha256'', ''p'')]"

lemma sample_digest: "internal_envelope_digest (sample_codec P) e = ''p''"
  by (simp add: internal_envelope_digest_def sample_codec_def)

lemma sample_attach:
  "attach_internal_auth_context (sample_codec P) True sample_secret (Some sample_identity) 300 1000 ''j1''
     [(''action'', PStr ''list'')]
   = Inr [(''action'', PStr ''list''), (''auth_context'', PStr (''p.'' @ sample_secret @ ''p''))]"
  by (simp add: attach_internal_auth_context_def sign_auth_ticket_def sample_digest Let_def
      secret_bytes_def sample_secret_length MINIMUM_SECRET_BYTES_def encode_ascii_def ticket_payload_def
      identity_to_dict_def sample_identity_def opt_claim_def)
     (simp add: sample_codec_def sample_secret_def)

lemma sample_bound_verify:
  "verify_internal_ticket_from_envelope (sample_codec (sample_payload sample_bound)) True sample_secret 1200
     [(''action'', PStr ''list''), (''auth_context'', PStr (''p.'' @ sample_secret @ ''p''))]
   = Inr (Some sample_identity)"
proof -
  have "verify_auth_ticket (sample_codec (sample_payload sample_bound))
      (''p'' @ ''.'' @ (sample_secret @ ''p'')) sample_secret ''internal'' (Some ''request'') 1200 30
      [(''payload_sha256'', ''p'')]
    = identity_from_mapping (sample_codec (sample_payload sample_bound)) (sample_payload sample_bound)"
    by (rule verify_returns [where raw = "''p''"])
       (simp_all add: sample_codec_def encode_ascii_def sample_secret_length check_claims_ok
         sample_payload_def payload_claims int_claim_def sample_bound_def,
        simp add: payload_defs sample_identity_def)
  also have "\<dots> = Inr (identity_norm sample_identity)"
    unfolding sample_payload_def by (rule identity_from_payload [OF sample_identity_valid])
      (simp_all add: claim_def sample_bound_def)
  finally show ?thesis
    by (simp add: verify_internal_ticket_from_envelope_def claim_def py_str_def sample_digest
        identity_norm_def sample_identity_def drop_empty_def)
qed


section \<open>Password hashes\<close>

lemma of_char_digit: "d < 10 \<Longrightarrow> (of_char (digit_char d) :: nat) = 48 + d"
  by (simp add: digit_char_def)

lemma show_nat_digits:
  "show_nat n \<noteq> [] \<and> list_all (\<lambda>c. 48 \<le> (of_char c :: nat) \<and> (of_char c :: nat) \<le> 57) (show_nat n)
   \<and> foldl (\<lambda>m c. 10 * m + (of_char c - 48)) 0 (show_nat n) = n"
proof (induction n rule: show_nat.induct)
  case (1 n)
  show ?case
  proof (cases "n < 10")
    case True
    then show ?thesis by (simp add: show_nat.simps of_char_digit)
  next
    case False
    with 1 have IH: "show_nat (n div 10) \<noteq> []"
      "list_all (\<lambda>c. 48 \<le> (of_char c :: nat) \<and> (of_char c :: nat) \<le> 57) (show_nat (n div 10))"
      "foldl (\<lambda>m c. 10 * m + (of_char c - 48)) 0 (show_nat (n div 10)) = n div 10" by simp_all
    have "show_nat n = show_nat (n div 10) @ [digit_char (n mod 10)]"
      using False by (subst show_nat.simps) simp
    with IH show ?thesis by (simp add: of_char_digit)
  qed
qed

lemma parse_nat_show_nat [simp]: "parse_nat (show_nat n) = Some n"
  using show_nat_digits [of n] by (simp add: parse_nat_def)

lemma show_nat_no_dollar: "CHR ''$'' \<notin> set (show_nat n)"
proof
  assume "CHR ''$'' \<in> set (show_nat n)"
  then have "48 \<le> (of_char CHR ''$'' :: nat)" using show_nat_digits [of n] by (auto simp: list_all_iff)
  then show False by simp
qed

lemma verify_password_format:
  assumes "CHR ''$'' \<notin> set a" "n > 0"
  shows "verify_password c password (PASSWORD_SCHEME @ ''$'' @ show_nat n @ ''$'' @ a @ ''$'' @ b) pepper
    = (case (cd_b64decode c a, cd_b64decode c b) of
         (Some salt, Some expected) \<Rightarrow> cd_pbkdf2 c (password @ pepper) salt n = expected
       | _ \<Rightarrow> False)"
proof -
  have "CHR ''$'' \<notin> set PASSWORD_SCHEME" by (simp add: PASSWORD_SCHEME_def)
  then show ?thesis using assms
    by (simp add: verify_password_def split_once_append show_nat_no_dollar split: option.split)
qed

text \<open>
  Password hashes round-trip: a password that \<open>hash_password\<close> accepts (at least
  15 characters, at least 100000 iterations) verifies against its hash with the same
  pepper, and any other password verifies only if the key derivation gives the
  same digest for it.  (Base64 decodes what it encodes and has no dollar sign.)
\<close>

theorem password_roundtrip:
  assumes "hash_password c salt password pepper iterations = Inr encoded"
    and "cd_b64decode c (cd_b64encode c salt) = Some salt" "CHR ''$'' \<notin> set (cd_b64encode c salt)"
    and "cd_b64decode c (cd_b64encode c (cd_pbkdf2 c (password @ pepper) salt iterations))
      = Some (cd_pbkdf2 c (password @ pepper) salt iterations)"
  shows "length password \<ge> 15 \<and> verify_password c password encoded pepper
    \<and> (verify_password c other encoded pepper \<longleftrightarrow>
         cd_pbkdf2 c (other @ pepper) salt iterations = cd_pbkdf2 c (password @ pepper) salt iterations)"
proof -
  have h: "length password \<ge> 15" "iterations > 0"
    "encoded = PASSWORD_SCHEME @ ''$'' @ show_nat iterations @ ''$'' @ cd_b64encode c salt @ ''$''
      @ cd_b64encode c (cd_pbkdf2 c (password @ pepper) salt iterations)"
    using assms(1) by (auto simp: hash_password_def Let_def split: if_splits)
  show ?thesis
    unfolding h(3) using verify_password_format [OF assms(3) h(2)] assms(2,4) h(1) by simp
qed

theorem password_roundtrip_witness:
  "verify_password (sample_codec []) ''correct horse battery''
     (PASSWORD_SCHEME @ ''$'' @ show_nat 600000 @ ''$salt$correct horse batterysalt'') []"
  using password_roundtrip [of "sample_codec []" "''salt''" "''correct horse battery''" "[]" 600000]
  by (simp add: hash_password_def sample_codec_def)

end
