(* ===== verification/File_Documents.thy ===== *)
theory File_Documents
  imports Files_Text Issue_Detector Ingestion_State Auth
begin

text \<open>
  The documents of the files service as \<open>backend/files/app/db\<close> stores them, the
  messages it publishes, the ownership stamp put on every document, the tenant and
  owner predicate added to every query, and the four operations on a collection.
  A MongoDB collection is its documented behaviour on a list of documents in
  natural order: \<open>update_one\<close> changes the first match, an insert that violates a
  unique index (those of the \<open>_ensure_*_indexes\<close> methods) fails.  Free text of
  audit events and time zone of timestamps are left out.
\<close>

section \<open>Documents\<close>

record owned =
  tenant_id :: "string option"
  owner_user_id :: "string option"
  owner_admin_id :: "string option"

record enriched_finding = finding +
  problematic_text :: string

record graph_state =
  gs_file_id :: string
  gs_document_id :: string
  gs_task_id :: string
  gs_graph_run_id :: string
  gs_gridfs_file_id :: "string option"
  gs_filename :: string
  extracted_text :: "string option"
  extracted_text_hash :: "string option"
  sanitized_text :: "string option"
  gs_sanitized_text_version :: int
  issue_findings :: "enriched_finding list"
  review_required :: bool
  gs_review_case_id :: "string option"
  review_decision :: "string option"
  redaction_patch_map :: "patch list"
  chunk_ids :: "string list"
  embedding_job_ids :: "string list"
  cleanup_required :: bool
  gs_request_id :: "string option"
  gs_trace_id :: "string option"
  gs_correlation_id :: "string option"
  gs_source_service :: "string option"
  gs_reply_to :: "string option"
  gs_stream_to :: "string option"
  gs_error :: "string option"

record file_doc = owned +
  file_id :: string
  document_id :: "string option"
  filename :: string
  f_path :: path
  gridfs_file_id :: "string option"
  summary :: string
  f_status :: string
  review_status :: string
  current_task_id :: "string option"
  latest_review_case_id :: "string option"
  sanitized_text_version :: int
  accepted_risk_categories :: "string list"
  stage :: "(string, string) dict"
  f_keywords :: "string list"
  suggested_questions :: "string list"
  content_type :: string
  f_size :: int
  f_created_at :: real
  f_updated_at :: real

record task_doc = owned +
  task_id :: string
  t_file_id :: string
  t_document_id :: string
  graph_run_id :: string
  task_type :: string
  t_status :: string
  current_node :: string
  t_attempt :: nat
  checkpoint_id :: "string option"
  resume_token_hash :: "string option"
  resume_token_expires_at :: "real option"
  graph_state_of :: graph_state
  t_created_at :: real
  t_updated_at :: real
  completed_at :: "real option"

record actor =
  actor_id :: "string option"
  actor_type :: "string option"
  display_name :: "string option"

record graph_interrupt =
  gi_graph_run_id :: string
  gi_checkpoint_id :: string
  gi_resume_token_hash :: "string option"
  gi_resume_token_expires_at :: "real option"

record review_case = owned +
  review_case_id :: string
  rc_file_id :: string
  rc_document_id :: string
  rc_task_id :: string
  rc_status :: string
  decision_status :: string
  highest_severity_score :: real
  rc_text_hash :: "string option"
  rc_problem_description :: string
  rc_problematic_text :: string
  rc_why_problematic :: string
  issue_categories :: "enriched_finding list"
  allowed_actions :: "string list"
  rc_patch_map :: "patch list"
  rc_interrupt :: graph_interrupt
  opened_at :: real
  resolved_at :: "real option"
  resolved_by :: actor
  resolution_claim_id :: "string option"
  resolution_claimed_at :: "real option"

record review_decision_doc = owned +
  decision_id :: string
  rd_review_case_id :: string
  rd_file_id :: string
  rd_document_id :: string
  rd_task_id :: string
  rd_decision :: string
  rd_comment :: string
  rd_text_hash :: string
  submitted_by :: actor
  submitted_patch_map :: "patch list"
  rd_created_at :: real

record chunk_doc = owned +
  chunk_id :: string
  c_file_id :: string
  c_document_id :: string
  c_task_id :: string
  chunk_index :: nat
  chunk_version :: nat
  c_text :: string
  text_preview :: string
  text_source :: string
  char_start :: int
  char_end :: int
  source_name :: string
  c_review_status :: string
  retrieval_allowed :: bool
  issue_flags :: "string list"
  redaction_applied :: bool
  c_created_at :: real
  c_updated_at :: real

record audit_event = owned +
  event_id :: string
  ev_file_id :: string
  ev_document_id :: string
  ev_task_id :: string
  ev_review_case_id :: "string option"
  ev_decision_id :: "string option"
  event_type :: string
  from_status :: "string option"
  to_status :: "string option"
  ev_actor :: actor
  ev_created_at :: real

record database =
  files :: "file_doc list"
  tasks :: "task_doc list"
  review_cases :: "review_case list"
  review_decisions :: "review_decision_doc list"
  chunks :: "chunk_doc list"
  audit_events :: "audit_event list"

section \<open>Messages\<close>

record chunk_event =
  ce_file_id :: string
  ce_document_id :: string
  ce_chunk_id :: string
  ce_chunk_index :: nat
  ce_chunk_version :: nat
  ce_text :: string
  ce_text_preview :: string
  ce_source_name :: string
  ce_review_status :: string
  ce_retrieval_allowed :: bool
  ce_issue_flags :: "string list"
  ce_created_at :: real
  ce_text_source :: string
  ce_char_start :: int
  ce_char_end :: int
  ce_redaction_applied :: bool
  ce_updated_at :: real
  ce_tenant_id :: "string option"
  ce_owner_user_id :: "string option"
  ce_owner_admin_id :: "string option"

text \<open>
  The payloads the workflow publishes: event id, file, document and task, then what
  is particular to the event.
\<close>

datatype payload =
    ReviewRequired string string string string string "string list" real "string list" real
  | ChunkingCompleted string string string string nat string "string option" real
  | EmbeddingJob string string string real "chunk_event list"
  | VectorDeleteRequested string string string string string real

record envelope =
  en_message_id :: string
  en_message_type :: string
  en_action :: string
  en_source_service :: string
  en_target_service :: string
  en_request_id :: string
  en_trace_id :: string
  en_correlation_id :: string
  en_timestamp :: real
  en_payload :: payload
  en_auth_context :: "string option"

record outbound_message =
  ob_topic :: string
  ob_message :: envelope

section \<open>Scoping\<close>

datatype files_error =
    DatabaseException string | NotFoundException string | ValidationException string | PyError py_exn

definition legacy_identity :: auth_identity where
  "legacy_identity = \<lparr>id_tenant = ''legacy'', id_user = ''legacy-user'', id_role = ROLE_SERVICE,
     id_email = None, id_admin = Some ''legacy-user'', id_session = None\<rparr>"

definition repo_identity :: "codec \<Rightarrow> bool \<Rightarrow> claims \<Rightarrow> auth_error + auth_identity" where
  "repo_identity c required context =
     bindE (identity_from_context c required context) (\<lambda>i.
       Inr (case i of Some identity \<Rightarrow> identity | None \<Rightarrow> legacy_identity))"

definition admin_or_user :: "auth_identity \<Rightarrow> string" where
  "admin_or_user i = (case id_admin i of Some a \<Rightarrow> if a = [] then id_user i else a | None \<Rightarrow> id_user i)"

definition present :: "string option \<Rightarrow> bool" where
  "present v = (case v of Some s \<Rightarrow> s \<noteq> [] | None \<Rightarrow> False)"

definition scope_document :: "auth_identity \<Rightarrow> 'a owned_scheme \<Rightarrow> files_error + 'a owned_scheme" where
  "scope_document i doc =
     (if tenant_id doc \<notin> {None, Some (id_tenant i)}
      then Inl (DatabaseException ''Cross-tenant document write denied'')
      else
        (let scoped = doc\<lparr>tenant_id := Some (id_tenant i)\<rparr> in
         if id_role i = ROLE_USER then
           Inr (scoped\<lparr>owner_user_id := Some (id_user i), owner_admin_id := Some (admin_or_user i)\<rparr>)
         else if id_role i = ROLE_ADMIN then
           (if owner_admin_id scoped \<notin> {None, Some (id_user i)}
            then Inl (DatabaseException ''Document is outside the administrator scope'')
            else Inr (scoped\<lparr>owner_admin_id := Some (id_user i),
                   owner_user_id := (case owner_user_id scoped of
                     Some u \<Rightarrow> Some u | None \<Rightarrow> Some (id_user i))\<rparr>))
         else if \<not> present (owner_user_id scoped) \<or> \<not> present (owner_admin_id scoped)
         then Inl (DatabaseException ''Service document writes require explicit ownership'')
         else Inr scoped))"

definition in_scope :: "auth_identity \<Rightarrow> bool \<Rightarrow> 'a owned_scheme \<Rightarrow> bool" where
  "in_scope i owner_scope doc =
     (tenant_id doc = Some (id_tenant i)
      \<and> (owner_scope \<and> id_role i = ROLE_USER \<longrightarrow> owner_user_id doc = Some (id_user i))
      \<and> (owner_scope \<and> id_role i = ROLE_ADMIN \<longrightarrow> owner_admin_id doc = Some (id_user i)))"

section \<open>Collections\<close>

text \<open>
  \<open>insert_one\<close> with a unique index on tenant and key, \<open>find_one\<close>, \<open>update_one\<close> and
  \<open>delete_many\<close>, each restricted to the scope of the identity.
\<close>

definition coll_insert ::
  "('a owned_scheme \<Rightarrow> 'k) \<Rightarrow> auth_identity \<Rightarrow> string \<Rightarrow> 'a owned_scheme \<Rightarrow> 'a owned_scheme list
     \<Rightarrow> files_error + 'a owned_scheme list" where
  "coll_insert key i what doc docs =
     (case scope_document i doc of
        Inl _ \<Rightarrow> Inl (DatabaseException what)
      | Inr scoped \<Rightarrow>
          if list_ex (\<lambda>d. tenant_id d = tenant_id scoped \<and> key d = key scoped) docs
          then Inl (DatabaseException what) else Inr (docs @ [scoped]))"

definition coll_find ::
  "auth_identity \<Rightarrow> ('a owned_scheme \<Rightarrow> bool) \<Rightarrow> 'a owned_scheme list \<Rightarrow> 'a owned_scheme option" where
  "coll_find i q docs = find (\<lambda>d. in_scope i True d \<and> q d) docs"

fun coll_update ::
  "auth_identity \<Rightarrow> ('a owned_scheme \<Rightarrow> bool) \<Rightarrow> ('a owned_scheme \<Rightarrow> 'a owned_scheme)
     \<Rightarrow> 'a owned_scheme list \<Rightarrow> bool \<times> 'a owned_scheme list" where
  "coll_update i q f [] = (False, [])"
| "coll_update i q f (d # ds) =
     (if in_scope i True d \<and> q d then (True, f d # ds)
      else (case coll_update i q f ds of (m, ds') \<Rightarrow> (m, d # ds')))"

definition coll_delete ::
  "auth_identity \<Rightarrow> ('a owned_scheme \<Rightarrow> bool) \<Rightarrow> 'a owned_scheme list \<Rightarrow> nat \<times> 'a owned_scheme list" where
  "coll_delete i q docs =
     (length (filter (\<lambda>d. in_scope i True d \<and> q d) docs),
      filter (\<lambda>d. \<not> (in_scope i True d \<and> q d)) docs)"

text \<open>For \<open>insert_many\<close> all documents are scoped first, then inserted in order.\<close>

fun scope_all :: "auth_identity \<Rightarrow> 'a owned_scheme list \<Rightarrow> files_error + 'a owned_scheme list" where
  "scope_all i [] = Inr []"
| "scope_all i (d # ds) = bindE (scope_document i d) (\<lambda>d'. bindE (scope_all i ds) (\<lambda>ds'. Inr (d' # ds')))"

fun insert_many :: "('a owned_scheme \<Rightarrow> 'k) \<Rightarrow> 'a owned_scheme list \<Rightarrow> 'a owned_scheme list
     \<Rightarrow> bool \<times> 'a owned_scheme list" where
  "insert_many key [] docs = (True, docs)"
| "insert_many key (d # ds) docs =
     (if list_ex (\<lambda>x. tenant_id x = tenant_id d \<and> key x = key d) docs then (False, docs)
      else insert_many key ds (docs @ [d]))"

section \<open>What the collection operations leave alone\<close>

lemma scope_document_in_scope:
  "scope_document i d = Inr d' \<Longrightarrow> in_scope i True d'"
  by (auto simp: scope_document_def in_scope_def Let_def ROLE_USER_def ROLE_ADMIN_def split: if_splits)

abbreviation out_of_scope :: "auth_identity \<Rightarrow> 'a owned_scheme list \<Rightarrow> 'a owned_scheme list" where
  "out_of_scope i docs \<equiv> filter (\<lambda>d. \<not> in_scope i True d) docs"

definition keeps_owner :: "('a owned_scheme \<Rightarrow> 'a owned_scheme) \<Rightarrow> bool" where
  "keeps_owner f = (\<forall>d. tenant_id (f d) = tenant_id d \<and> owner_user_id (f d) = owner_user_id d
     \<and> owner_admin_id (f d) = owner_admin_id d)"

lemma coll_insert_outside:
  "coll_insert key i what doc docs = Inr docs' \<Longrightarrow> out_of_scope i docs' = out_of_scope i docs"
  by (auto simp: coll_insert_def dest: scope_document_in_scope split: sum.splits if_splits)

lemma coll_update_outside:
  assumes "keeps_owner f"
  shows "out_of_scope i (snd (coll_update i q f docs)) = out_of_scope i docs"
proof (induction docs)
  case (Cons d ds)
  have "in_scope i True (f d) = in_scope i True d"
    using assms by (simp add: in_scope_def keeps_owner_def)
  with Cons show ?case by (auto split: prod.split)
qed simp

lemma coll_delete_outside: "out_of_scope i (snd (coll_delete i q docs)) = out_of_scope i docs"
  by (induction docs) (auto simp: coll_delete_def)

lemma scope_all_in_scope: "scope_all i ds = Inr ds' \<Longrightarrow> list_all (in_scope i True) ds'"
proof (induction ds arbitrary: ds')
  case (Cons d ds)
  then show ?case by (auto simp: bindE_Inr dest: scope_document_in_scope)
qed simp

lemma insert_many_outside:
  "list_all (in_scope i True) ds \<Longrightarrow> out_of_scope i (snd (insert_many key ds docs)) = out_of_scope i docs"
  by (induction ds arbitrary: docs) auto

lemma coll_find_Some:
  "coll_find i q docs = Some d \<Longrightarrow> d \<in> set docs \<and> in_scope i True d \<and> q d"
  by (auto simp: coll_find_def find_Some_iff)

lemma coll_update_matched: "fst (coll_update i q f docs) \<longleftrightarrow> list_ex (\<lambda>d. in_scope i True d \<and> q d) docs"
  by (induction docs) (auto split: prod.split)

end
