(* ===== verification/File_Repository.thy ===== *)
theory File_Repository
  imports File_Documents
begin

text \<open>
  The operations of the files repository, \<open>backend/files/app/db\<close>, in a state and
  exception monad over the \<open>world\<close>: the database, the counters of the generators
  of ids, tokens and clock readings, the files removed and the stage metrics.  An
  exception keeps the world as it was when it was raised; \<open>transaction\<close> restores
  the database when the server supports transactions.  The locale \<open>db_view\<close>
  carries frame properties: which actions keep a view of the database.
\<close>

section \<open>The world and its monad\<close>

record world =
  db :: database
  uuids_used :: nat
  ticks :: nat
  tokens_used :: nat
  removed :: "path list"
  stage_metrics :: "(string \<times> string) list"

type_synonym 'a action = "world \<Rightarrow> (files_error + 'a) \<times> world"

definition returnM :: "'a \<Rightarrow> 'a action" where
  "returnM x w = (Inr x, w)"

definition raiseM :: "files_error \<Rightarrow> 'a action" where
  "raiseM e w = (Inl e, w)"

definition bindM :: "'a action \<Rightarrow> ('a \<Rightarrow> 'b action) \<Rightarrow> 'b action" where
  "bindM m f w = (case m w of (Inl e, w') \<Rightarrow> (Inl e, w') | (Inr x, w') \<Rightarrow> f x w')"

definition thenM :: "'a action \<Rightarrow> 'b action \<Rightarrow> 'b action" where
  "thenM m k = bindM m (\<lambda>_. k)"

definition liftM :: "files_error + 'a \<Rightarrow> 'a action" where
  "liftM r w = (r, w)"

text \<open>
  The environment: generators, hash, file system, identity of the caller, and the
  \<open>auth_context\<close> that \<open>attach_internal_auth_context\<close> puts on an outbound envelope, its
  only change to it.
\<close>

record env =
  e_identity :: auth_identity
  e_uuid :: "nat \<Rightarrow> string"
  e_clock :: "nat \<Rightarrow> real"
  e_token :: "nat \<Rightarrow> string"
  e_hash :: "string \<Rightarrow> string"
  e_resolve :: "path \<Rightarrow> path"
  e_exists :: "path \<Rightarrow> bool"
  e_remove_ok :: "path \<Rightarrow> bool"
  e_transactions :: bool
  e_is_fffd :: "char \<Rightarrow> bool"
  e_attach :: "envelope \<Rightarrow> files_error + string option"

definition generate_id :: "env \<Rightarrow> string action" where
  "generate_id e w = (Inr (e_uuid e (uuids_used w)), w\<lparr>uuids_used := uuids_used w + 1\<rparr>)"

definition utcnow :: "env \<Rightarrow> real action" where
  "utcnow e w = (Inr (e_clock e (ticks w)), w\<lparr>ticks := ticks w + 1\<rparr>)"

record resume_token =
  rt_token :: string
  rt_token_hash :: string
  rt_expires_at :: real

definition make_resume_token :: "env \<Rightarrow> int \<Rightarrow> resume_token action" where
  "make_resume_token e ttl_seconds w =
     (let token = e_token e (tokens_used w);
          w = w\<lparr>tokens_used := tokens_used w + 1\<rparr>
      in bindM (utcnow e) (\<lambda>now. returnM \<lparr>rt_token = token, rt_token_hash = e_hash e token,
           rt_expires_at = now + of_int ttl_seconds\<rparr>) w)"

definition get_db :: "database action" where
  "get_db w = (Inr (db w), w)"

definition put_db :: "(database \<Rightarrow> database) \<Rightarrow> unit action" where
  "put_db f w = (Inr (), w\<lparr>db := f (db w)\<rparr>)"

definition count_stage :: "string \<Rightarrow> string \<Rightarrow> unit action" where
  "count_stage st outcome w = (Inr (), w\<lparr>stage_metrics := stage_metrics w @ [(st, outcome)]\<rparr>)"

text \<open>
  \<open>transaction\<close>: with a server that supports transactions an exception restores the
  database; on a standalone server the body runs without one.
\<close>

definition transaction :: "env \<Rightarrow> 'a action \<Rightarrow> 'a action" where
  "transaction e body w =
     (case body w of
        (Inr x, w') \<Rightarrow> (Inr x, w')
      | (Inl err, w') \<Rightarrow> (Inl err, if e_transactions e then w'\<lparr>db := db w\<rparr> else w'))"

section \<open>Repository operations\<close>

definition repo_create_file :: "env \<Rightarrow> file_doc \<Rightarrow> bool action" where
  "repo_create_file e doc = bindM get_db (\<lambda>d.
     case coll_insert file_id (e_identity e) ''Failed to create file'' doc (files d) of
       Inl err \<Rightarrow> raiseM err
     | Inr docs \<Rightarrow> thenM (put_db (\<lambda>d. d\<lparr>files := docs\<rparr>)) (returnM True))"

definition get_raw_by_id :: "env \<Rightarrow> string \<Rightarrow> file_doc option action" where
  "get_raw_by_id e fid = bindM get_db (\<lambda>d.
     returnM (coll_find (e_identity e) (\<lambda>f. file_id f = fid) (files d)))"

definition update_file :: "env \<Rightarrow> string \<Rightarrow> (file_doc \<Rightarrow> file_doc) \<Rightarrow> bool action" where
  "update_file e fid updates = bindM (utcnow e) (\<lambda>now. bindM get_db (\<lambda>d.
     case coll_update (e_identity e) (\<lambda>f. file_id f = fid) (\<lambda>f. updates (f\<lparr>f_updated_at := now\<rparr>)) (files d) of
       (matched, docs) \<Rightarrow> thenM (put_db (\<lambda>d. d\<lparr>files := docs\<rparr>)) (returnM matched)))"

definition create_task :: "env \<Rightarrow> task_doc \<Rightarrow> bool action" where
  "create_task e doc = bindM get_db (\<lambda>d.
     case coll_insert task_id (e_identity e) ''Failed to create file task'' doc (tasks d) of
       Inl err \<Rightarrow> raiseM err
     | Inr docs \<Rightarrow> thenM (put_db (\<lambda>d. d\<lparr>tasks := docs\<rparr>)) (returnM True))"

definition get_raw_task_by_id :: "env \<Rightarrow> string \<Rightarrow> task_doc option action" where
  "get_raw_task_by_id e tid = bindM get_db (\<lambda>d.
     returnM (coll_find (e_identity e) (\<lambda>t. task_id t = tid) (tasks d)))"

definition update_task :: "env \<Rightarrow> string \<Rightarrow> (task_doc \<Rightarrow> task_doc) \<Rightarrow> bool action" where
  "update_task e tid updates = bindM (utcnow e) (\<lambda>now. bindM get_db (\<lambda>d.
     case coll_update (e_identity e) (\<lambda>t. task_id t = tid) (\<lambda>t. updates (t\<lparr>t_updated_at := now\<rparr>)) (tasks d) of
       (matched, docs) \<Rightarrow> thenM (put_db (\<lambda>d. d\<lparr>tasks := docs\<rparr>)) (returnM matched)))"

text \<open>At most one open case per tenant and file, by the partial unique index.\<close>

definition open_case_clash :: "auth_identity \<Rightarrow> review_case \<Rightarrow> review_case list \<Rightarrow> bool" where
  "open_case_clash i doc docs =
     (rc_status doc = ''open'' \<and> list_ex (\<lambda>c. tenant_id c = Some (id_tenant i)
        \<and> rc_file_id c = rc_file_id doc \<and> rc_status c = ''open'') docs)"

definition create_review_case :: "env \<Rightarrow> review_case \<Rightarrow> bool action" where
  "create_review_case e doc = bindM get_db (\<lambda>d.
     if open_case_clash (e_identity e) doc (review_cases d)
     then raiseM (DatabaseException ''Failed to create review case'')
     else case coll_insert review_case_id (e_identity e) ''Failed to create review case'' doc (review_cases d) of
       Inl err \<Rightarrow> raiseM err
     | Inr docs \<Rightarrow> thenM (put_db (\<lambda>d. d\<lparr>review_cases := docs\<rparr>)) (returnM True))"

definition get_raw_review_case_by_id :: "env \<Rightarrow> string \<Rightarrow> review_case option action" where
  "get_raw_review_case_by_id e rid = bindM get_db (\<lambda>d.
     returnM (coll_find (e_identity e) (\<lambda>c. review_case_id c = rid) (review_cases d)))"

definition update_review_case :: "env \<Rightarrow> string \<Rightarrow> (review_case \<Rightarrow> review_case) \<Rightarrow> bool action" where
  "update_review_case e rid updates = bindM get_db (\<lambda>d.
     case coll_update (e_identity e) (\<lambda>c. review_case_id c = rid) updates (review_cases d) of
       (matched, docs) \<Rightarrow> thenM (put_db (\<lambda>d. d\<lparr>review_cases := docs\<rparr>)) (returnM matched))"

text \<open>The query of \<open>claim_review_case\<close> and the fields it sets.\<close>

definition claimable :: "string \<Rightarrow> string \<Rightarrow> string \<Rightarrow> review_case \<Rightarrow> bool" where
  "claimable rid text_hash token_hash c =
     (review_case_id c = rid \<and> rc_status c = ''open'' \<and> decision_status c = ''pending''
      \<and> rc_text_hash c = Some text_hash \<and> gi_resume_token_hash (rc_interrupt c) = Some token_hash)"

definition claim_review_case ::
  "env \<Rightarrow> string \<Rightarrow> string \<Rightarrow> string \<Rightarrow> string \<Rightarrow> real \<Rightarrow> bool action" where
  "claim_review_case e rid text_hash token_hash claim_id claimed_at = bindM get_db (\<lambda>d.
     case coll_update (e_identity e) (claimable rid text_hash token_hash)
       (\<lambda>c. c\<lparr>rc_status := ''resolving'', decision_status := ''resolving'',
             resolution_claim_id := Some claim_id, resolution_claimed_at := Some claimed_at\<rparr>)
       (review_cases d) of
       (matched, docs) \<Rightarrow> thenM (put_db (\<lambda>d. d\<lparr>review_cases := docs\<rparr>)) (returnM matched))"

definition create_review_decision :: "env \<Rightarrow> review_decision_doc \<Rightarrow> bool action" where
  "create_review_decision e doc = bindM get_db (\<lambda>d.
     case coll_insert rd_review_case_id (e_identity e) ''Failed to create review decision'' doc
         (review_decisions d) of
       Inl err \<Rightarrow> raiseM err
     | Inr docs \<Rightarrow> thenM (put_db (\<lambda>d. d\<lparr>review_decisions := docs\<rparr>)) (returnM True))"

definition create_chunks :: "env \<Rightarrow> chunk_doc list \<Rightarrow> nat action" where
  "create_chunks e chunk_docs =
     bindM (liftM (scope_all (e_identity e) chunk_docs)) (\<lambda>docs.
       if docs = [] then returnM 0
       else bindM get_db (\<lambda>d.
         case insert_many chunk_id docs (chunks d) of (ok, all) \<Rightarrow>
           thenM (put_db (\<lambda>d. d\<lparr>chunks := all\<rparr>))
             (if ok then returnM (length docs)
              else raiseM (DatabaseException ''Failed to create chunks''))))"

definition delete_chunks_for_file :: "env \<Rightarrow> string \<Rightarrow> nat action" where
  "delete_chunks_for_file e fid = bindM get_db (\<lambda>d.
     case coll_delete (e_identity e) (\<lambda>c. c_file_id c = fid) (chunks d) of (n, docs) \<Rightarrow>
       thenM (put_db (\<lambda>d. d\<lparr>chunks := docs\<rparr>)) (returnM n))"

definition get_next_chunk_version :: "env \<Rightarrow> string \<Rightarrow> nat action" where
  "get_next_chunk_version e did = bindM get_db (\<lambda>d.
     case filter (\<lambda>c. in_scope (e_identity e) True c \<and> c_document_id c = did) (chunks d) of
       [] \<Rightarrow> returnM 1
     | c # cs \<Rightarrow> returnM (Max (chunk_version ` set (c # cs)) + 1))"

definition insert_audit_event :: "env \<Rightarrow> audit_event \<Rightarrow> bool action" where
  "insert_audit_event e doc = bindM get_db (\<lambda>d.
     case coll_insert event_id (e_identity e) ''Failed to insert audit event'' doc (audit_events d) of
       Inl err \<Rightarrow> raiseM err
     | Inr docs \<Rightarrow> thenM (put_db (\<lambda>d. d\<lparr>audit_events := docs\<rparr>)) (returnM True))"

definition or_else :: "string option \<Rightarrow> string option \<Rightarrow> string option" where
  "or_else a b = (if present a then a else b)"

definition resolve_id :: "env \<Rightarrow> string option \<Rightarrow> string action" where
  "resolve_id e v = (if present v then returnM (the v) else generate_id e)"

text \<open>\<open>build_message_envelope\<close> for the events and commands of the workflow (no reply fields).\<close>

definition build_message_envelope ::
  "env \<Rightarrow> string \<Rightarrow> string \<Rightarrow> string \<Rightarrow> string \<Rightarrow> string option \<Rightarrow> string option \<Rightarrow> string option
     \<Rightarrow> payload \<Rightarrow> envelope action" where
  "build_message_envelope e message_type act source_service target_service request_id trace_id
       correlation_id pl =
     bindM (resolve_id e (or_else request_id correlation_id)) (\<lambda>rid.
     bindM (generate_id e) (\<lambda>mid.
     bindM (utcnow e) (\<lambda>now.
     let message = \<lparr>en_message_id = mid, en_message_type = message_type, en_action = act,
        en_source_service = source_service, en_target_service = target_service,
        en_request_id = rid,
        en_trace_id = (if present trace_id then the trace_id else rid),
        en_correlation_id = (if present correlation_id then the correlation_id else rid),
        en_timestamp = now, en_payload = pl, en_auth_context = None\<rparr> in
     bindM (liftM (e_attach e message)) (\<lambda>ticket. returnM (message\<lparr>en_auth_context := ticket\<rparr>)))))"

section \<open>Frames\<close>

lemmas action_defs [step_defs] =
  returnM_def raiseM_def bindM_def thenM_def liftM_def get_db_def put_db_def

text \<open>
  A view of the world that only depends on the database, and the actions that keep
  it.  Every operation below is shown to keep the views it should not change; the
  workflow keeps a view because the operations it is composed of do.
\<close>

locale db_view =
  fixes view :: "world \<Rightarrow> 'v"
  assumes view_db: "db w = db w' \<Longrightarrow> view w = view w'"
begin

definition keeps :: "'a action \<Rightarrow> bool" where
  "keeps m \<longleftrightarrow> (\<forall>w. view (snd (m w)) = view w)"

lemma keeps_return [intro!]: "keeps (returnM x)"
  by (simp add: keeps_def returnM_def)

lemma keeps_raise [intro!]: "keeps (raiseM e)"
  by (simp add: keeps_def raiseM_def)

lemma keeps_lift [intro!]: "keeps (liftM r)"
  by (simp add: keeps_def liftM_def)

lemma keeps_get_db [intro!]: "keeps get_db"
  by (simp add: keeps_def get_db_def)

lemma keeps_bind [intro!]: "keeps m \<Longrightarrow> (\<And>x. keeps (f x)) \<Longrightarrow> keeps (bindM m f)"
proof -
  assume m: "keeps m" and f: "\<And>x. keeps (f x)"
  have "view (snd (bindM m f w)) = view w" for w
  proof (cases "m w")
    case (Pair r w')
    then have "view w' = view w" using m by (metis keeps_def snd_conv)
    then show ?thesis using Pair f by (cases r) (simp_all add: bindM_def keeps_def)
  qed
  then show ?thesis by (simp add: keeps_def)
qed

lemma keeps_then [intro!]: "keeps m \<Longrightarrow> keeps k \<Longrightarrow> keeps (thenM m k)"
  by (simp add: thenM_def keeps_bind)

lemma keeps_if [intro!]: "keeps a \<Longrightarrow> keeps b \<Longrightarrow> keeps (if c then a else b)"
  by simp

lemma keeps_option [intro!]:
  "keeps a \<Longrightarrow> (\<And>x. keeps (b x)) \<Longrightarrow> keeps (case v of None \<Rightarrow> a | Some x \<Rightarrow> b x)"
  by (cases v) simp_all

lemma keeps_sum [intro!]:
  "(\<And>x. keeps (a x)) \<Longrightarrow> (\<And>x. keeps (b x)) \<Longrightarrow> keeps (case v of Inl x \<Rightarrow> a x | Inr x \<Rightarrow> b x)"
  by (cases v) simp_all

lemma keeps_generate_id [intro!]: "keeps (generate_id e)"
  unfolding keeps_def generate_id_def by (auto intro: view_db)

lemma keeps_utcnow [intro!]: "keeps (utcnow e)"
  unfolding keeps_def utcnow_def by (auto intro: view_db)

lemma keeps_count_stage [intro!]: "keeps (count_stage st out)"
  unfolding keeps_def count_stage_def by (auto intro: view_db)

lemma keeps_make_resume_token [intro!]: "keeps (make_resume_token e ttl)"
  unfolding keeps_def make_resume_token_def by (auto simp: Let_def step_defs utcnow_def intro: view_db)

lemma keeps_put_db: "(\<And>w. view (w\<lparr>db := f (db w)\<rparr>) = view w) \<Longrightarrow> keeps (put_db f)"
  by (simp add: keeps_def put_db_def)

lemma keeps_transaction [intro!]: "keeps m \<Longrightarrow> keeps (transaction e m)"
proof -
  assume m: "keeps m"
  have "view (snd (transaction e m w)) = view w" for w
  proof (cases "m w")
    case (Pair r w')
    then have "view w' = view w" using m by (metis keeps_def snd_conv)
    moreover have "view (w'\<lparr>db := db w\<rparr>) = view w" by (rule view_db) simp
    ultimately show ?thesis using Pair by (simp add: transaction_def split: sum.split)
  qed
  then show ?thesis by (simp add: keeps_def)
qed

lemma keeps_resolve_id [intro!]: "keeps (resolve_id e v)"
  by (auto simp: resolve_id_def)

lemma keeps_envelope [intro!]: "keeps (build_message_envelope e a b c d f g h pl)"
  by (auto simp: build_message_envelope_def Let_def)

end

section \<open>Views of the database\<close>

text \<open>
  What lies outside the scope of an identity, one collection, and the chunks in
  the scope of an identity.
\<close>

definition outside :: "auth_identity \<Rightarrow> database \<Rightarrow> database" where
  "outside i d = \<lparr>files = out_of_scope i (files d), tasks = out_of_scope i (tasks d),
     review_cases = out_of_scope i (review_cases d), review_decisions = out_of_scope i (review_decisions d),
     chunks = out_of_scope i (chunks d), audit_events = out_of_scope i (audit_events d)\<rparr>"

interpretation out: db_view "\<lambda>w. outside i (db w)" for i
  by unfold_locales simp

interpretation cases: db_view "\<lambda>w. review_cases (db w)"
  by unfold_locales simp

interpretation chunkv: db_view "\<lambda>w. chunks (db w)"
  by unfold_locales simp

interpretation filev: db_view "\<lambda>w. files (db w)"
  by unfold_locales simp

interpretation taskv: db_view "\<lambda>w. tasks (db w)"
  by unfold_locales simp

lemma run_bind: "bindM m f w = (Inr y, w'') \<longleftrightarrow> (\<exists>x w'. m w = (Inr x, w') \<and> f x w' = (Inr y, w''))"
  by (auto simp: bindM_def split: prod.splits sum.splits)

lemma run_then: "thenM m k w = (Inr y, w'') \<longleftrightarrow> (\<exists>x w'. m w = (Inr x, w') \<and> k w' = (Inr y, w''))"
  by (simp add: thenM_def run_bind)

lemma run_return: "returnM x w = (Inr y, w') \<longleftrightarrow> y = x \<and> w' = w"
  by (auto simp: returnM_def)

lemma run_raise: "raiseM err w \<noteq> (Inr y, w')"
  by (simp add: raiseM_def)

lemma run_lift: "liftM r w = (Inr y, w') \<longleftrightarrow> r = Inr y \<and> w' = w"
  by (auto simp: liftM_def)

lemma run_get_db: "get_db w = (Inr y, w') \<longleftrightarrow> y = db w \<and> w' = w"
  by (auto simp: get_db_def)

lemma run_put_db: "put_db f w = (Inr y, w') \<longleftrightarrow> w' = w\<lparr>db := f (db w)\<rparr>"
  by (auto simp: put_db_def)

lemma run_transaction: "transaction e m w = (Inr y, w') \<longleftrightarrow> m w = (Inr y, w')"
  by (auto simp: transaction_def split: prod.splits sum.splits)

lemmas run_rules = run_bind run_then run_return run_raise run_lift run_get_db run_put_db run_transaction

section \<open>Effects of successful runs\<close>

text \<open>What a successful operation did to each collection, as destruction rules.\<close>

lemma quiet_run:
  "utcnow e w = (r, w') \<Longrightarrow> db w' = db w"
  "generate_id e w = (r', w') \<Longrightarrow> db w' = db w"
  "count_stage st out w = (r'', w') \<Longrightarrow> db w' = db w"
  "make_resume_token e ttl w = (r3, w') \<Longrightarrow> db w' = db w"
  by (auto simp: utcnow_def generate_id_def count_stage_def make_resume_token_def step_defs Let_def)

lemma resolve_id_run: "resolve_id e v w = (r, w') \<Longrightarrow> db w' = db w"
  by (auto simp: resolve_id_def step_defs dest: quiet_run split: if_splits)

lemma envelope_run:
  "build_message_envelope e a b c d f g h pl w = (Inr m, w') \<Longrightarrow> db w' = db w \<and> en_payload m = pl"
  by (auto simp: build_message_envelope_def run_bind run_lift run_return Let_def
      dest!: quiet_run resolve_id_run)

lemma update_file_run:
  "update_file e fid u w = (Inr b, w') \<Longrightarrow> \<exists>now. db w' = (db w)\<lparr>files := snd (coll_update (e_identity e)
     (\<lambda>f. file_id f = fid) (\<lambda>f. u (f\<lparr>f_updated_at := now\<rparr>)) (files (db w)))\<rparr>"
  by (auto simp: update_file_def utcnow_def step_defs case_prod_beta)

lemma update_task_run:
  "update_task e tid u w = (Inr b, w') \<Longrightarrow> \<exists>now. db w' = (db w)\<lparr>tasks := snd (coll_update (e_identity e)
     (\<lambda>t. task_id t = tid) (\<lambda>t. u (t\<lparr>t_updated_at := now\<rparr>)) (tasks (db w)))\<rparr>"
  by (auto simp: update_task_def utcnow_def step_defs case_prod_beta)

lemma update_case_run:
  "update_review_case e rid u w = (Inr b, w') \<Longrightarrow> db w' = (db w)\<lparr>review_cases := snd (coll_update
     (e_identity e) (\<lambda>c. review_case_id c = rid) u (review_cases (db w)))\<rparr>"
  by (auto simp: update_review_case_def step_defs case_prod_beta)

lemma claim_run:
  "claim_review_case e rid h k cid now w = (Inr b, w') \<Longrightarrow>
     b = list_ex (\<lambda>c. in_scope (e_identity e) True c \<and> claimable rid h k c) (review_cases (db w))
     \<and> db w' = (db w)\<lparr>review_cases := snd (coll_update (e_identity e) (claimable rid h k)
       (\<lambda>c. c\<lparr>rc_status := ''resolving'', decision_status := ''resolving'',
             resolution_claim_id := Some cid, resolution_claimed_at := Some now\<rparr>) (review_cases (db w)))\<rparr>"
  by (auto simp: claim_review_case_def step_defs case_prod_beta coll_update_matched)

lemma create_case_run:
  "create_review_case e c w = (Inr b, w') \<Longrightarrow> \<exists>c'. scope_document (e_identity e) c = Inr c'
     \<and> db w' = (db w)\<lparr>review_cases := review_cases (db w) @ [c']\<rparr>
     \<and> \<not> list_ex (\<lambda>d. tenant_id d = tenant_id c' \<and> review_case_id d = review_case_id c') (review_cases (db w))"
  by (auto simp: create_review_case_def coll_insert_def step_defs split: if_splits sum.splits)

lemma create_decision_run:
  "create_review_decision e c w = (Inr b, w') \<Longrightarrow> \<exists>c'. scope_document (e_identity e) c = Inr c'
     \<and> db w' = (db w)\<lparr>review_decisions := review_decisions (db w) @ [c']\<rparr>"
  by (auto simp: create_review_decision_def coll_insert_def step_defs split: if_splits sum.splits)

lemma insert_audit_run:
  "insert_audit_event e c w = (Inr b, w') \<Longrightarrow> \<exists>c'. scope_document (e_identity e) c = Inr c'
     \<and> db w' = (db w)\<lparr>audit_events := audit_events (db w) @ [c']\<rparr>"
  by (auto simp: insert_audit_event_def coll_insert_def step_defs split: if_splits sum.splits)

lemma insert_many_ok: "insert_many key ds docs = (True, docs') \<Longrightarrow> docs' = docs @ ds"
  by (induction ds arbitrary: docs) (fastforce split: if_splits)+

lemma create_chunks_run:
  "create_chunks e ds w = (Inr n, w') \<Longrightarrow> \<exists>ds'. scope_all (e_identity e) ds = Inr ds' \<and> n = length ds'
     \<and> db w' = (db w)\<lparr>chunks := chunks (db w) @ ds'\<rparr>"
  by (auto simp: create_chunks_def step_defs split: if_splits sum.splits prod.splits dest: insert_many_ok)

lemma delete_chunks_run:
  "delete_chunks_for_file e fid w = (Inr n, w') \<Longrightarrow> db w' = (db w)\<lparr>chunks :=
     filter (\<lambda>c. \<not> (in_scope (e_identity e) True c \<and> c_file_id c = fid)) (chunks (db w))\<rparr>"
  by (auto simp: delete_chunks_for_file_def coll_delete_def step_defs)

lemma reads_run:
  "get_raw_by_id e fid w = (Inr f, w') \<Longrightarrow> w' = w \<and> f = coll_find (e_identity e) (\<lambda>f. file_id f = fid) (files (db w))"
  "get_raw_task_by_id e tid w = (Inr t, w') \<Longrightarrow> w' = w \<and> t = coll_find (e_identity e) (\<lambda>t. task_id t = tid) (tasks (db w))"
  "get_raw_review_case_by_id e rid w = (Inr c, w') \<Longrightarrow> w' = w
     \<and> c = coll_find (e_identity e) (\<lambda>c. review_case_id c = rid) (review_cases (db w))"
  "get_next_chunk_version e did w = (Inr n, w') \<Longrightarrow> w' = w"
  by (auto simp: get_raw_by_id_def get_raw_task_by_id_def get_raw_review_case_by_id_def
      get_next_chunk_version_def step_defs split: list.splits)

section \<open>What the operations keep\<close>

lemmas repo_ops = repo_create_file_def get_raw_by_id_def update_file_def create_task_def
  get_raw_task_by_id_def update_task_def create_review_case_def get_raw_review_case_by_id_def
  update_review_case_def claim_review_case_def create_review_decision_def create_chunks_def
  delete_chunks_for_file_def get_next_chunk_version_def insert_audit_event_def

lemma outside_simps:
  "out_of_scope i ds = out_of_scope i (files d) \<Longrightarrow> outside i (d\<lparr>files := ds\<rparr>) = outside i d"
  "out_of_scope i ts = out_of_scope i (tasks d) \<Longrightarrow> outside i (d\<lparr>tasks := ts\<rparr>) = outside i d"
  "out_of_scope i cs = out_of_scope i (review_cases d) \<Longrightarrow> outside i (d\<lparr>review_cases := cs\<rparr>) = outside i d"
  "out_of_scope i rs = out_of_scope i (review_decisions d)
     \<Longrightarrow> outside i (d\<lparr>review_decisions := rs\<rparr>) = outside i d"
  "out_of_scope i ks = out_of_scope i (chunks d) \<Longrightarrow> outside i (d\<lparr>chunks := ks\<rparr>) = outside i d"
  "out_of_scope i es = out_of_scope i (audit_events d) \<Longrightarrow> outside i (d\<lparr>audit_events := es\<rparr>) = outside i d"
  by (simp_all add: outside_def)

lemma out_update_file [intro]:
  assumes "keeps_owner u"
  shows "out.keeps (e_identity e) (update_file e fid u)"
proof -
  have "keeps_owner (\<lambda>f. u (f\<lparr>f_updated_at := now\<rparr>))" for now
    using assms by (simp add: keeps_owner_def)
  then show ?thesis
    by (simp add: out.keeps_def update_file_def utcnow_def step_defs case_prod_beta outside_simps
        coll_update_outside)
qed

lemma out_update_task [intro]:
  assumes "keeps_owner u"
  shows "out.keeps (e_identity e) (update_task e tid u)"
proof -
  have "keeps_owner (\<lambda>t. u (t\<lparr>t_updated_at := now\<rparr>))" for now
    using assms by (simp add: keeps_owner_def)
  then show ?thesis
    by (simp add: out.keeps_def update_task_def utcnow_def step_defs case_prod_beta outside_simps
        coll_update_outside)
qed

lemma out_update_case [intro]:
  "keeps_owner u \<Longrightarrow> out.keeps (e_identity e) (update_review_case e rid u)"
  by (simp add: out.keeps_def update_review_case_def step_defs case_prod_beta outside_simps
      coll_update_outside)

lemma out_claim [intro]: "out.keeps (e_identity e) (claim_review_case e rid h k cid now)"
  by (simp add: out.keeps_def claim_review_case_def step_defs case_prod_beta outside_simps
      coll_update_outside keeps_owner_def)

lemma out_create [intro]:
  "out.keeps (e_identity e) (create_review_case e c)"
  "out.keeps (e_identity e) (create_review_decision e r)"
  "out.keeps (e_identity e) (insert_audit_event e a)"
  "out.keeps (e_identity e) (repo_create_file e f)"
  "out.keeps (e_identity e) (create_task e t)"
  by (simp_all add: out.keeps_def create_review_case_def create_review_decision_def
      insert_audit_event_def repo_create_file_def create_task_def step_defs outside_simps
      coll_insert_outside split: sum.split)

lemma out_chunks [intro]:
  "out.keeps (e_identity e) (create_chunks e ds)"
  "out.keeps (e_identity e) (delete_chunks_for_file e fid)"
  by (auto simp: out.keeps_def create_chunks_def delete_chunks_for_file_def step_defs case_prod_beta
      outside_simps coll_delete_outside insert_many_outside scope_all_in_scope split: sum.split)

lemma reads_keep [intro]:
  "out.keeps i (get_raw_by_id e fid)" "out.keeps i (get_raw_task_by_id e tid)"
  "out.keeps i (get_raw_review_case_by_id e rid)" "out.keeps i (get_next_chunk_version e did)"
  by (auto simp: out.keeps_def get_raw_by_id_def get_raw_task_by_id_def get_raw_review_case_by_id_def
      get_next_chunk_version_def step_defs split: list.split)

lemmas keeps_unfold = case_prod_beta step_defs utcnow_def repo_ops

lemma cases_keep [intro]:
  "cases.keeps (update_file e fid u)" "cases.keeps (update_task e tid v)"
  "cases.keeps (insert_audit_event e a)" "cases.keeps (create_review_decision e r)"
  "cases.keeps (create_chunks e ds)" "cases.keeps (delete_chunks_for_file e fid)"
  "cases.keeps (get_raw_by_id e fid)" "cases.keeps (get_raw_task_by_id e tid)"
  "cases.keeps (get_raw_review_case_by_id e rid)" "cases.keeps (get_next_chunk_version e did)"
  by (simp_all add: cases.keeps_def keeps_unfold split: sum.split list.split)

lemma chunkv_keep [intro]:
  "chunkv.keeps (update_file e fid u)" "chunkv.keeps (update_task e tid v)"
  "chunkv.keeps (insert_audit_event e a)" "chunkv.keeps (create_review_decision e r)"
  "chunkv.keeps (create_review_case e c)" "chunkv.keeps (update_review_case e rid x)"
  "chunkv.keeps (claim_review_case e rid h k cid now)"
  "chunkv.keeps (get_raw_by_id e fid)" "chunkv.keeps (get_raw_task_by_id e tid)"
  "chunkv.keeps (get_raw_review_case_by_id e rid)" "chunkv.keeps (get_next_chunk_version e did)"
  by (simp_all add: chunkv.keeps_def keeps_unfold split: sum.split list.split)

lemma filev_keep [intro]:
  "filev.keeps (update_task e tid v)" "filev.keeps (insert_audit_event e a)"
  "filev.keeps (create_review_case e c)" "filev.keeps (update_review_case e rid x)"
  "filev.keeps (create_chunks e ds)" "filev.keeps (delete_chunks_for_file e fid)"
  "filev.keeps (get_next_chunk_version e did)"
  by (simp_all add: filev.keeps_def keeps_unfold split: sum.split list.split)

lemma taskv_keep [intro]:
  "taskv.keeps (update_file e fid v)" "taskv.keeps (insert_audit_event e a)"
  "taskv.keeps (create_review_case e c)" "taskv.keeps (update_review_case e rid x)"
  "taskv.keeps (create_chunks e ds)" "taskv.keeps (delete_chunks_for_file e fid)"
  "taskv.keeps (get_next_chunk_version e did)"
  by (simp_all add: taskv.keeps_def keeps_unfold split: sum.split list.split)

end
