(* ===== verification/File_Ingestion.thy ===== *)
theory File_Ingestion
  imports File_Repository
begin

text \<open>
  The ingestion workflow of the files service:
  \<open>IngestionTaskTransitions\<close> of \<open>ingestion_state.py\<close> and
  \<open>FileIngestionStateMachine\<close> of \<open>file_ingestion_state_machine.py\<close>, as actions of
  the repository's monad.  A handler takes the ids of the documents it is called
  with; the documents it fetched, the mutable \<open>state\<close> dictionary and the updated
  task document are passed on explicitly.  Tracing spans and the duration
  histogram have no effect here; reason and details of audit events are left out.
\<close>

section \<open>Configuration and requests\<close>

record ingest_config =
  detector_settings :: detector_config
  review_resume_token_ttl_seconds :: int
  review_snippet_max_chars :: int
  chunk_preview_max_chars :: int
  chunk_size :: int
  chunk_overlap :: int
  upload_dir :: path
  files_events_topic :: string
  embedding_jobs_topic :: string
  vector_db_delete_topic :: string
  service_name :: string

record request_context =
  cx_request_id :: "string option"
  cx_trace_id :: "string option"
  cx_correlation_id :: "string option"
  cx_source_service :: "string option"
  cx_reply_to :: "string option"
  cx_stream_to :: "string option"

record decision_payload =
  dp_decision :: "string option"
  dp_text_hash :: "string option"
  dp_comment :: "string option"
  dp_patch_map :: "patch list option"

definition system_actor :: actor where
  "system_actor = \<lparr>actor_id = Some ''files'', actor_type = Some ''service'', display_name = Some ''files''\<rparr>"

section \<open>Task transitions\<close>

definition task_transition ::
  "env \<Rightarrow> task_doc \<Rightarrow> graph_state \<Rightarrow> ingestion_state \<Rightarrow> (task_doc \<Rightarrow> task_doc) \<Rightarrow> task_doc action" where
  "task_transition e t st target updates =
     (case transition_ingestion_state (current_node t) target of
        Inl x \<Rightarrow> raiseM (PyError x)
      | Inr next_state \<Rightarrow>
          (let task_updates = (\<lambda>t. (updates t)\<lparr>current_node := next_state, graph_state_of := st\<rparr>) in
           thenM (update_task e (task_id t) task_updates) (returnM (task_updates t))))"

definition begin_issue_detection :: "env \<Rightarrow> task_doc \<Rightarrow> graph_state \<Rightarrow> task_doc action" where
  "begin_issue_detection e t st = task_transition e t st DETECT_ISSUES (\<lambda>t. t\<lparr>t_status := ''running''\<rparr>)"

definition pause_for_review ::
  "env \<Rightarrow> task_doc \<Rightarrow> graph_state \<Rightarrow> string \<Rightarrow> resume_token \<Rightarrow> task_doc action" where
  "pause_for_review e t st checkpoint token =
     task_transition e t st AWAIT_HUMAN_REVIEW (\<lambda>t. t\<lparr>t_status := ''waiting_for_review'',
       checkpoint_id := Some checkpoint, resume_token_hash := Some (rt_token_hash token),
       resume_token_expires_at := Some (rt_expires_at token)\<rparr>)"

definition resume_review :: "env \<Rightarrow> task_doc \<Rightarrow> graph_state \<Rightarrow> task_doc action" where
  "resume_review e t st =
     task_transition e t st APPLY_DECISION (\<lambda>t. t\<lparr>t_status := ''resuming'', checkpoint_id := None,
       resume_token_hash := None, resume_token_expires_at := None\<rparr>)"

definition begin_chunking :: "env \<Rightarrow> task_doc \<Rightarrow> graph_state \<Rightarrow> task_doc action" where
  "begin_chunking e t st = task_transition e t st CHUNK_TEXT (\<lambda>t. t\<lparr>t_status := ''running''\<rparr>)"

definition request_embeddings :: "env \<Rightarrow> task_doc \<Rightarrow> graph_state \<Rightarrow> task_doc action" where
  "request_embeddings e t st = task_transition e t st REQUEST_EMBEDDINGS (\<lambda>t. t\<lparr>t_status := ''running''\<rparr>)"

definition finalize :: "env \<Rightarrow> task_doc \<Rightarrow> graph_state \<Rightarrow> task_doc action" where
  "finalize e t st = bindM (utcnow e) (\<lambda>now.
     task_transition e t st FINALIZE (\<lambda>t. t\<lparr>t_status := ''completed'', completed_at := Some now\<rparr>))"

definition finalize_rejected :: "env \<Rightarrow> task_doc \<Rightarrow> graph_state \<Rightarrow> task_doc action" where
  "finalize_rejected e t st = bindM (utcnow e) (\<lambda>now.
     task_transition e t st FINALIZE (\<lambda>t. t\<lparr>t_status := ''rejected'', completed_at := Some now\<rparr>))"

section \<open>Helpers of the workflow\<close>

definition document_id_of :: "file_doc \<Rightarrow> string" where
  "document_id_of f = (case or_else (document_id f) None of Some d \<Rightarrow> d | None \<Rightarrow> file_id f)"

definition set_stage :: "string \<Rightarrow> string \<Rightarrow> file_doc \<Rightarrow> file_doc" where
  "set_stage name outcome f = f\<lparr>stage := dset name outcome (stage f)\<rparr>"

definition merge_request_context :: "graph_state \<Rightarrow> request_context \<Rightarrow> graph_state" where
  "merge_request_context st cx =
     (let over = (\<lambda>new old. case new of Some v \<Rightarrow> Some v | None \<Rightarrow> old) in
      st\<lparr>gs_request_id := over (cx_request_id cx) (gs_request_id st),
         gs_trace_id := over (cx_trace_id cx) (gs_trace_id st),
         gs_correlation_id := over (cx_correlation_id cx) (gs_correlation_id st),
         gs_source_service := over (cx_source_service cx) (gs_source_service st),
         gs_reply_to := over (cx_reply_to cx) (gs_reply_to st),
         gs_stream_to := over (cx_stream_to cx) (gs_stream_to st)\<rparr>)"

definition build_outbound_envelope ::
  "env \<Rightarrow> ingest_config \<Rightarrow> graph_state \<Rightarrow> string \<Rightarrow> string \<Rightarrow> string \<Rightarrow> payload \<Rightarrow> envelope action" where
  "build_outbound_envelope e cfg st message_type act target_service pl =
     build_message_envelope e message_type act (service_name cfg) target_service
       (gs_request_id st) (gs_trace_id st) (gs_correlation_id st) pl"

definition write_audit_event ::
  "env \<Rightarrow> file_doc \<Rightarrow> task_doc \<Rightarrow> string \<Rightarrow> actor \<Rightarrow> string option \<Rightarrow> string option
     \<Rightarrow> string option \<Rightarrow> string option \<Rightarrow> bool action" where
  "write_audit_event e f t etype a case_id dec_id from_st to_st =
     bindM (generate_id e) (\<lambda>eid. bindM (utcnow e) (\<lambda>now.
       insert_audit_event e
         \<lparr>tenant_id = tenant_id f, owner_user_id = owner_user_id f, owner_admin_id = owner_admin_id f,
          event_id = eid, ev_file_id = file_id f, ev_document_id = document_id_of f,
          ev_task_id = task_id t, ev_review_case_id = case_id, ev_decision_id = dec_id,
          event_type = etype, from_status = from_st, to_status = to_st, ev_actor = a,
          ev_created_at = now\<rparr>))"

definition issue_categories_of :: "review_case \<Rightarrow> string list" where
  "issue_categories_of c = dedup_from {} (filter (\<lambda>k. k \<noteq> []) (map category (issue_categories c)))"

definition enrich_findings :: "ingest_config \<Rightarrow> finding list \<Rightarrow> string \<Rightarrow> enriched_finding list" where
  "enrich_findings cfg findings body =
     map (\<lambda>f. finding.extend f (enriched_finding.fields
       (build_snippet body (span_start f) (span_end f) (review_snippet_max_chars cfg)))) findings"

definition default_patch_map :: "enriched_finding list \<Rightarrow> patch list" where
  "default_patch_map findings =
     map (\<lambda>(index, f). \<lparr>p_id = ''default-patch-'' @ show_nat index, p_action = ''replace'',
            p_start = span_start f, p_end = span_end f,
            p_replacement = Some (''[REDACTED_'' @ ascii_upper (category f) @ '']''),
            p_reason = category f\<rparr>)
       (filter (\<lambda>(index, f). \<not> span_end f \<le> span_start f) (enumerate 0 findings))"

definition build_chunk_documents ::
  "env \<Rightarrow> ingest_config \<Rightarrow> file_doc \<Rightarrow> string \<Rightarrow> string \<Rightarrow> string \<Rightarrow> string \<Rightarrow> string list \<Rightarrow> bool \<Rightarrow> nat
     \<Rightarrow> chunk_doc list action" where
  "build_chunk_documents e cfg f tid body source status flags redacted version =
     (case the (chunk_text body (chunk_size cfg) (chunk_overlap cfg)) of
        Inl x \<Rightarrow> raiseM (PyError x)
      | Inr spans \<Rightarrow> bindM (utcnow e) (\<lambda>now. returnM
          (map (\<lambda>(index, first, last). let chunk_body = py_slice first last body in
             \<lparr>tenant_id = tenant_id f, owner_user_id = owner_user_id f, owner_admin_id = owner_admin_id f,
              chunk_id = document_id_of f @ ''__v'' @ show_nat version @ ''__c'' @ show_nat index,
              c_file_id = file_id f, c_document_id = document_id_of f, c_task_id = tid,
              chunk_index = index, chunk_version = version, c_text = chunk_body,
              text_preview = build_preview chunk_body (chunk_preview_max_chars cfg),
              text_source = source, char_start = first, char_end = last, source_name = filename f,
              c_review_status = status, retrieval_allowed = (status \<noteq> ''removed''),
              issue_flags = flags, redaction_applied = redacted,
              c_created_at = now, c_updated_at = now\<rparr>)
           (enumerate 0 spans))))"

definition chunk_event_payload :: "chunk_doc \<Rightarrow> chunk_event" where
  "chunk_event_payload c =
     \<lparr>ce_file_id = c_file_id c, ce_document_id = c_document_id c, ce_chunk_id = chunk_id c,
      ce_chunk_index = chunk_index c, ce_chunk_version = chunk_version c, ce_text = c_text c,
      ce_text_preview = text_preview c, ce_source_name = source_name c,
      ce_review_status = c_review_status c, ce_retrieval_allowed = retrieval_allowed c,
      ce_issue_flags = issue_flags c, ce_created_at = c_created_at c, ce_text_source = text_source c,
      ce_char_start = char_start c, ce_char_end = char_end c,
      ce_redaction_applied = redaction_applied c, ce_updated_at = c_updated_at c,
      ce_tenant_id = tenant_id c, ce_owner_user_id = owner_user_id c,
      ce_owner_admin_id = owner_admin_id c\<rparr>"

section \<open>The workflow\<close>

definition complete_chunking_flow ::
  "env \<Rightarrow> ingest_config \<Rightarrow> file_doc \<Rightarrow> task_doc \<Rightarrow> graph_state \<Rightarrow> actor \<Rightarrow> string \<Rightarrow> string \<Rightarrow> string list
     \<Rightarrow> bool \<Rightarrow> string option \<Rightarrow> string option \<Rightarrow> outbound_message list action" where
  "complete_chunking_flow e cfg f t st a source status flags redacted case_id dec_id =
     (let source_text = (case (if source = ''sanitized'' then sanitized_text st else extracted_text st) of
            Some s \<Rightarrow> s | None \<Rightarrow> []) in
      bindM (get_next_chunk_version e (document_id_of f)) (\<lambda>version.
      bindM (build_chunk_documents e cfg f (task_id t) source_text source status flags redacted version) (\<lambda>docs.
      thenM (create_chunks e docs) (
      bindM (generate_id e) (\<lambda>job.
      let st = st\<lparr>chunk_ids := map chunk_id docs, embedding_job_ids := [job]\<rparr> in
      thenM (update_file e (file_id f) (\<lambda>f. set_stage ''embedding'' ''running'' (set_stage ''chunking'' ''done''
        (set_stage ''review'' ''done'' (f\<lparr>f_status := ''processing''\<rparr>))))) (
      thenM (count_stage ''review'' ''ok'') (
      thenM (count_stage ''chunking'' ''ok'') (
      bindM (request_embeddings e t st) (\<lambda>t.
      bindM (finalize e t st) (\<lambda>t.
      thenM (write_audit_event e f t ''chunking_completed'' a case_id dec_id None None) (
      thenM (write_audit_event e f t ''embedding_jobs_requested'' a case_id dec_id None None) (
      thenM (write_audit_event e f t ''ingestion_completed'' a case_id dec_id None None) (
      bindM (generate_id e) (\<lambda>eid.
      bindM (utcnow e) (\<lambda>now.
      bindM (build_outbound_envelope e cfg st ''event'' ''files.chunking.completed'' ''gateway''
        (ChunkingCompleted eid (file_id f) (document_id_of f) (task_id t) (length docs) source case_id now)) (\<lambda>m1.
      bindM (utcnow e) (\<lambda>now.
      bindM (build_outbound_envelope e cfg st ''command'' ''process_embedding_job'' ''embedding''
        (EmbeddingJob job (file_id f) (document_id_of f) now (map chunk_event_payload docs))) (\<lambda>m2.
      returnM [\<lparr>ob_topic = files_events_topic cfg, ob_message = m1\<rparr>,
               \<lparr>ob_topic = embedding_jobs_topic cfg, ob_message = m2\<rparr>]))))))))))))))))))"

text \<open>\<open>max(findings, key=score)\<close>: the first finding with the greatest score.\<close>

definition highest_finding :: "enriched_finding list \<Rightarrow> files_error + enriched_finding" where
  "highest_finding findings =
     (case findings of
        [] \<Rightarrow> Inl (PyError ValueError)
      | f # fs \<Rightarrow> Inr (foldl (\<lambda>best f. if score f > score best then f else best) f fs))"

definition review_actions :: "string list" where
  "review_actions = [''delete_file'', ''remove_problematic_text'', ''accept_as_is'']"

definition sm_create_review_case ::
  "env \<Rightarrow> ingest_config \<Rightarrow> file_doc \<Rightarrow> task_doc \<Rightarrow> graph_state \<Rightarrow> actor \<Rightarrow> outbound_message list action" where
  "sm_create_review_case e cfg f t st a =
     (let findings = issue_findings st in
      bindM (liftM (highest_finding findings)) (\<lambda>top.
      bindM (generate_id e) (\<lambda>rid.
      let checkpoint = ''checkpoint-'' @ rid in
      bindM (make_resume_token e (review_resume_token_ttl_seconds cfg)) (\<lambda>token.
      bindM (utcnow e) (\<lambda>now.
      let patch_map = default_patch_map findings;
          doc = \<lparr>tenant_id = tenant_id f, owner_user_id = owner_user_id f, owner_admin_id = owner_admin_id f,
            review_case_id = rid, rc_file_id = file_id f, rc_document_id = document_id_of f,
            rc_task_id = task_id t, rc_status = ''open'', decision_status = ''pending'',
            highest_severity_score = score top, rc_text_hash = extracted_text_hash st,
            rc_problem_description = problem_description top, rc_problematic_text = problematic_text top,
            rc_why_problematic = why_problematic top, issue_categories = findings,
            allowed_actions = review_actions, rc_patch_map = patch_map,
            rc_interrupt = \<lparr>gi_graph_run_id = graph_run_id t, gi_checkpoint_id = checkpoint,
              gi_resume_token_hash = Some (rt_token_hash token),
              gi_resume_token_expires_at = Some (rt_expires_at token)\<rparr>,
            opened_at = now, resolved_at = None,
            resolved_by = \<lparr>actor_id = None, actor_type = None, display_name = None\<rparr>,
            resolution_claim_id = None, resolution_claimed_at = None\<rparr>;
          st = st\<lparr>review_required := True, gs_review_case_id := Some rid, redaction_patch_map := patch_map\<rparr> in
      thenM (create_review_case e doc) (
      thenM (update_file e (file_id f) (\<lambda>f. set_stage ''review'' ''paused'' (f\<lparr>f_status := ''awaiting_review'',
        review_status := ''pending'', latest_review_case_id := Some rid, current_task_id := Some (task_id t)\<rparr>))) (
      bindM (pause_for_review e t st checkpoint token) (\<lambda>t.
      thenM (write_audit_event e f t ''issue_detected'' a (Some rid) None (Some ''processing'') (Some ''awaiting_review'')) (
      thenM (write_audit_event e f t ''review_case_created'' a (Some rid) None (Some ''processing'') (Some ''awaiting_review'')) (
      thenM (write_audit_event e f t ''ingestion_paused_for_review'' a (Some rid) None (Some ''processing'') (Some ''awaiting_review'')) (
      bindM (generate_id e) (\<lambda>eid.
      bindM (utcnow e) (\<lambda>now.
      bindM (build_outbound_envelope e cfg st ''event'' ''files.review.required'' ''gateway''
        (ReviewRequired eid (file_id f) (document_id_of f) (task_id t) rid (map category findings) (score top)
          review_actions now)) (\<lambda>m.
      returnM [\<lparr>ob_topic = files_events_topic cfg, ob_message = m\<rparr>]))))))))))))))"

text \<open>The part of \<open>handle_extraction_completion\<close> after the file and the task are found.\<close>

definition process_extraction ::
  "env \<Rightarrow> ingest_config \<Rightarrow> file_doc \<Rightarrow> task_doc \<Rightarrow> string \<Rightarrow> bool \<Rightarrow> actor \<Rightarrow> request_context
     \<Rightarrow> outbound_message list action" where
  "process_extraction e cfg f t body warnings a cx =
     (let st = (merge_request_context (graph_state_of t) cx)
        \<lparr>extracted_text := Some body, extracted_text_hash := Some (e_hash e body), sanitized_text := None,
         gs_sanitized_text_version := sanitized_text_version f, issue_findings := [],
         review_required := False, gs_review_case_id := None, review_decision := None,
         redaction_patch_map := [], chunk_ids := [], embedding_job_ids := [],
         cleanup_required := False, gs_error := None\<rparr> in
      thenM (update_file e (file_id f) (\<lambda>g. set_stage ''extraction'' ''done''
        (g\<lparr>document_id := Some (document_id_of f), current_task_id := Some (task_id t),
           f_status := ''processing''\<rparr>))) (
      thenM (count_stage ''extraction'' ''ok'') (
      bindM (begin_issue_detection e t st) (\<lambda>t.
      thenM (write_audit_event e f t ''extraction_completed'' a None None (Some ''started'') (Some ''processing'')) (
      let findings = enrich_findings cfg (detect (e_is_fffd e) (detector_settings cfg) body warnings) body;
          required = list_ex (\<lambda>item. score item \<ge> threshold item) findings;
          st = st\<lparr>issue_findings := findings, review_required := required\<rparr> in
      if required then sm_create_review_case e cfg f t st a
      else
        thenM (update_file e (file_id f) (\<lambda>f. set_stage ''review'' ''done'' (f\<lparr>f_status := ''processing'',
          review_status := ''not_required'', latest_review_case_id := None\<rparr>))) (
        bindM (begin_chunking e t st) (\<lambda>t.
        complete_chunking_flow e cfg f t st a ''original'' ''clean'' [] False None None)))))))"

definition handle_extraction_completion ::
  "env \<Rightarrow> ingest_config \<Rightarrow> string \<Rightarrow> string \<Rightarrow> string \<Rightarrow> bool \<Rightarrow> actor option \<Rightarrow> request_context
     \<Rightarrow> outbound_message list action" where
  "handle_extraction_completion e cfg fid tid body warnings who cx =
     (let a = (case who of Some a \<Rightarrow> a | None \<Rightarrow> system_actor) in
      transaction e (
      bindM (get_raw_by_id e fid) (\<lambda>current_file.
      bindM (get_raw_task_by_id e tid) (\<lambda>current_task.
      case (current_file, current_task) of
        (Some f, Some t) \<Rightarrow> process_extraction e cfg f t body warnings a cx
      | _ \<Rightarrow> raiseM (NotFoundException ''File task not found'')))))"

section \<open>Review decisions\<close>

definition validate_review_decision ::
  "env \<Rightarrow> review_case \<Rightarrow> task_doc \<Rightarrow> decision_payload \<Rightarrow> unit action" where
  "validate_review_decision e c t dp =
     (if rc_status c \<noteq> ''open'' then raiseM (ValidationException ''Review case is not active'')
      else if decision_status c \<noteq> ''pending'' then raiseM (ValidationException ''Review case already has a decision'')
      else if dp_text_hash dp \<noteq> rc_text_hash c
        then raiseM (ValidationException ''based_on_text_hash does not match extracted text'')
      else
        thenM (case gi_resume_token_expires_at (rc_interrupt c) of
            None \<Rightarrow> returnM ()
          | Some expires_at \<Rightarrow> bindM (utcnow e) (\<lambda>now.
              if expires_at \<le> now then raiseM (ValidationException ''Review resume token has expired'')
              else returnM ())) (
        if \<not> present (resume_token_hash t)
          then raiseM (ValidationException ''Review resume token has already been consumed'')
        else if (case dp_decision dp of Some d \<Rightarrow> d \<notin> set (allowed_actions c) | None \<Rightarrow> True)
          then raiseM (ValidationException ''Decision is not allowed for this review case'')
        else
          (let patch_map = (case dp_patch_map dp of Some ps \<Rightarrow> ps | None \<Rightarrow> []) in
           if dp_decision dp = Some ''remove_problematic_text'' \<and> patch_map = []
             then raiseM (ValidationException ''patch_map is required for remove_problematic_text'')
           else if dp_decision dp \<in> {Some ''delete_file'', Some ''accept_as_is''} \<and> patch_map \<noteq> []
             then raiseM (ValidationException ''patch_map is not allowed for this decision'')
           else returnM ())))"

text \<open>\<open>os.remove\<close> of the stored file; an \<open>OSError\<close> is ignored.\<close>

definition remove_stored :: "env \<Rightarrow> path \<Rightarrow> unit action" where
  "remove_stored e p w =
     (Inr (), if e_exists e p \<and> p \<notin> set (removed w) \<and> e_remove_ok e p
              then w\<lparr>removed := removed w @ [p]\<rparr> else w)"

definition stored_path :: "env \<Rightarrow> ingest_config \<Rightarrow> file_doc \<Rightarrow> path option action" where
  "stored_path e cfg f =
     (if f_path f = [] then returnM None
      else case validate_managed_file_path (e_resolve e) (upload_dir cfg) (id_tenant (e_identity e))
               (file_id f) (f_path f) of
             Inl _ \<Rightarrow> raiseM (ValidationException ''managed path'')
           | Inr p \<Rightarrow> returnM (Some p))"

definition apply_delete_decision ::
  "env \<Rightarrow> ingest_config \<Rightarrow> file_doc \<Rightarrow> task_doc \<Rightarrow> review_case \<Rightarrow> graph_state \<Rightarrow> actor \<Rightarrow> string
     \<Rightarrow> outbound_message list action" where
  "apply_delete_decision e cfg f t c st a dec_id =
     bindM (delete_chunks_for_file e (file_id f)) (\<lambda>deleted_chunks.
     bindM (stored_path e cfg f) (\<lambda>sp.
     thenM (case sp of Some p \<Rightarrow> remove_stored e p | None \<Rightarrow> returnM ()) (
     let has_cleanup = (deleted_chunks > 0 \<or> dget (stage f) ''chunking'' = Some ''done'');
         st = st\<lparr>review_decision := Some ''delete_file'', cleanup_required := has_cleanup,
           extracted_text := None, sanitized_text := None, chunk_ids := [], embedding_job_ids := []\<rparr>;
         rid = Some (review_case_id c) in
     thenM (update_file e (file_id f) (\<lambda>f. set_stage ''embedding'' ''skipped'' (set_stage ''chunking'' ''skipped''
       (set_stage ''review'' ''done'' (f\<lparr>f_status := ''rejected'', review_status := ''rejected''\<rparr>))))) (
     thenM (count_stage ''review'' ''ok'') (
     thenM (count_stage ''chunking'' ''skipped'') (
     thenM (count_stage ''embedding'' ''skipped'') (
     bindM (finalize_rejected e t st) (\<lambda>t.
     thenM (write_audit_event e f t ''file_rejected'' a rid (Some dec_id) (Some ''awaiting_review'') (Some ''rejected'')) (
     bindM (if has_cleanup then
         bindM (generate_id e) (\<lambda>eid.
         bindM (utcnow e) (\<lambda>now.
         bindM (build_outbound_envelope e cfg st ''event'' ''vector_db.delete.requested'' ''vector_db''
           (VectorDeleteRequested eid (file_id f) (document_id_of f) (task_id t) ''review_delete_file'' now)) (\<lambda>m.
         thenM (write_audit_event e f t ''vector_delete_requested'' a rid (Some dec_id) None None)
           (returnM [\<lparr>ob_topic = vector_db_delete_topic cfg, ob_message = m\<rparr>]))))
       else returnM []) (\<lambda>outbound.
     thenM (write_audit_event e f t ''cleanup_completed'' a rid (Some dec_id) None None)
       (returnM outbound)))))))))))"

definition apply_redaction_decision ::
  "env \<Rightarrow> ingest_config \<Rightarrow> file_doc \<Rightarrow> task_doc \<Rightarrow> review_case \<Rightarrow> graph_state \<Rightarrow> actor \<Rightarrow> string
     \<Rightarrow> patch list \<Rightarrow> outbound_message list action" where
  "apply_redaction_decision e cfg f t c st a dec_id patch_map =
     (let original = (case extracted_text st of Some s \<Rightarrow> s | None \<Rightarrow> []) in
      case validate_patch_map original patch_map of
        Inl x \<Rightarrow> raiseM (PyError x)
      | Inr _ \<Rightarrow>
          (let sanitized = apply_patch_map original patch_map;
               version = sanitized_text_version f + 1;
               st = st\<lparr>sanitized_text := Some sanitized, gs_sanitized_text_version := version,
                 redaction_patch_map := patch_map\<rparr>;
               rid = Some (review_case_id c) in
           thenM (update_file e (file_id f) (\<lambda>f. set_stage ''review'' ''done''
             (f\<lparr>review_status := ''approved_sanitized'', f_status := ''processing'',
                sanitized_text_version := version\<rparr>))) (
           thenM (write_audit_event e f t ''file_sanitized'' a rid (Some dec_id) (Some ''awaiting_review'') (Some ''processing'')) (
           bindM (begin_chunking e t st) (\<lambda>t.
           complete_chunking_flow e cfg f t st a ''sanitized'' ''sanitized'' (issue_categories_of c) True
             rid (Some dec_id))))))"

definition apply_accept_decision ::
  "env \<Rightarrow> ingest_config \<Rightarrow> file_doc \<Rightarrow> task_doc \<Rightarrow> review_case \<Rightarrow> graph_state \<Rightarrow> actor \<Rightarrow> string
     \<Rightarrow> outbound_message list action" where
  "apply_accept_decision e cfg f t c st a dec_id =
     (let categories = issue_categories_of c; rid = Some (review_case_id c) in
      thenM (update_file e (file_id f) (\<lambda>f. set_stage ''review'' ''done''
        (f\<lparr>review_status := ''approved_as_is'', f_status := ''processing'',
           accepted_risk_categories := categories\<rparr>))) (
      thenM (write_audit_event e f t ''file_accepted_with_risk'' a rid (Some dec_id) (Some ''awaiting_review'') (Some ''processing'')) (
      bindM (begin_chunking e t st) (\<lambda>t.
      complete_chunking_flow e cfg f t st a ''original'' ''accepted_with_risk'' categories False
        rid (Some dec_id)))))"

definition apply_decision ::
  "env \<Rightarrow> ingest_config \<Rightarrow> file_doc \<Rightarrow> task_doc \<Rightarrow> review_case \<Rightarrow> graph_state \<Rightarrow> actor \<Rightarrow> string
     \<Rightarrow> string \<Rightarrow> patch list \<Rightarrow> outbound_message list action" where
  "apply_decision e cfg f t c st a dec_id decision patch_map =
     (if decision = ''delete_file'' then apply_delete_decision e cfg f t c st a dec_id
      else if decision = ''remove_problematic_text'' then apply_redaction_decision e cfg f t c st a dec_id patch_map
      else apply_accept_decision e cfg f t c st a dec_id)"

text \<open>
  The part of \<open>handle_review_decision\<close> after the three documents are found.  The
  subscript \<open>payload["based_on_text_hash"]\<close> raises \<open>KeyError\<close> when the key is absent;
  \<open>payload["decision"]\<close> is present after validation.
\<close>

definition resolve_case ::
  "env \<Rightarrow> ingest_config \<Rightarrow> file_doc \<Rightarrow> task_doc \<Rightarrow> review_case \<Rightarrow> decision_payload \<Rightarrow> actor \<Rightarrow> request_context
     \<Rightarrow> outbound_message list action" where
  "resolve_case e cfg f t c dp a cx =
     thenM (validate_review_decision e c t dp) (
     bindM (generate_id e) (\<lambda>dec_id.
     let token_hash = (case or_else (resume_token_hash t) None of Some h \<Rightarrow> h | None \<Rightarrow> []);
         rid = review_case_id c in
     bindM (liftM (case dp_text_hash dp of Some h \<Rightarrow> Inr h | None \<Rightarrow> Inl (PyError KeyError))) (\<lambda>text_hash.
     bindM (utcnow e) (\<lambda>now.
     bindM (claim_review_case e rid text_hash token_hash dec_id now) (\<lambda>claimed.
     if \<not> claimed then raiseM (ValidationException ''Review case is already being resolved'')
     else
       (let decision = (case dp_decision dp of Some d \<Rightarrow> d | None \<Rightarrow> []);
            st = (merge_request_context (graph_state_of t) cx)
              \<lparr>review_decision := Some decision, gs_review_case_id := Some rid\<rparr> in
       bindM (utcnow e) (\<lambda>now.
       thenM (create_review_decision e
         \<lparr>tenant_id = tenant_id f, owner_user_id = owner_user_id f, owner_admin_id = owner_admin_id f,
          decision_id = dec_id, rd_review_case_id = rid, rd_file_id = file_id f,
          rd_document_id = document_id_of f, rd_task_id = task_id t, rd_decision = decision,
          rd_comment = (case dp_comment dp of Some s \<Rightarrow> s | None \<Rightarrow> []), rd_text_hash = text_hash,
          submitted_by = a, submitted_patch_map = (case dp_patch_map dp of Some ps \<Rightarrow> ps | None \<Rightarrow> []),
          rd_created_at = now\<rparr>) (
       bindM (utcnow e) (\<lambda>now.
       thenM (update_review_case e rid (\<lambda>c. c\<lparr>rc_status := ''resolved'', decision_status := decision,
         resolved_at := Some now, resolved_by := a,
         rc_interrupt := (rc_interrupt c)\<lparr>gi_resume_token_hash := None, gi_resume_token_expires_at := None\<rparr>\<rparr>)) (
       bindM (resume_review e t st) (\<lambda>t.
       thenM (write_audit_event e f t ''review_decision_submitted'' a (Some rid) (Some dec_id) None None) (
       thenM (write_audit_event e f t ''graph_resumed'' a (Some rid) (Some dec_id) None None) (
       apply_decision e cfg f t c st a dec_id decision
         (case dp_patch_map dp of Some ps \<Rightarrow> ps | None \<Rightarrow> []))))))))))))))"

definition handle_review_decision ::
  "env \<Rightarrow> ingest_config \<Rightarrow> string \<Rightarrow> string \<Rightarrow> string \<Rightarrow> decision_payload \<Rightarrow> actor \<Rightarrow> request_context
     \<Rightarrow> outbound_message list action" where
  "handle_review_decision e cfg fid rid tid dp a cx =
     transaction e (
     bindM (get_raw_by_id e fid) (\<lambda>current_file.
     bindM (get_raw_task_by_id e tid) (\<lambda>current_task.
     bindM (get_raw_review_case_by_id e rid) (\<lambda>current_case.
     case (current_file, current_task, current_case) of
       (Some f, Some t, Some c) \<Rightarrow> resolve_case e cfg f t c dp a cx
     | _ \<Rightarrow> raiseM (NotFoundException ''Review decision target not found'')))))"

end
