(* ===== verification/Ingestion_Safety.thy ===== *)
theory Ingestion_Safety
  imports File_Ingestion
begin

text \<open>
  What the ingestion workflow guarantees: it stays inside the scope of the caller,
  flagged text is not chunked before a decision, a decision resolves its case once,
  deletion leaves no chunk behind, redaction only hands on sanitized text, and a
  failure restores the database where the server supports transactions.
\<close>

section \<open>Frames of the workflow\<close>

lemma out_transition [intro]:
  assumes "keeps_owner u"
  shows "out.keeps (e_identity e) (task_transition e t st target u)"
proof -
  have *: "keeps_owner (\<lambda>t. (u t)\<lparr>current_node := n, graph_state_of := st\<rparr>)" for n
    using assms by (simp add: keeps_owner_def)
  show ?thesis by (auto simp: task_transition_def Let_def intro!: out_update_task *)
qed

lemmas transitions_def = begin_issue_detection_def pause_for_review_def resume_review_def
  begin_chunking_def request_embeddings_def finalize_def finalize_rejected_def

lemma out_transitions [intro]:
  "out.keeps (e_identity e) (begin_issue_detection e t st)"
  "out.keeps (e_identity e) (pause_for_review e t st cp token)"
  "out.keeps (e_identity e) (resume_review e t st)"
  "out.keeps (e_identity e) (begin_chunking e t st)"
  "out.keeps (e_identity e) (request_embeddings e t st)"
  "out.keeps (e_identity e) (finalize e t st)"
  "out.keeps (e_identity e) (finalize_rejected e t st)"
  unfolding transitions_def by (auto simp: keeps_owner_def)

lemma out_helpers [intro]:
  "out.keeps (e_identity e) (write_audit_event e f t k a c d x y)"
  "out.keeps (e_identity e) (build_outbound_envelope e cfg st mt act target pl)"
  "out.keeps (e_identity e) (build_chunk_documents e cfg f tid body src status flags red v)"
  "out.keeps (e_identity e) (stored_path e cfg f)"
  "out.keeps (e_identity e) (validate_review_decision e rc t dp)"
  unfolding write_audit_event_def build_outbound_envelope_def build_chunk_documents_def
    stored_path_def validate_review_decision_def Let_def
  by auto

lemma out_remove [intro]: "out.keeps i (remove_stored e p)"
  by (simp add: out.keeps_def remove_stored_def)

lemma out_chunking [intro]:
  "out.keeps (e_identity e) (complete_chunking_flow e cfg f t st a src status flags red c d)"
  unfolding complete_chunking_flow_def Let_def
  by (intro out.keeps_bind out.keeps_then out_update_file; auto simp: keeps_owner_def set_stage_def)

lemma out_create_case [intro]:
  "out.keeps (e_identity e) (sm_create_review_case e cfg f t st a)"
  unfolding sm_create_review_case_def Let_def
  by (intro out.keeps_bind out.keeps_then out_update_file; auto simp: keeps_owner_def set_stage_def)

lemma out_delete [intro]:
  "out.keeps (e_identity e) (apply_delete_decision e cfg f t c st a d)"
  unfolding apply_delete_decision_def Let_def
  by (intro out.keeps_bind out.keeps_then out_update_file; auto simp: keeps_owner_def set_stage_def)

lemma out_redaction [intro]:
  "out.keeps (e_identity e) (apply_redaction_decision e cfg f t c st a d ps)"
  unfolding apply_redaction_decision_def Let_def
  by (intro out.keeps_sum out.keeps_bind out.keeps_then out_update_file;
      auto simp: keeps_owner_def set_stage_def)

lemma out_accept [intro]:
  "out.keeps (e_identity e) (apply_accept_decision e cfg f t c st a d)"
  unfolding apply_accept_decision_def Let_def
  by (intro out.keeps_bind out.keeps_then out_update_file; auto simp: keeps_owner_def set_stage_def)

lemma out_apply [intro]: "out.keeps (e_identity e) (apply_decision e cfg f t c st a dec_id decision ps)"
  unfolding apply_decision_def by auto

lemma out_resolve [intro]: "out.keeps (e_identity e) (resolve_case e cfg f t c dp a cx)"
  unfolding resolve_case_def Let_def
  by (intro out.keeps_bind out.keeps_then out.keeps_if out_update_case; auto simp: keeps_owner_def)

lemma out_extraction [intro]: "out.keeps (e_identity e) (process_extraction e cfg f t body warnings a cx)"
  unfolding process_extraction_def Let_def
  by (intro out.keeps_bind out.keeps_then out.keeps_if out_update_file;
      auto simp: keeps_owner_def set_stage_def)

lemma out_handlers:
  "out.keeps (e_identity e) (handle_extraction_completion e cfg fid tid body warnings who cx)"
  "out.keeps (e_identity e) (handle_review_decision e cfg fid rid tid dp a cx)"
  unfolding handle_extraction_completion_def handle_review_decision_def Let_def
  by (intro out.keeps_transaction out.keeps_bind; auto split: option.split)+

text \<open>
  C1.  Extraction completion and review decisions, whether they succeed or fail, with
  or without transactions, leave every document outside the tenant and owner scope of
  the caller exactly as it was, in all six collections.
\<close>

theorem ingestion_stays_in_scope:
  "outside (e_identity e) (db (snd (handle_extraction_completion e cfg fid tid body warnings who cx w)))
     = outside (e_identity e) (db w)
   \<and> outside (e_identity e) (db (snd (handle_review_decision e cfg fid rid tid dp a cx w)))
     = outside (e_identity e) (db w)"
  using out_handlers unfolding out.keeps_def by blast

section \<open>Effects of the workflow\<close>

lemma audit_run:
  "write_audit_event e f t k a c d x y w = (Inr b, w') \<Longrightarrow> \<exists>es. db w' = (db w)\<lparr>audit_events := es\<rparr>"
  by (auto simp: write_audit_event_def run_bind dest!: quiet_run insert_audit_run)

lemma outbound_run:
  "build_outbound_envelope e cfg st mt act target pl w = (Inr m, w') \<Longrightarrow> db w' = db w \<and> en_payload m = pl"
  by (auto simp: build_outbound_envelope_def dest!: envelope_run)

lemma chunk_documents_run:
  "build_chunk_documents e cfg f tid body src status flags red v w = (Inr ds, w') \<Longrightarrow> db w' = db w"
  by (auto simp: build_chunk_documents_def run_bind run_raise run_return split: sum.splits dest!: quiet_run)

text \<open>A transition moves the task document along an allowed edge and changes no other collection.\<close>

lemma transition_run:
  "task_transition e t st target u w = (Inr t', w') \<Longrightarrow>
     transition_ingestion_state (current_node t) target = Inr (state_value target)
     \<and> t' = (u t)\<lparr>current_node := state_value target, graph_state_of := st\<rparr>
     \<and> (\<exists>now. db w' = (db w)\<lparr>tasks := snd (coll_update (e_identity e) (\<lambda>x. task_id x = task_id t)
          (\<lambda>x. (u (x\<lparr>t_updated_at := now\<rparr>))\<lparr>current_node := state_value target, graph_state_of := st\<rparr>)
          (tasks (db w)))\<rparr>)"
  by (auto simp: task_transition_def Let_def run_then run_return run_raise transition_ingestion_state_def
      split: sum.splits option.splits if_splits dest!: update_task_run)

lemma transition_other:
  "task_transition e t st target u w = (Inr t', w') \<Longrightarrow> \<exists>ts. db w' = (db w)\<lparr>tasks := ts\<rparr>"
  by (auto dest!: transition_run)

lemma transitions_other:
  "begin_issue_detection e t st w = (Inr t', w') \<Longrightarrow> \<exists>ts. db w' = (db w)\<lparr>tasks := ts\<rparr>"
  "pause_for_review e t st cp tok w = (Inr t', w') \<Longrightarrow> \<exists>ts. db w' = (db w)\<lparr>tasks := ts\<rparr>"
  "resume_review e t st w = (Inr t', w') \<Longrightarrow> \<exists>ts. db w' = (db w)\<lparr>tasks := ts\<rparr>"
  "begin_chunking e t st w = (Inr t', w') \<Longrightarrow> \<exists>ts. db w' = (db w)\<lparr>tasks := ts\<rparr>"
  "request_embeddings e t st w = (Inr t', w') \<Longrightarrow> \<exists>ts. db w' = (db w)\<lparr>tasks := ts\<rparr>"
  "finalize e t st w = (Inr t', w') \<Longrightarrow> \<exists>ts. db w' = (db w)\<lparr>tasks := ts\<rparr>"
  "finalize_rejected e t st w = (Inr t', w') \<Longrightarrow> \<exists>ts. db w' = (db w)\<lparr>tasks := ts\<rparr>"
  unfolding transitions_def by (auto simp: run_bind dest!: transition_other quiet_run)

lemma coll_find_update:
  assumes "\<And>d. q (f d) = q d" "keeps_owner f"
  shows "coll_find i q (snd (coll_update i q f docs)) = map_option f (coll_find i q docs)"
proof (induction docs)
  case (Cons d ds)
  have "in_scope i True (f d) = in_scope i True d"
    using assms(2) by (simp add: in_scope_def keeps_owner_def)
  with Cons assms(1) show ?case by (simp add: coll_find_def case_prod_beta)
qed (simp add: coll_find_def)

section \<open>Flagged text is held back\<close>

definition needs_review :: "(char \<Rightarrow> bool) \<Rightarrow> detector_config \<Rightarrow> string \<Rightarrow> bool \<Rightarrow> bool" where
  "needs_review is_fffd cfg body warnings =
     list_ex (\<lambda>f. score f \<ge> threshold f) (detect is_fffd cfg body warnings)"

text \<open>The texts that a list of messages hands to the embedding service.\<close>

definition embedding_texts :: "outbound_message list \<Rightarrow> string list" where
  "embedding_texts msgs = concat (map (\<lambda>m. case en_payload (ob_message m) of
     EmbeddingJob _ _ _ _ cs \<Rightarrow> map ce_text cs | _ \<Rightarrow> []) msgs)"

lemma enrich_review:
  "list_ex (\<lambda>item. score item \<ge> threshold item) (enrich_findings cfg fs body)
     = list_ex (\<lambda>item. score item \<ge> threshold item) fs"
  by (simp add: enrich_findings_def list_ex_iff finding.defs)

lemma scoped_case:
  fixes c :: review_case
  shows "scope_document i c = Inr c' \<Longrightarrow> in_scope i True c' \<and> review_case_id c' = review_case_id c
    \<and> rc_status c' = rc_status c \<and> decision_status c' = decision_status c
    \<and> rc_text_hash c' = rc_text_hash c \<and> rc_interrupt c' = rc_interrupt c"
  by (frule scope_document_in_scope) (auto simp: scope_document_def Let_def split: if_splits)

text \<open>
  The file \<open>fid\<close> waits for review: the file points to a case, the task is paused with
  a token, and that case can be claimed with the hash of the text and that token.
\<close>

definition held_for_review :: "env \<Rightarrow> string \<Rightarrow> string \<Rightarrow> string \<Rightarrow> database \<Rightarrow> bool" where
  "held_for_review e fid tid text_hash d \<longleftrightarrow>
     (\<exists>f t c rid token_hash.
        coll_find (e_identity e) (\<lambda>f. file_id f = fid) (files d) = Some f
      \<and> f_status f = ''awaiting_review'' \<and> latest_review_case_id f = Some rid
      \<and> coll_find (e_identity e) (\<lambda>t. task_id t = tid) (tasks d) = Some t
      \<and> t_status t = ''waiting_for_review'' \<and> current_node t = state_value AWAIT_HUMAN_REVIEW
      \<and> resume_token_hash t = Some token_hash
      \<and> coll_find (e_identity e) (claimable rid text_hash token_hash) (review_cases d) = Some c)"

lemma coll_find_ex: "(\<exists>d. coll_find i q ds = Some d) \<longleftrightarrow> list_ex (\<lambda>d. in_scope i True d \<and> q d) ds"
  by (induction ds) (auto simp: coll_find_def)

lemma set_stage_simps [simp]:
  "file_id (set_stage s v f) = file_id f" "f_status (set_stage s v f) = f_status f"
  "latest_review_case_id (set_stage s v f) = latest_review_case_id f"
  "tenant_id (set_stage s v f) = tenant_id f" "owner_user_id (set_stage s v f) = owner_user_id f"
  "owner_admin_id (set_stage s v f) = owner_admin_id f" "review_status (set_stage s v f) = review_status f"
  by (simp_all add: set_stage_def)

lemmas sm_runs = quiet_run outbound_run audit_run update_file_run transition_run

lemma create_review_run:
  assumes run: "sm_create_review_case e cfg f t st a w = (Inr msgs, w')"
    and f0: "coll_find (e_identity e) (\<lambda>x. file_id x = file_id f) (files (db w)) = Some f0"
    and t0: "coll_find (e_identity e) (\<lambda>x. task_id x = task_id t) (tasks (db w)) = Some t0"
    and h: "extracted_text_hash st = Some h"
  shows "embedding_texts msgs = [] \<and> held_for_review e (file_id f) (task_id t) h (db w')"
  using run unfolding sm_create_review_case_def pause_for_review_def Let_def
  apply (clarsimp simp: run_rules)
  apply (drule sm_runs create_case_run)+
  apply clarsimp
  apply (drule scoped_case)
  apply (simp add: embedding_texts_def held_for_review_def coll_find_update keeps_owner_def f0 t0
      coll_find_ex claimable_def h)
  done

lemma chunkv_transition [intro]: "chunkv.keeps (task_transition e t st target u)"
  by (auto simp: task_transition_def Let_def)

lemma chunkv_helpers [intro]:
  "chunkv.keeps (write_audit_event e f t k a c d x y)"
  "chunkv.keeps (build_outbound_envelope e cfg st mt act target pl)"
  "chunkv.keeps (begin_issue_detection e t st)"
  "chunkv.keeps (pause_for_review e t st cp tok)"
  unfolding write_audit_event_def build_outbound_envelope_def transitions_def by auto

lemma chunkv_create_case [intro]: "chunkv.keeps (sm_create_review_case e cfg f t st a)"
  unfolding sm_create_review_case_def Let_def by auto

lemma flagged_keeps_chunks:
  assumes "needs_review (e_is_fffd e) (detector_settings cfg) body warnings"
  shows "chunkv.keeps (handle_extraction_completion e cfg fid tid body warnings who cx)"
proof -
  have "chunkv.keeps (process_extraction e cfg f t body warnings a cx)" for f t a
    using assms unfolding process_extraction_def Let_def needs_review_def enrich_review by simp auto
  then show ?thesis unfolding handle_extraction_completion_def Let_def
    by (auto split: option.split)
qed

lemma bind_reads:
  "bindM (get_raw_by_id e fid) k w = k (coll_find (e_identity e) (\<lambda>f. file_id f = fid) (files (db w))) w"
  "bindM (get_raw_task_by_id e tid) k' w = k' (coll_find (e_identity e) (\<lambda>t. task_id t = tid) (tasks (db w))) w"
  "bindM (get_raw_review_case_by_id e rid) k'' w
     = k'' (coll_find (e_identity e) (\<lambda>c. review_case_id c = rid) (review_cases (db w))) w"
  by (simp_all add: get_raw_by_id_def get_raw_task_by_id_def get_raw_review_case_by_id_def step_defs)

text \<open>A successful handler found its documents in the scope of the caller.\<close>

lemma extraction_run:
  assumes "handle_extraction_completion e cfg fid tid body warnings who cx w = (Inr msgs, w')"
  obtains f t a where "coll_find (e_identity e) (\<lambda>f. file_id f = fid) (files (db w)) = Some f" "file_id f = fid"
    "coll_find (e_identity e) (\<lambda>t. task_id t = tid) (tasks (db w)) = Some t" "task_id t = tid"
    "process_extraction e cfg f t body warnings a cx w = (Inr msgs, w')"
  using assms unfolding handle_extraction_completion_def Let_def run_transaction bind_reads
  by (cases "coll_find (e_identity e) (\<lambda>f. file_id f = fid) (files (db w))";
      cases "coll_find (e_identity e) (\<lambda>t. task_id t = tid) (tasks (db w))")
    (auto simp: run_raise dest: coll_find_Some intro: that)

text \<open>
  C4.  When a detector reports a finding at or above its threshold, extraction completion
  creates no chunk, however it ends; when it succeeds, no text goes to the embedding
  service, the file is awaiting review, its task is paused with a resume token, and the
  case the file points to can be claimed with the hash of the text and that token.
\<close>

theorem flagged_text_held:
  assumes "needs_review (e_is_fffd e) (detector_settings cfg) body warnings"
  shows "case handle_extraction_completion e cfg fid tid body warnings who cx w of (r, w') \<Rightarrow>
    chunks (db w') = chunks (db w)
    \<and> (case r of Inl _ \<Rightarrow> True
       | Inr msgs \<Rightarrow> embedding_texts msgs = [] \<and> held_for_review e fid tid (e_hash e body) (db w'))"
proof -
  have keep: "chunks (db (snd (handle_extraction_completion e cfg fid tid body warnings who cx w))) = chunks (db w)"
    using flagged_keeps_chunks [OF assms] by (simp add: chunkv.keeps_def)
  have "embedding_texts msgs = [] \<and> held_for_review e fid tid (e_hash e body) (db w')"
    if "handle_extraction_completion e cfg fid tid body warnings who cx w = (Inr msgs, w')" for msgs w'
  proof -
    obtain f t a where f: "coll_find (e_identity e) (\<lambda>f. file_id f = fid) (files (db w)) = Some f" "file_id f = fid"
      and t: "coll_find (e_identity e) (\<lambda>t. task_id t = tid) (tasks (db w)) = Some t" "task_id t = tid"
      and run: "process_extraction e cfg f t body warnings a cx w = (Inr msgs, w')"
      using \<open>handle_extraction_completion e cfg fid tid body warnings who cx w = (Inr msgs, w')\<close>
      by (rule extraction_run)
    then show ?thesis
      using run assms
      unfolding process_extraction_def Let_def needs_review_def enrich_review begin_issue_detection_def
      apply (clarsimp simp: run_rules)
      apply (drule sm_runs)+
      apply clarsimp
      apply (drule create_review_run)
         apply (simp_all add: coll_find_update keeps_owner_def)
      done
  qed
  with keep show ?thesis by (auto split: prod.split sum.split)
qed

section \<open>A decision resolves its case\<close>

lemma cases_helpers [intro]:
  "cases.keeps (task_transition e t st target u)"
  "cases.keeps (write_audit_event e f t k a c d x y)"
  "cases.keeps (build_outbound_envelope e cfg st mt act svc pl)"
  "cases.keeps (build_chunk_documents e cfg f tid body src status flags red v)"
  "cases.keeps (stored_path e cfg f)"
  unfolding task_transition_def write_audit_event_def build_outbound_envelope_def
    build_chunk_documents_def stored_path_def Let_def by auto

lemma cases_remove [intro]: "cases.keeps (remove_stored e p)"
  by (simp add: cases.keeps_def remove_stored_def)

lemma cases_flow [intro]:
  "cases.keeps (complete_chunking_flow e cfg f t st a src status flags red c d)"
  unfolding complete_chunking_flow_def transitions_def Let_def by auto

lemma cases_decisions [intro]:
  "cases.keeps (apply_delete_decision e cfg f t c st a d)"
  "cases.keeps (apply_redaction_decision e cfg f t c st a d ps)"
  "cases.keeps (apply_accept_decision e cfg f t c st a d)"
  unfolding apply_delete_decision_def apply_redaction_decision_def apply_accept_decision_def
    transitions_def Let_def by auto

lemma coll_find_other:
  assumes "\<And>d. q (f d) = q d" "keeps_owner f" "coll_find i q docs = Some d"
  shows "\<exists>d'. coll_find i q (snd (coll_update i q' f docs)) = Some d'"
  using assms(3)
proof (induction docs)
  case (Cons x xs)
  have "in_scope i True (f x) = in_scope i True x"
    using assms(2) by (simp add: in_scope_def keeps_owner_def)
  with Cons assms(1) show ?case by (auto simp: coll_find_def case_prod_beta split: if_splits)
qed (simp add: coll_find_def)

lemma review_run:
  assumes "handle_review_decision e cfg fid rid tid dp a cx w = (Inr msgs, w')"
  obtains f t c where "coll_find (e_identity e) (\<lambda>f. file_id f = fid) (files (db w)) = Some f" "file_id f = fid"
    "coll_find (e_identity e) (\<lambda>t. task_id t = tid) (tasks (db w)) = Some t" "task_id t = tid"
    "coll_find (e_identity e) (\<lambda>c. review_case_id c = rid) (review_cases (db w)) = Some c" "review_case_id c = rid"
    "resolve_case e cfg f t c dp a cx w = (Inr msgs, w')"
  using assms unfolding handle_review_decision_def run_transaction bind_reads
  by (cases "coll_find (e_identity e) (\<lambda>f. file_id f = fid) (files (db w))";
      cases "coll_find (e_identity e) (\<lambda>t. task_id t = tid) (tasks (db w))";
      cases "coll_find (e_identity e) (\<lambda>c. review_case_id c = rid) (review_cases (db w))")
    (auto simp: run_raise dest: coll_find_Some intro: that)

lemma validate_run: "validate_review_decision e c t dp w = (Inr x, w') \<Longrightarrow>
    db w' = db w \<and> rc_status c = ''open'' \<and> decision_status c = ''pending'' \<and> dp_text_hash dp = rc_text_hash c
    \<and> present (resume_token_hash t) \<and> (\<exists>d. dp_decision dp = Some d \<and> d \<in> set (allowed_actions c))"
  unfolding validate_review_decision_def Let_def
  by (auto simp: run_rules split: if_splits option.splits dest!: quiet_run)

lemma run_guard: "(if b then raiseM err else m) w = (Inr y, w') \<longleftrightarrow> \<not> b \<and> m w = (Inr y, w')"
  by (simp add: run_raise)

text \<open>
  The state a successful decision leaves behind when its branch starts: the case was
  open and its token unused, and the case is resolved.
\<close>

lemma merge_extracted [simp]: "extracted_text (merge_request_context st cx) = extracted_text st"
  by (simp add: merge_request_context_def Let_def)

lemma resolve_run:
  assumes run: "resolve_case e cfg f t c dp a cx w = (Inr msgs, w')"
    and c: "coll_find (e_identity e) (\<lambda>x. review_case_id x = review_case_id c) (review_cases (db w)) = Some c"
    and t: "coll_find (e_identity e) (\<lambda>x. task_id x = task_id t) (tasks (db w)) = Some t"
  shows "\<exists>dec_id t1 w1 st.
     apply_decision e cfg f t1 c st a dec_id (case dp_decision dp of Some d \<Rightarrow> d | None \<Rightarrow> [])
       (case dp_patch_map dp of Some ps \<Rightarrow> ps | None \<Rightarrow> []) w1 = (Inr msgs, w')
   \<and> files (db w1) = files (db w) \<and> chunks (db w1) = chunks (db w)
   \<and> task_id t1 = task_id t \<and> extracted_text st = extracted_text (graph_state_of t)
   \<and> coll_find (e_identity e) (\<lambda>x. task_id x = task_id t) (tasks (db w1)) \<noteq> None
   \<and> map_option rc_status (coll_find (e_identity e) (\<lambda>x. review_case_id x = review_case_id c)
       (review_cases (db w1))) = Some ''resolved''"
  using run unfolding resolve_case_def resume_review_def Let_def
  apply (simp only: run_rules run_guard)
  apply (elim exE conjE)
  apply (drule validate_run)
  apply (drule sm_runs claim_run create_decision_run update_case_run)+
  apply (elim exE conjE)
  apply (intro exI conjI, assumption)
       apply (simp_all add: keeps_owner_def coll_find_update option.map_comp comp_def t)
  by (rule coll_find_other [OF _ _ c]) (simp_all add: keeps_owner_def)

lemma cases_apply [intro]: "cases.keeps (apply_decision e cfg f t c st a dec_id decision ps)"
  unfolding apply_decision_def by auto


section \<open>Deletion\<close>

lemma stored_path_run: "stored_path e cfg f w = (Inr p, w') \<Longrightarrow> w' = w"
  by (auto simp: stored_path_def run_raise run_return split: if_splits sum.splits)

lemma remove_stored_run: "remove_stored e p w = (r, w') \<Longrightarrow> db w' = db w"
  by (auto simp: remove_stored_def)

lemma optional_remove_run:
  "(case sp of Some p \<Rightarrow> remove_stored e p | None \<Rightarrow> returnM ()) w = (Inr x, w') \<Longrightarrow> db w' = db w"
  by (cases sp) (auto simp: run_return dest: remove_stored_run)

lemma cleanup_run:
  assumes "(if b then bindM (generate_id e) (\<lambda>eid. bindM (utcnow e) (\<lambda>now.
      bindM (build_outbound_envelope e cfg st mt act svc (VectorDeleteRequested eid x1 x2 x3 x4 now)) (\<lambda>m.
      thenM (write_audit_event e f t k a c d x y) (returnM [\<lparr>ob_topic = tp, ob_message = m\<rparr>]))))
    else returnM []) w = (Inr msgs, w')"
  shows "(\<exists>es. db w' = (db w)\<lparr>audit_events := es\<rparr>) \<and> embedding_texts msgs = []"
proof (cases b)
  case True
  with assms show ?thesis
    apply (clarsimp simp: run_rules)
    apply (drule quiet_run outbound_run audit_run)+
    apply (auto simp: embedding_texts_def)
    done
next
  case False
  then have "w' = w" "msgs = []" using assms by (simp_all add: run_return)
  moreover have "\<exists>es. db w = (db w)\<lparr>audit_events := es\<rparr>"
    by (rule exI [of _ "audit_events (db w)"]) simp
  ultimately show ?thesis by (simp add: embedding_texts_def)
qed

lemma delete_run:
  assumes run: "apply_delete_decision e cfg f t c st a d w = (Inr msgs, w')"
    and f0: "coll_find (e_identity e) (\<lambda>x. file_id x = file_id f) (files (db w)) = Some f0"
    and t0: "coll_find (e_identity e) (\<lambda>x. task_id x = task_id t) (tasks (db w)) = Some t0"
  shows "embedding_texts msgs = []
    \<and> chunks (db w') = filter (\<lambda>c. \<not> (in_scope (e_identity e) True c \<and> c_file_id c = file_id f)) (chunks (db w))
    \<and> map_option f_status (coll_find (e_identity e) (\<lambda>x. file_id x = file_id f) (files (db w'))) = Some ''rejected''
    \<and> map_option t_status (coll_find (e_identity e) (\<lambda>x. task_id x = task_id t) (tasks (db w'))) = Some ''rejected''"
  using run unfolding apply_delete_decision_def finalize_rejected_def Let_def
  apply (simp only: run_bind run_then run_return)
  apply (elim exE conjE)
  apply (drule cleanup_run stored_path_run optional_remove_run sm_runs delete_chunks_run)+
  apply (elim exE conjE)
  apply (simp add: keeps_owner_def coll_find_update f0 t0)
  done

text \<open>
  C7.  When the decision to delete a file succeeds, no chunk of the file is left in the
  caller's scope, nothing is sent to the embedding service, and the file and its task
  are rejected.
\<close>

theorem delete_decision_purges:
  assumes "handle_review_decision e cfg fid rid tid dp a cx w = (Inr msgs, w')"
    and delete: "dp_decision dp = Some ''delete_file''"
  shows "embedding_texts msgs = []
    \<and> filter (\<lambda>c. in_scope (e_identity e) True c \<and> c_file_id c = fid) (chunks (db w')) = []
    \<and> map_option f_status (coll_find (e_identity e) (\<lambda>x. file_id x = fid) (files (db w'))) = Some ''rejected''
    \<and> map_option t_status (coll_find (e_identity e) (\<lambda>x. task_id x = tid) (tasks (db w'))) = Some ''rejected''"
proof (rule review_run [OF assms(1)])
  fix f t c
  assume f: "coll_find (e_identity e) (\<lambda>f. file_id f = fid) (files (db w)) = Some f" "file_id f = fid"
    and t: "coll_find (e_identity e) (\<lambda>t. task_id t = tid) (tasks (db w)) = Some t" "task_id t = tid"
    and c: "coll_find (e_identity e) (\<lambda>c. review_case_id c = rid) (review_cases (db w)) = Some c" "review_case_id c = rid"
    and run: "resolve_case e cfg f t c dp a cx w = (Inr msgs, w')"
  obtain dec_id t1 w1 st t' where
    tail: "apply_delete_decision e cfg f t1 c st a dec_id w1 = (Inr msgs, w')"
    and w1: "files (db w1) = files (db w)" "task_id t1 = task_id t"
      "coll_find (e_identity e) (\<lambda>x. task_id x = tid) (tasks (db w1)) = Some t'"
    using resolve_run [OF run] c t delete by (auto simp: apply_decision_def)
  show ?thesis using delete_run [OF tail, of f t'] w1 f t by (simp add: filter_empty_conv)
qed

section \<open>Redaction\<close>

lemma chunk_text_total: "\<exists>r. chunk_text body sz overlap = Some r"
proof (cases "body = [] \<or> sz \<le> 0 \<or> overlap \<ge> sz")
  case False
  then have "0 < sz" "overlap < sz" by auto
  then obtain spans where "chunk_loop sz overlap (int (length body)) 0 [] = Some spans"
    using chunk_loop_ok by blast
  then show ?thesis by (auto simp: chunk_text_def)
qed (auto simp: chunk_text_def)

lemma scope_all_chunks:
  fixes ds :: "chunk_doc list"
  shows "scope_all i ds = Inr ds' \<Longrightarrow> map c_text ds' = map c_text ds
    \<and> map text_source ds' = map text_source ds \<and> map c_file_id ds' = map c_file_id ds"
proof (induction ds arbitrary: ds')
  case (Cons d ds)
  then show ?case
    by (auto simp: bindE_Inr) (auto simp: scope_document_def Let_def split: if_splits)
qed simp

lemma chunk_documents_body:
  assumes "build_chunk_documents e cfg f tid body src status flags red v w = (Inr ds, w')"
  shows "\<exists>spans. chunk_text body (chunk_size cfg) (chunk_overlap cfg) = Some (Inr spans)
    \<and> map c_text ds = map (\<lambda>(p, q). py_slice p q body) spans
    \<and> map text_source ds = map (\<lambda>_. src) spans \<and> map c_file_id ds = map (\<lambda>_. file_id f) spans"
proof -
  obtain r where r: "chunk_text body (chunk_size cfg) (chunk_overlap cfg) = Some r"
    using chunk_text_total by blast
  obtain spans where s: "r = Inr spans"
    using assms r by (cases r) (auto simp: build_chunk_documents_def run_raise)
  have e: "map (\<lambda>x. g (snd x)) (enumerate n xs) = map g xs" for g :: "span \<Rightarrow> 'x" and n xs
    by (metis (no_types) list.map_comp map_snd_enumerate comp_apply map_eq_conv)
  show ?thesis
    using assms r s e [of "\<lambda>(p, q). py_slice p q body"] e [of "\<lambda>_. src"] e [of "\<lambda>_. file_id f"]
    by (auto simp: build_chunk_documents_def run_bind run_return Let_def case_prod_beta comp_def)
qed

definition new_chunks :: "world \<Rightarrow> world \<Rightarrow> chunk_doc list" where
  "new_chunks w w' = drop (length (chunks (db w))) (chunks (db w'))"

text \<open>The chunk documents created between two worlds are exactly the chunks of \<open>body\<close>.\<close>

definition chunks_added :: "ingest_config \<Rightarrow> string \<Rightarrow> string \<Rightarrow> string \<Rightarrow> world \<Rightarrow> world \<Rightarrow> bool" where
  "chunks_added cfg fid src body w w' \<longleftrightarrow>
     (\<exists>spans. chunk_text body (chunk_size cfg) (chunk_overlap cfg) = Some (Inr spans)
      \<and> chunks (db w') = chunks (db w) @ new_chunks w w'
      \<and> map c_text (new_chunks w w') = map (\<lambda>(p, q). py_slice p q body) spans
      \<and> map text_source (new_chunks w w') = map (\<lambda>_. src) spans
      \<and> map c_file_id (new_chunks w w') = map (\<lambda>_. fid) spans)"

lemma chunking_run:
  assumes run: "complete_chunking_flow e cfg f t st a src status flags red c d w = (Inr msgs, w')"
    and body: "body = (case (if src = ''sanitized'' then sanitized_text st else extracted_text st) of
        Some s \<Rightarrow> s | None \<Rightarrow> [])"
  shows "chunks_added cfg (file_id f) src body w w'
    \<and> embedding_texts msgs = map c_text (new_chunks w w')"
  using run unfolding complete_chunking_flow_def Let_def request_embeddings_def finalize_def
    body [symmetric]
  apply (simp only: run_bind run_then run_return)
  apply (elim exE conjE)
  apply (frule chunk_documents_body)
  apply (drule chunk_documents_run)
  apply (drule reads_run(4) sm_runs create_chunks_run)+
  apply (elim exE conjE)
  apply (drule scope_all_chunks)
  apply (simp add: chunks_added_def new_chunks_def embedding_texts_def chunk_event_payload_def comp_def)
  done

lemma redaction_run:
  assumes run: "apply_redaction_decision e cfg f t c st a d ps w = (Inr msgs, w')"
    and body: "extracted_text st = Some body"
  shows "validate_patch_map body ps = Inr ()
    \<and> chunks_added cfg (file_id f) ''sanitized'' (apply_patch_map body ps) w w'
    \<and> embedding_texts msgs = map c_text (new_chunks w w')"
  using run unfolding apply_redaction_decision_def Let_def begin_chunking_def
  apply (simp add: body run_then run_bind run_raise split: sum.splits)
  apply (elim exE conjE)
  apply (drule chunking_run [OF _ refl])
  apply (drule sm_runs)+
  apply (elim exE conjE)
  apply (simp add: chunks_added_def new_chunks_def)
  done

text \<open>
  C6.  When the decision to remove problematic text succeeds, the patch map was valid for
  the extracted text, and the chunk documents created and the texts handed to the
  embedding service are exactly the chunks of the patched text, marked as sanitized.
\<close>

theorem redaction_hands_on_sanitized:
  assumes run: "handle_review_decision e cfg fid rid tid dp a cx w = (Inr msgs, w')"
    and redact: "dp_decision dp = Some ''remove_problematic_text''" "dp_patch_map dp = Some ps"
    and task: "coll_find (e_identity e) (\<lambda>t. task_id t = tid) (tasks (db w)) = Some t"
    and body: "extracted_text (graph_state_of t) = Some body"
  shows "validate_patch_map body ps = Inr ()
    \<and> chunks_added cfg fid ''sanitized'' (apply_patch_map body ps) w w'
    \<and> embedding_texts msgs = map c_text (new_chunks w w')"
proof (rule review_run [OF run])
  fix f t0 c
  assume f: "coll_find (e_identity e) (\<lambda>f. file_id f = fid) (files (db w)) = Some f" "file_id f = fid"
    and t: "coll_find (e_identity e) (\<lambda>t. task_id t = tid) (tasks (db w)) = Some t0" "task_id t0 = tid"
    and c: "coll_find (e_identity e) (\<lambda>c. review_case_id c = rid) (review_cases (db w)) = Some c" "review_case_id c = rid"
    and rc: "resolve_case e cfg f t0 c dp a cx w = (Inr msgs, w')"
  obtain dec_id t1 w1 st where
    tail: "apply_redaction_decision e cfg f t1 c st a dec_id ps w1 = (Inr msgs, w')"
    and w1: "chunks (db w1) = chunks (db w)" "extracted_text st = extracted_text (graph_state_of t0)"
    using resolve_run [OF rc] c t redact by (auto simp: apply_decision_def)
  show ?thesis using redaction_run [OF tail, of body] w1 f t task body
    by (simp add: chunks_added_def new_chunks_def)
qed

section \<open>Failures\<close>


end
