(* ===== verification/Batch_Scheduling.thy ===== *)
theory Batch_Scheduling
  imports Prelude "HOL-Library.Multiset"
begin

text \<open>
  What the two micro-batching schedulers share: the life of a
  \<open>concurrent.futures.Future\<close>, the ledger that says where every future is (in a
  queue, in a running batch, or settled), and the contract of moving work from a
  queue into a batch.
\<close>

section \<open>Futures\<close>

datatype sched_class = CLASS_LIVE | CLASS_BACKGROUND

datatype sched_error = BatchError string | ResultMismatch | SchedulerClosed

datatype 'r fut = FPending | FRunning | FCancelled | FNotified | FDone 'r | FError sched_error

text \<open>
  \<open>set_running_or_notify_cancel\<close> is only called on pending and cancelled futures
  (the ledger below shows it), where it does not raise.
\<close>

fun set_running_or_notify_cancel :: "'r fut \<Rightarrow> bool \<times> 'r fut" where
  "set_running_or_notify_cancel FPending = (True, FRunning)"
| "set_running_or_notify_cancel FCancelled = (False, FNotified)"
| "set_running_or_notify_cancel f = (False, f)"

fun fut_cancel :: "'r fut \<Rightarrow> 'r fut" where
  "fut_cancel FPending = FCancelled"
| "fut_cancel f = f"

text \<open>\<open>_settle\<close>: a future that is already cancelled or finished is left as it is.\<close>

fun settle :: "'r fut \<Rightarrow> 'r fut \<Rightarrow> 'r fut" where
  "settle r FPending = r"
| "settle r FRunning = r"
| "settle r f = f"

text \<open>\<open>Future.done\<close>: cancelled or finished.\<close>

fun terminal :: "'r fut \<Rightarrow> bool" where
  "terminal FCancelled = True"
| "terminal FNotified = True"
| "terminal (FDone r) = True"
| "terminal (FError e) = True"
| "terminal f = False"

section \<open>The ledger\<close>

text \<open>
  \<open>Q\<close>: futures of queued work, \<open>R\<close>: futures of work in a running batch, \<open>F\<close>: the
  state of every future ever created.
\<close>

definition ledger_ok :: "nat list \<Rightarrow> nat list \<Rightarrow> 'r fut list \<Rightarrow> bool" where
  "ledger_ok Q R F \<longleftrightarrow> distinct (Q @ R) \<and> set Q \<union> set R \<subseteq> {..<length F}
     \<and> (\<forall>i\<in>set Q. F ! i = FPending \<or> F ! i = FCancelled)
     \<and> (\<forall>i\<in>set R. F ! i = FRunning)
     \<and> (\<forall>i<length F. i \<notin> set Q \<longrightarrow> i \<notin> set R \<longrightarrow> terminal (F ! i))"

lemma ledger_perm:
  assumes "ledger_ok Q R F" "mset Q = mset Q'" "mset R = mset R'"
  shows "ledger_ok Q' R' F"
proof -
  have "set Q' = set Q" "set R' = set R" using assms(2,3) by (metis set_mset_mset)+
  moreover have "distinct (Q' @ R') = distinct (Q @ R)"
    by (rule mset_eq_imp_distinct_iff) (use assms(2,3) in simp)
  ultimately show ?thesis using assms(1) by (simp add: ledger_ok_def)
qed

lemma ledger_empty: "ledger_ok [] [] []"
  by (simp add: ledger_ok_def)

lemma ledger_admit:
  assumes "ledger_ok Q R F"
  shows "ledger_ok (Q @ [length F ..< length F + n]) R (F @ replicate n FPending)"
  using assms unfolding ledger_ok_def by (auto simp: nth_append subset_iff)

lemma terminal_cancel [simp]: "terminal x \<Longrightarrow> terminal (fut_cancel x)"
  by (cases x) auto

lemma ledger_cancel:
  assumes "ledger_ok Q R F"
  shows "ledger_ok Q R (F[i := fut_cancel (F ! i)])"
proof (cases "i < length F")
  case True
  with assms show ?thesis
    unfolding ledger_ok_def by (auto simp: nth_list_update)
qed (simp add: assms list_update_beyond)

definition start :: "nat \<Rightarrow> 'r fut list \<Rightarrow> 'r fut list" where
  "start i F = F[i := snd (set_running_or_notify_cancel (F ! i))]"

lemma length_start [simp]: "length (start i F) = length F"
  by (simp add: start_def)

lemma nth_start_other: "i \<noteq> j \<Longrightarrow> start i F ! j = F ! j"
  by (simp add: start_def)

lemma ledger_start_pending:
  "ledger_ok (i # Q) R F \<Longrightarrow> F ! i = FPending \<Longrightarrow> ledger_ok Q (i # R) (start i F)"
  unfolding ledger_ok_def start_def by (auto simp: nth_list_update)

lemma ledger_start_cancelled:
  "ledger_ok (i # Q) R F \<Longrightarrow> F ! i = FCancelled \<Longrightarrow> ledger_ok Q R (start i F)"
  unfolding ledger_ok_def start_def by (auto simp: nth_list_update)

lemma ledger_release:
  "ledger_ok (i # Q) R F \<Longrightarrow> F ! i = FCancelled \<Longrightarrow> ledger_ok Q R F"
  unfolding ledger_ok_def by auto

lemma ledger_settle:
  "ledger_ok Q (i # R) F \<Longrightarrow> terminal r \<Longrightarrow> ledger_ok Q R (F[i := settle r (F ! i)])"
  unfolding ledger_ok_def by (auto simp: nth_list_update)

section \<open>Settling a batch\<close>

fun settle_all :: "(nat \<times> 'r fut) list \<Rightarrow> 'r fut list \<Rightarrow> 'r fut list" where
  "settle_all [] F = F"
| "settle_all ((i, r) # rest) F = settle_all rest (F[i := settle r (F ! i)])"

lemma length_settle_all [simp]: "length (settle_all xs F) = length F"
  by (induction xs F rule: settle_all.induct) auto

lemma ledger_settle_all:
  "ledger_ok Q (map fst xs @ R) F \<Longrightarrow> list_all (\<lambda>(i, r). terminal r) xs \<Longrightarrow> ledger_ok Q R (settle_all xs F)"
proof (induction xs arbitrary: F)
  case (Cons x xs)
  obtain i r where x: "x = (i, r)" by (cases x)
  from Cons.prems x have "ledger_ok Q (map fst xs @ R) (F[i := settle r (F ! i)])"
    by (auto intro: ledger_settle)
  with Cons show ?case by (simp add: x)
qed simp

lemma settle_all_other: "j \<notin> set (map fst xs) \<Longrightarrow> settle_all xs F ! j = F ! j"
  by (induction xs F rule: settle_all.induct) auto

lemma settle_all_nth:
  assumes "distinct (map fst xs)" "(i, r) \<in> set xs" "i < length F" "F ! i = FRunning"
  shows "settle_all xs F ! i = r"
  using assms
proof (induction xs arbitrary: F)
  case (Cons x xs)
  obtain j s where x: "x = (j, s)" by (cases x)
  show ?case
  proof (cases "i = j")
    case True
    with Cons.prems have "(i, r) = (j, s)" "i \<notin> set (map fst xs)"
      by (auto simp: x image_iff)
    with Cons.prems show ?thesis by (simp add: x settle_all_other True del: set_map)
  next
    case False
    with Cons.prems show ?thesis by (auto simp: x intro!: Cons.IH)
  qed
qed simp

section \<open>Running batches\<close>

lemma mset_concat_remove1:
  "b \<in> set rs \<Longrightarrow> mset (concat rs) = mset b + mset (concat (remove1 b rs))"
  by (induction rs) auto

lemma distinct_map_concat: "distinct (map f (concat rs)) \<Longrightarrow> b \<in> set rs \<Longrightarrow> distinct (map f b)"
  by (induction rs) auto

lemma filter_remove1:
  "b \<in> set rs \<Longrightarrow> length (filter P (remove1 b rs)) = length (filter P rs) - (if P b then 1 else 0)"
proof (induction rs)
  case (Cons r rs)
  have "P b \<Longrightarrow> b \<in> set rs \<Longrightarrow> 0 < length (filter P rs)" by (auto simp: filter_empty_conv)
  with Cons show ?case by auto
qed simp

section \<open>Moving work into a batch\<close>

text \<open>
  A take removes a prefix of the queue, first come first served: pending work joins
  the batch in order, cancelled work is dropped, and the future of everything
  removed is started.
\<close>

definition start_all :: "nat list \<Rightarrow> 'r fut list \<Rightarrow> 'r fut list" where
  "start_all is F = fold start is F"

lemma start_all_simps [simp]: "start_all [] F = F" "start_all (i # is) F = start_all is (start i F)"
  by (simp_all add: start_all_def)

lemma length_start_all [simp]: "length (start_all is F) = length F"
  by (induction "is" arbitrary: F) auto

lemma start_all_other: "j \<notin> set is \<Longrightarrow> start_all is F ! j = F ! j"
  by (induction "is" arbitrary: F) (auto simp: nth_start_other)

lemma start_all_append: "start_all (is @ js) F = start_all js (start_all is F)"
  by (simp add: start_all_def)

lemma ledger_start_all:
  "ledger_ok (is @ Q) R F \<Longrightarrow> ledger_ok Q (filter (\<lambda>i. F ! i = FPending) is @ R) (start_all is F)"
proof (induction "is" arbitrary: R F)
  case (Cons i "is")
  have st: "F ! i = FPending \<or> F ! i = FCancelled" and i: "i \<notin> set is"
    using Cons.prems by (auto simp: ledger_ok_def)
  have same: "filter (\<lambda>j. start i F ! j = FPending) is = filter (\<lambda>j. F ! j = FPending) is"
    by (rule filter_cong [OF refl]) (use i nth_start_other in metis)
  show ?case
  proof (cases "F ! i = FPending")
    case True
    with Cons.prems have "ledger_ok (is @ Q) (i # R) (start i F)" by (simp add: ledger_start_pending)
    from Cons.IH [OF this] show ?thesis
      by (simp add: same True) (rule ledger_perm, assumption, simp_all)
  next
    case False
    with st Cons.prems have "ledger_ok (is @ Q) R (start i F)" by (simp add: ledger_start_cancelled)
    from Cons.IH [OF this] show ?thesis by (simp add: same False)
  qed
qed simp

text \<open>\<open>_fail_remaining\<close>: every queued future is started and then failed.\<close>

fun fail_all :: "sched_error \<Rightarrow> nat list \<Rightarrow> 'r fut list \<Rightarrow> 'r fut list" where
  "fail_all err [] F = F"
| "fail_all err (i # is) F =
     (let F = start i F in fail_all err is (F[i := settle (FError err) (F ! i)]))"

lemma length_fail_all [simp]: "length (fail_all err is F) = length F"
  by (induction err "is" F rule: fail_all.induct) (auto simp: Let_def)

lemma fail_all_other: "j \<notin> set is \<Longrightarrow> fail_all err is F ! j = F ! j"
  by (induction err "is" F rule: fail_all.induct) (auto simp: Let_def nth_start_other)

lemma ledger_fail_all: "ledger_ok (is @ Q) R F \<Longrightarrow> ledger_ok Q R (fail_all err is F)"
proof (induction "is" arbitrary: F)
  case (Cons i "is")
  let ?F = "start i F"
  consider "F ! i = FPending" | "F ! i = FCancelled" using Cons.prems by (auto simp: ledger_ok_def)
  then have "ledger_ok (is @ Q) R (?F[i := settle (FError err) (?F ! i)])"
  proof cases
    case 1
    with Cons.prems have "ledger_ok (is @ Q) (i # R) ?F" by (simp add: ledger_start_pending)
    then show ?thesis by (rule ledger_settle) simp
  next
    case 2
    with Cons.prems have l: "ledger_ok (is @ Q) R ?F" and "i < length F"
      by (simp_all add: ledger_start_cancelled) (auto simp: ledger_ok_def)
    with 2 have "?F ! i = FNotified" by (simp add: start_def)
    with l show ?thesis by (metis list_update_id settle.simps(4))
  qed
  with Cons.IH show ?case by (simp add: Let_def)
qed simp

lemma fail_all_done: "fail_all err is F ! i = FDone v \<Longrightarrow> F ! i = FDone v"
proof (induction err "is" F rule: fail_all.induct)
  case (2 err j "is" F)
  let ?F = "start j F"
  from 2 have a: "(?F[j := settle (FError err) (?F ! j)]) ! i = FDone v" by (simp add: Let_def)
  show ?case
  proof (cases "i = j \<and> j < length F")
    case True
    then have "settle (FError err) (snd (set_running_or_notify_cancel (F ! j))) = FDone v"
      using a by (simp add: start_def)
    then show ?thesis using True by (cases "F ! j") auto
  next
    case False
    then show ?thesis using a by (auto simp: start_def list_update_beyond)
  qed
qed simp

locale batch_take =
  fixes tk :: "'i list \<Rightarrow> 'i list \<Rightarrow> 'r fut list \<Rightarrow> 'i list \<times> 'i list \<times> 'r fut list"
    and fid :: "'i \<Rightarrow> nat"
  assumes tk_prefix: "distinct (map fid q) \<Longrightarrow> tk q b F = (q', b', F') \<Longrightarrow>
    \<exists>pre. q = pre @ q' \<and> b' = b @ filter (\<lambda>i. F ! fid i = FPending) pre \<and> F' = start_all (map fid pre) F"
begin

lemma tk_ledger:
  assumes "ledger_ok (map fid q @ Q) (map fid b @ R) F" "tk q b F = (q', b', F')"
  shows "ledger_ok (map fid q' @ Q) (map fid b' @ R) F'"
proof -
  have d: "distinct (map fid q)" using assms(1) by (auto simp: ledger_ok_def)
  obtain pre where p: "q = pre @ q'" "b' = b @ filter (\<lambda>i. F ! fid i = FPending) pre"
    "F' = start_all (map fid pre) F" using tk_prefix [OF d assms(2)] by blast
  have "ledger_ok (map fid pre @ map fid q' @ Q) (map fid b @ R) F" using assms(1) p(1) by simp
  then have "ledger_ok (map fid q' @ Q) (filter (\<lambda>i. F ! i = FPending) (map fid pre) @ map fid b @ R) F'"
    unfolding p(3) by (rule ledger_start_all)
  then show ?thesis
    by (rule ledger_perm) (simp_all add: p(2) filter_map comp_def)
qed

lemma tk_queue: "distinct (map fid q) \<Longrightarrow> tk q b F = (q', b', F') \<Longrightarrow> suffix q' q"
  using tk_prefix [of q b F q' b' F'] by (auto simp: suffix_def)

lemma tk_length: "distinct (map fid q) \<Longrightarrow> tk q b F = (q', b', F') \<Longrightarrow> length b' \<le> length b + length q - length q'"
  using tk_prefix [of q b F q' b' F'] by (auto intro: order_trans [OF length_filter_le])

end

end
