(* ===== verification/Embedding_Scheduler.thy ===== *)
theory Embedding_Scheduler
  imports Batch_Scheduling
begin

text \<open>
  \<open>backend/embedding/app/services/inference_scheduler.py\<close>: the micro-batching
  scheduler in front of the embedding model.  Every region under the condition's
  lock is an operation on the record; \<open>es_step\<close> lets submitters, workers and
  shutdown interleave.  A future is its index in \<open>es_futures\<close>.  The batches that
  workers hold are part of the system state, not of the record.  Waiting on the
  condition and reading the clock are choices of the step relation; gauges and
  histograms are left out, the counters of refusals and timeouts are kept.
\<close>

section \<open>State\<close>

type_synonym vector = "real list"

record item =
  it_text :: string
  it_class :: sched_class
  it_future :: nat
  enqueued_at :: real

record embedding_scheduler =
  max_batch_size :: nat
  max_pending_items :: nat
  live_reserve :: nat
  background_floor :: nat
  max_background_inflight :: nat
  inference_workers :: nat
  es_available :: bool
  es_live :: "item list"
  es_background :: "item list"
  es_closed :: bool
  drain_pending :: bool
  inference_calls :: nat
  items_embedded :: nat
  busy_workers :: nat
  background_inflight :: nat
  es_futures :: "vector fut list"
  es_rejections :: "(sched_class \<times> string) list"
  es_timeouts :: "(sched_class \<times> string) list"

definition es_init ::
  "bool \<Rightarrow> int \<Rightarrow> real \<Rightarrow> int \<Rightarrow> real \<Rightarrow> real \<Rightarrow> int \<Rightarrow> int option \<Rightarrow> py_exn + embedding_scheduler" where
  "es_init available mb window_ms mp admission inference workers bg =
     (if workers < 1 then Inl ValueError
      else if mb < 1 then Inl ValueError
      else if window_ms < 0 then Inl ValueError
      else if mp < mb then Inl ValueError
      else if admission \<le> 0 \<or> inference \<le> 0 then Inl ValueError
      else
        (let bg = (case bg of Some n \<Rightarrow> n | None \<Rightarrow> max 1 (workers - 1)) in
         if \<not> (1 \<le> bg \<and> bg \<le> workers) then Inl ValueError
         else Inr \<lparr>max_batch_size = nat mb, max_pending_items = nat mp,
           live_reserve = nat (max 1 (min mb (mp div 2))), background_floor = nat (max 1 (mb div 4)),
           max_background_inflight = nat bg, inference_workers = nat workers, es_available = available,
           es_live = [], es_background = [], es_closed = False, drain_pending = True,
           inference_calls = 0, items_embedded = 0, busy_workers = 0, background_inflight = 0,
           es_futures = [], es_rejections = [], es_timeouts = []\<rparr>))"

text \<open>\<open>create_scheduler\<close>: the values read from the service configuration are forced into range.\<close>

definition create_scheduler ::
  "bool \<Rightarrow> int \<Rightarrow> real \<Rightarrow> int \<Rightarrow> real \<Rightarrow> real \<Rightarrow> int \<Rightarrow> int option \<Rightarrow> py_exn + embedding_scheduler" where
  "create_scheduler available mb window_ms mp admission inference workers bg =
     (let workers = max 1 workers in
      es_init available (max 1 mb) window_ms mp admission inference workers
        (Some (max 1 (min workers (case bg of Some n \<Rightarrow> n | None \<Rightarrow> max 1 (workers - 1))))))"

section \<open>Admission\<close>

definition total_pending :: "embedding_scheduler \<Rightarrow> nat" where
  "total_pending s = length (es_live s) + length (es_background s)"

definition pending_items :: "sched_class option \<Rightarrow> embedding_scheduler \<Rightarrow> nat" where
  "pending_items c s = (case c of
     Some CLASS_LIVE \<Rightarrow> length (es_live s)
   | Some CLASS_BACKGROUND \<Rightarrow> length (es_background s)
   | None \<Rightarrow> total_pending s)"

definition pending_limit :: "sched_class \<Rightarrow> embedding_scheduler \<Rightarrow> nat" where
  "pending_limit c s = (case c of
     CLASS_LIVE \<Rightarrow> max_pending_items s
   | CLASS_BACKGROUND \<Rightarrow> max 1 (max_pending_items s - live_reserve s))"

definition record_rejection :: "sched_class \<Rightarrow> string \<Rightarrow> embedding_scheduler \<Rightarrow> embedding_scheduler" where
  "record_rejection c reason s = s\<lparr>es_rejections := es_rejections s @ [(c, reason)]\<rparr>"

definition record_timeout :: "sched_class \<Rightarrow> string \<Rightarrow> embedding_scheduler \<Rightarrow> embedding_scheduler" where
  "record_timeout c phase s = s\<lparr>es_timeouts := es_timeouts s @ [(c, phase)]\<rparr>"

datatype submit_error = Overloaded string | Unavailable | InferenceTimeout

definition enqueue :: "sched_class \<Rightarrow> string list \<Rightarrow> real \<Rightarrow> embedding_scheduler \<Rightarrow> embedding_scheduler" where
  "enqueue c texts now s =
     (let n = length (es_futures s);
          items = map (\<lambda>(i, x). \<lparr>it_text = x, it_class = c, it_future = i, enqueued_at = now\<rparr>)
            (enumerate n texts);
          s = s\<lparr>es_futures := es_futures s @ replicate (length texts) FPending\<rparr> in
      case c of
        CLASS_LIVE \<Rightarrow> s\<lparr>es_live := es_live s @ items\<rparr>
      | CLASS_BACKGROUND \<Rightarrow> s\<lparr>es_background := es_background s @ items\<rparr>)"

text \<open>
  One pass of the loop of \<open>_admit\<close> under the lock: refused, admitted (with the
  futures of the items), or \<^const>\<open>None\<close> when the submitter has to wait;
  \<open>expired\<close> says that the admission deadline has passed.
\<close>

definition admit ::
  "sched_class \<Rightarrow> string list \<Rightarrow> real \<Rightarrow> bool \<Rightarrow> embedding_scheduler
     \<Rightarrow> (submit_error + nat list option) \<times> embedding_scheduler" where
  "admit c texts now expired s =
     (let limit = pending_limit c s; n = length (es_futures s) in
      if length texts > limit then (Inl (Overloaded ''oversized''), record_rejection c ''oversized'' s)
      else if es_closed s then (Inl (Overloaded ''closed''), record_rejection c ''closed'' s)
      else if total_pending s + length texts \<le> limit
      then (Inr (Some [n ..< n + length texts]), enqueue c texts now s)
      else if expired
      then (Inl (Overloaded ''saturated''), record_rejection c ''saturated'' (record_timeout c ''admission'' s))
      else (Inr None, s))"

text \<open>The start of \<open>encode\<close>; \<open>Inr (Some [])\<close> also stands for the empty submission.\<close>

definition encode_submit ::
  "sched_class \<Rightarrow> string list \<Rightarrow> real \<Rightarrow> bool \<Rightarrow> embedding_scheduler
     \<Rightarrow> (submit_error + nat list option) \<times> embedding_scheduler" where
  "encode_submit c texts now expired s =
     (if texts = [] then (Inr (Some []), s)
      else if \<not> es_available s then (Inl Unavailable, s)
      else admit c texts now expired s)"

text \<open>
  The wait of \<open>encode\<close> for its futures in submission order: all results, the error
  of the first future that has one, or \<^const>\<open>None\<close> while it waits.  Giving up (an
  expired deadline, an error or an interruption) cancels all its futures.
\<close>

fun gather :: "vector fut list \<Rightarrow> nat list \<Rightarrow> vector list \<Rightarrow> (sched_error + vector list) option" where
  "gather F [] results = Some (Inr results)"
| "gather F (i # is) results =
     (case F ! i of
        FDone v \<Rightarrow> gather F is (results @ [v])
      | FError e \<Rightarrow> Some (Inl e)
      | _ \<Rightarrow> None)"

definition cancel_all :: "nat list \<Rightarrow> embedding_scheduler \<Rightarrow> embedding_scheduler" where
  "cancel_all is s = s\<lparr>es_futures := fold (\<lambda>i F. F[i := fut_cancel (F ! i)]) is (es_futures s)\<rparr>"

definition encode_timeout :: "sched_class \<Rightarrow> nat list \<Rightarrow> embedding_scheduler \<Rightarrow> submit_error \<times> embedding_scheduler" where
  "encode_timeout c is s = (InferenceTimeout, cancel_all is (record_timeout c ''inference'' s))"

section \<open>Workers\<close>

definition background_admissible :: "embedding_scheduler \<Rightarrow> bool" where
  "background_admissible s \<longleftrightarrow> es_background s \<noteq> [] \<and> background_inflight s < max_background_inflight s"

definition worker_exits :: "embedding_scheduler \<Rightarrow> bool" where
  "worker_exits s \<longleftrightarrow> es_closed s \<and> (\<not> drain_pending s \<or> total_pending s = 0)"

definition worker_ready :: "embedding_scheduler \<Rightarrow> bool" where
  "worker_ready s \<longleftrightarrow> es_live s \<noteq> [] \<or> background_admissible s"

definition window_open :: "embedding_scheduler \<Rightarrow> bool" where
  "window_open s \<longleftrightarrow> busy_workers s > 0 \<and> total_pending s < max_batch_size s \<and> \<not> es_closed s"

fun take_locked ::
  "nat \<Rightarrow> nat \<Rightarrow> item list \<Rightarrow> item list \<Rightarrow> vector fut list \<Rightarrow> item list \<times> item list \<times> vector fut list" where
  "take_locked mb cap [] batch F = ([], batch, F)"
| "take_locked mb cap (x # queue) batch F =
     (if length batch < mb \<and> cap > 0 then
        (case set_running_or_notify_cancel (F ! it_future x) of
           (True, f) \<Rightarrow> take_locked mb (cap - 1) queue (batch @ [x]) (F[it_future x := f])
         | (False, f) \<Rightarrow> take_locked mb cap queue batch (F[it_future x := f]))
      else (x # queue, batch, F))"

definition compose_locked :: "embedding_scheduler \<Rightarrow> item list \<times> embedding_scheduler" where
  "compose_locked s =
     (let allow = background_admissible s;
          reserved = (if allow then background_floor s else 0);
          mb = max_batch_size s in
      case take_locked mb (mb - reserved) (es_live s) [] (es_futures s) of (live, batch, F) \<Rightarrow>
      case (if allow then take_locked mb (mb - length batch) (es_background s) batch F
            else (es_background s, batch, F)) of (bg, batch, F) \<Rightarrow>
      case take_locked mb (mb - length batch) live batch F of (live, batch, F) \<Rightarrow>
        (batch, s\<lparr>es_live := live, es_background := bg, es_futures := F\<rparr>))"

definition carries_background :: "item list \<Rightarrow> bool" where
  "carries_background batch = list_ex (\<lambda>x. it_class x = CLASS_BACKGROUND) batch"

text \<open>The end of \<open>_collect_batch\<close>: the worker claims its capacity with the batch.\<close>

definition collect_batch :: "embedding_scheduler \<Rightarrow> item list \<times> embedding_scheduler" where
  "collect_batch s =
     (case compose_locked s of (batch, s) \<Rightarrow>
        (batch, if batch = [] then s
                else s\<lparr>busy_workers := busy_workers s + 1,
                  background_inflight := background_inflight s + (if carries_background batch then 1 else 0)\<rparr>))"

definition complete_batch_with_error ::
  "item list \<Rightarrow> sched_error \<Rightarrow> embedding_scheduler \<Rightarrow> embedding_scheduler" where
  "complete_batch_with_error batch err s =
     s\<lparr>es_futures := settle_all (map (\<lambda>x. (it_future x, FError err)) batch) (es_futures s)\<rparr>"

text \<open>\<open>_run_batch\<close>; \<open>outcome\<close> is what \<open>encode_batch\<close> raised or returned.\<close>

definition run_batch ::
  "item list \<Rightarrow> sched_error + vector list \<Rightarrow> embedding_scheduler \<Rightarrow> embedding_scheduler" where
  "run_batch batch outcome s =
     (let s = s\<lparr>inference_calls := inference_calls s + 1\<rparr> in
      case outcome of
        Inl err \<Rightarrow> complete_batch_with_error batch err s
      | Inr vectors \<Rightarrow>
          if length vectors \<noteq> length batch then complete_batch_with_error batch ResultMismatch s
          else s\<lparr>items_embedded := items_embedded s + length batch,
                 es_futures := settle_all (map (\<lambda>(x, v). (it_future x, FDone v)) (zip batch vectors))
                   (es_futures s)\<rparr>)"

text \<open>The \<open>finally\<close> block of \<open>_run\<close>.\<close>

definition worker_release :: "item list \<Rightarrow> embedding_scheduler \<Rightarrow> embedding_scheduler" where
  "worker_release batch s =
     s\<lparr>busy_workers := busy_workers s - 1,
       background_inflight := background_inflight s - (if carries_background batch then 1 else 0)\<rparr>"

definition close :: "bool \<Rightarrow> embedding_scheduler \<Rightarrow> embedding_scheduler" where
  "close drain s = s\<lparr>es_closed := True, drain_pending := drain\<rparr>"

definition fail_remaining :: "embedding_scheduler \<Rightarrow> embedding_scheduler" where
  "fail_remaining s =
     s\<lparr>es_live := [], es_background := [],
       es_futures := fail_all SchedulerClosed (map it_future (es_live s @ es_background s)) (es_futures s)\<rparr>"

section \<open>Batches\<close>

lemma take_locked_prefix:
  "distinct (map it_future q) \<Longrightarrow> take_locked mb cap q b F = (q', b', F') \<Longrightarrow>
     \<exists>pre. q = pre @ q' \<and> b' = b @ filter (\<lambda>x. F ! it_future x = FPending) pre
       \<and> F' = start_all (map it_future pre) F"
proof (induction mb cap q b F rule: take_locked.induct)
  case (2 mb cap x q b F)
  let ?i = "it_future x"
  have other: "start ?i F ! it_future y = F ! it_future y" if "y \<in> set q" for y
    using 2(3) that by (auto intro!: nth_start_other)
  show ?case
  proof (cases "length b < mb \<and> cap > 0")
    case True
    have "\<exists>pre. q = pre @ q' \<and> b' = (b @ (if F ! ?i = FPending then [x] else []))
        @ filter (\<lambda>y. start ?i F ! it_future y = FPending) pre \<and> F' = start_all (map it_future pre) (start ?i F)"
      using 2 True by (cases "F ! ?i") (auto simp: start_def)
    then obtain pre where p: "q = pre @ q'" "F' = start_all (map it_future (x # pre)) F"
      "b' = (b @ (if F ! ?i = FPending then [x] else [])) @ filter (\<lambda>y. start ?i F ! it_future y = FPending) pre"
      by auto
    have "filter (\<lambda>y. start ?i F ! it_future y = FPending) pre = filter (\<lambda>y. F ! it_future y = FPending) pre"
      using other p(1) by (auto intro!: filter_cong)
    with p show ?thesis by (intro exI [of _ "x # pre"]) auto
  next
    case False
    with 2 show ?thesis by (intro exI [of _ "[]"]) auto
  qed
qed auto

interpretation es_take: batch_take "take_locked mb cap" it_future for mb cap
  by unfold_locales (rule take_locked_prefix)

abbreviation count_pending :: "item list \<Rightarrow> vector fut list \<Rightarrow> nat" where
  "count_pending q F \<equiv> length (filter (\<lambda>x. F ! it_future x = FPending) q)"

text \<open>A take fills the batch as far as pending work, its capacity and the batch size allow.\<close>

lemma take_locked_count:
  "distinct (map it_future q) \<Longrightarrow> take_locked mb cap q b F = (q', b', F') \<Longrightarrow> length b \<le> mb \<Longrightarrow>
     length b' = length b + min (count_pending q F) (min cap (mb - length b))"
proof (induction mb cap q b F rule: take_locked.induct)
  case (2 mb cap x q b F)
  let ?i = "it_future x"
  have "start ?i F ! it_future y = F ! it_future y" if "y \<in> set q" for y
    using 2(3) that by (auto intro!: nth_start_other)
  then have same: "count_pending q (start ?i F) = count_pending q F"
    by (auto intro!: arg_cong [where f = length] filter_cong)
  show ?case
  proof (cases "length b < mb \<and> cap > 0")
    case True
    show ?thesis
    proof (cases "F ! ?i = FPending")
      case p: True
      then have "length b' = length (b @ [x]) + min (count_pending q (start ?i F)) (min (cap - 1) (mb - length (b @ [x])))"
        using 2 True by (auto simp: start_def)
      with p True show ?thesis by (simp add: same) linarith
    next
      case np: False
      then have "length b' = length b + min (count_pending q (start ?i F)) (min cap (mb - length b))"
        using 2 True by (cases "F ! ?i") (auto simp: start_def)
      with np show ?thesis by (simp add: same)
    qed
  next
    case False
    with 2 show ?thesis by auto
  qed
qed auto

definition classes_ok :: "embedding_scheduler \<Rightarrow> bool" where
  "classes_ok s \<longleftrightarrow> list_all (\<lambda>x. it_class x = CLASS_LIVE) (es_live s)
     \<and> list_all (\<lambda>x. it_class x = CLASS_BACKGROUND) (es_background s)"

lemma compose_elim:
  assumes "compose_locked s = (batch, s')"
    and d: "distinct (map it_future (es_live s @ es_background s))"
  obtains live1 b1 F1 bg b2 F2 live2 F3 where
    "take_locked (max_batch_size s) (max_batch_size s - (if background_admissible s then background_floor s else 0))
       (es_live s) [] (es_futures s) = (live1, b1, F1)"
    "(if background_admissible s then take_locked (max_batch_size s) (max_batch_size s - length b1) (es_background s) b1 F1
      else (es_background s, b1, F1)) = (bg, b2, F2)"
    "take_locked (max_batch_size s) (max_batch_size s - length b2) live1 b2 F2 = (live2, batch, F3)"
    "s' = s\<lparr>es_live := live2, es_background := bg, es_futures := F3\<rparr>"
    "distinct (map it_future (es_live s))" "distinct (map it_future (es_background s))"
    "distinct (map it_future live1)"
proof -
  have dl: "distinct (map it_future (es_live s))" "distinct (map it_future (es_background s))" using d by auto
  obtain live1 b1 F1 where 1: "take_locked (max_batch_size s)
      (max_batch_size s - (if background_admissible s then background_floor s else 0))
      (es_live s) [] (es_futures s) = (live1, b1, F1)" by (metis prod_cases3)
  obtain bg b2 F2 where 2: "(if background_admissible s
      then take_locked (max_batch_size s) (max_batch_size s - length b1) (es_background s) b1 F1
      else (es_background s, b1, F1)) = (bg, b2, F2)" by (metis prod_cases3)
  obtain live2 b3 F3 where 3: "take_locked (max_batch_size s) (max_batch_size s - length b2) live1 b2 F2
      = (live2, b3, F3)" by (metis prod_cases3)
  have "distinct (map it_future live1)"
    using es_take.tk_queue [OF dl(1) 1] dl(1) by (auto simp: suffix_def)
  moreover have "compose_locked s = (b3, s\<lparr>es_live := live2, es_background := bg, es_futures := F3\<rparr>)"
    unfolding compose_locked_def Let_def by (simp only: 1 2 3 prod.case)
  ultimately show ?thesis using that [OF 1 2] 3 dl assms(1) by simp
qed

lemma compose_ledger:
  assumes c: "compose_locked s = (batch, s')"
    and l: "ledger_ok (map it_future (es_live s @ es_background s)) R (es_futures s)"
  shows "ledger_ok (map it_future (es_live s' @ es_background s')) (map it_future batch @ R) (es_futures s')"
proof -
  have "distinct (map it_future (es_live s @ es_background s))"
    using l unfolding ledger_ok_def distinct_append by blast
  from compose_elim [OF c this] obtain live1 b1 F1 bg b2 F2 live2 F3 where
    1: "take_locked (max_batch_size s) (max_batch_size s - (if background_admissible s then background_floor s else 0))
       (es_live s) [] (es_futures s) = (live1, b1, F1)"
    and 2: "(if background_admissible s then take_locked (max_batch_size s) (max_batch_size s - length b1) (es_background s) b1 F1
      else (es_background s, b1, F1)) = (bg, b2, F2)"
    and 3: "take_locked (max_batch_size s) (max_batch_size s - length b2) live1 b2 F2 = (live2, batch, F3)"
    and s': "s' = s\<lparr>es_live := live2, es_background := bg, es_futures := F3\<rparr>" by metis
  have "ledger_ok (map it_future (es_live s) @ map it_future (es_background s)) (map it_future [] @ R) (es_futures s)"
    using l by simp
  then have "ledger_ok (map it_future live1 @ map it_future (es_background s)) (map it_future b1 @ R) F1"
    by (rule es_take.tk_ledger [OF _ 1])
  then have "ledger_ok (map it_future (es_background s) @ map it_future live1) (map it_future b1 @ R) F1"
    by (rule ledger_perm) simp_all
  then have "ledger_ok (map it_future bg @ map it_future live1) (map it_future b2 @ R) F2"
    using 2 es_take.tk_ledger by (auto split: if_splits)
  then have "ledger_ok (map it_future live1 @ map it_future bg) (map it_future b2 @ R) F2"
    by (rule ledger_perm) simp_all
  then have "ledger_ok (map it_future live2 @ map it_future bg) (map it_future batch @ R) F3"
    by (rule es_take.tk_ledger [OF _ 3])
  then show ?thesis by (simp add: s')
qed

lemma pending_start_all:
  "set (map it_future q) \<inter> set is = {} \<Longrightarrow>
     filter (\<lambda>x. start_all is F ! it_future x = FPending) q = filter (\<lambda>x. F ! it_future x = FPending) q"
proof (rule filter_cong [OF refl])
  fix x assume d: "set (map it_future q) \<inter> set is = {}" and "x \<in> set q"
  then have "it_future x \<notin> set is" by auto
  then show "(start_all is F ! it_future x = FPending) = (F ! it_future x = FPending)"
    by (simp add: start_all_other)
qed

lemma filter_class: "\<forall>x\<in>set xs. P x \<Longrightarrow> filter (\<lambda>x. Q x \<and> P x) xs = filter Q xs"
  by (induction xs) auto

text \<open>
  The shape of a composed batch: a prefix of the live queue, a prefix of the
  background queue and the next part of the live queue, without the cancelled items.
\<close>

lemma compose_parts:
  assumes c: "compose_locked s = (batch, s')"
    and d: "distinct (map it_future (es_live s @ es_background s))"
    and mb: "max_batch_size s = mb" and F: "es_futures s = F"
  shows "\<exists>p1 p2 p3. es_live s = p1 @ p3 @ es_live s' \<and> es_background s = p2 @ es_background s'
    \<and> batch = filter (\<lambda>x. F ! it_future x = FPending) (p1 @ p2 @ p3)
    \<and> count_pending p1 F = min (count_pending (es_live s) F) (mb - (if background_admissible s then background_floor s else 0))
    \<and> count_pending p2 F = (if background_admissible s
        then min (count_pending (es_background s) F) (mb - count_pending p1 F) else 0)
    \<and> count_pending p3 F = min (count_pending (es_live s) F - count_pending p1 F)
        (mb - count_pending p1 F - count_pending p2 F)"
proof -
  obtain live1 b1 F1 bg b2 F2 live2 F3 where
    1: "take_locked mb (mb - (if background_admissible s then background_floor s else 0)) (es_live s) [] F = (live1, b1, F1)"
    and 2: "(if background_admissible s then take_locked mb (mb - length b1) (es_background s) b1 F1
      else (es_background s, b1, F1)) = (bg, b2, F2)"
    and 3: "take_locked mb (mb - length b2) live1 b2 F2 = (live2, batch, F3)"
    and s': "s' = s\<lparr>es_live := live2, es_background := bg, es_futures := F3\<rparr>"
    and dl: "distinct (map it_future (es_live s))" and db: "distinct (map it_future (es_background s))"
    and dl1: "distinct (map it_future live1)"
    using compose_elim [OF c d] unfolding mb F by metis
  obtain p1 where p1: "es_live s = p1 @ live1" "b1 = filter (\<lambda>x. F ! it_future x = FPending) p1"
    "F1 = start_all (map it_future p1) F"
    using es_take.tk_prefix [OF dl 1] by auto
  have n1: "length b1 = min (count_pending (es_live s) F) (mb - (if background_admissible s then background_floor s else 0))"
    using take_locked_count [OF dl 1] by simp
  have disj: "set (map it_future (es_live s)) \<inter> set (map it_future (es_background s)) = {}" using d by auto
  have bgF1: "filter (\<lambda>x. F1 ! it_future x = FPending) q = filter (\<lambda>x. F ! it_future x = FPending) q"
    if "set q \<subseteq> set (es_background s)" for q
    unfolding p1(3) by (rule pending_start_all) (use disj that p1(1) in auto)
  obtain p2 where p2: "es_background s = p2 @ bg" "b2 = b1 @ filter (\<lambda>x. F ! it_future x = FPending) p2"
    "F2 = start_all (map it_future p2) F1"
    "count_pending p2 F = (if background_admissible s then min (count_pending (es_background s) F) (mb - length b1) else 0)"
  proof (cases "background_admissible s")
    case True
    with 2 have t: "take_locked mb (mb - length b1) (es_background s) b1 F1 = (bg, b2, F2)" by simp
    from es_take.tk_prefix [OF db t] obtain p2 where p: "es_background s = p2 @ bg"
      "b2 = b1 @ filter (\<lambda>x. F1 ! it_future x = FPending) p2" "F2 = start_all (map it_future p2) F1" by auto
    have "length b2 = length b1 + min (count_pending (es_background s) F1) (min (mb - length b1) (mb - length b1))"
      by (rule take_locked_count [OF db t]) (use n1 in simp)
    then show ?thesis using that [of p2] p bgF1 True by simp
  next
    case False
    with 2 that [of "[]"] show ?thesis by simp
  qed
  obtain p3 where p3: "live1 = p3 @ live2" "batch = b2 @ filter (\<lambda>x. F2 ! it_future x = FPending) p3"
    using es_take.tk_prefix [OF dl1 3] by auto
  have F2: "filter (\<lambda>x. F2 ! it_future x = FPending) q = filter (\<lambda>x. F ! it_future x = FPending) q"
    if "set q \<subseteq> set live1" for q
  proof -
    have "it_future ` set q \<subseteq> it_future ` set live1" using that by blast
    moreover have "it_future ` set live1 \<inter> it_future ` set (p1 @ p2) = {}"
      using d p1(1) p2(1) by auto
    ultimately have "set (map it_future q) \<inter> set (map it_future (p1 @ p2)) = {}" by auto
    then show ?thesis unfolding p2(3) p1(3) start_all_append [symmetric] map_append [symmetric]
      by (rule pending_start_all)
  qed
  have "length b1 \<le> mb" using n1 by simp
  then have "length b2 \<le> mb" using p2(2,4) by (simp split: if_splits)
  have c3: "length batch = length b2 + min (count_pending live1 F2) (min (mb - length b2) (mb - length b2))"
    by (rule take_locked_count [OF dl1 3 \<open>length b2 \<le> mb\<close>])
  have batch: "batch = filter (\<lambda>x. F ! it_future x = FPending) (p1 @ p2 @ p3)"
    using p1(2) p2(2) p3 F2 [of p3] by simp
  have "count_pending live1 F2 = count_pending (es_live s) F - length b1"
    using F2 [of live1] p1(1,2) by simp
  moreover have "length b2 = length b1 + count_pending p2 F" using p2(2) by simp
  moreover have "length batch = length b2 + count_pending p3 F" using p3(2) p3(1) F2 [of p3] by simp
  ultimately have n3: "count_pending p3 F = min (count_pending (es_live s) F - length b1) (mb - length b1 - count_pending p2 F)"
    using c3 by simp
  have b1: "length b1 = count_pending p1 F" using p1(2) by simp
  have "es_live s = p1 @ p3 @ es_live s'" "es_background s = p2 @ es_background s'"
    unfolding p1(1) p3(1) p2(1) s' by simp_all
  with batch n1 [unfolded b1] p2(4) [unfolded b1] n3 [unfolded b1] show ?thesis by blast
qed

lemma shares:
  fixes nL nB mb fl :: nat
  assumes "l1 = min nL (mb - fl)" "l2 = min nB (mb - l1)" "l3 = min (nL - l1) (mb - l1 - l2)" "fl \<le> mb"
  shows "l1 + l2 + l3 = min mb (nL + nB) \<and> l2 \<ge> min nB fl \<and> l1 + l3 \<ge> min nL (mb - fl)"
proof (cases "nL \<le> mb - fl")
  case True
  then have "l1 = nL" "l3 = 0" using assms by auto
  with True assms show ?thesis by (auto simp: min_def)
next
  case False
  then have l1: "l1 = mb - fl" "mb - l1 = fl" using assms by auto
  show ?thesis
  proof (cases "nB \<le> fl")
    case b: True
    then have "l2 = nB" using assms l1 by simp
    with l1 b False assms show ?thesis by (auto simp: min_def)
  next
    case b: False
    then have "l2 = fl" "l3 = 0" using assms l1 by auto
    with l1 b False assms show ?thesis by (auto simp: min_def)
  qed
qed

text \<open>
  C31.  A batch is filled fairly and completely: with \<open>L\<close> live and \<open>B\<close> admissible
  background items that are not cancelled, it holds \<open>min max_batch_size (L + B)\<close> items, at
  least \<open>min B background_floor\<close> of them background and at least
  \<open>min L (max_batch_size - background_floor)\<close> of them live, each class in order of arrival.
\<close>

theorem compose_fair:
  assumes "compose_locked s = (batch, s')" "distinct (map it_future (es_live s @ es_background s))"
    and cls: "classes_ok s" and floor: "background_floor s \<le> max_batch_size s"
    and L: "L = filter (\<lambda>x. es_futures s ! it_future x = FPending) (es_live s)"
    and B: "B = (if background_admissible s
        then filter (\<lambda>x. es_futures s ! it_future x = FPending) (es_background s) else [])"
  shows "length batch = min (max_batch_size s) (length L + length B)
    \<and> prefix (filter (\<lambda>x. it_class x = CLASS_LIVE) batch) L
    \<and> prefix (filter (\<lambda>x. it_class x = CLASS_BACKGROUND) batch) B
    \<and> length (filter (\<lambda>x. it_class x = CLASS_BACKGROUND) batch) \<ge> min (length B) (background_floor s)
    \<and> length (filter (\<lambda>x. it_class x = CLASS_LIVE) batch) \<ge> min (length L) (max_batch_size s - background_floor s)"
proof -
  let ?P = "\<lambda>x. es_futures s ! it_future x = FPending"
  obtain p1 p2 p3 where p: "es_live s = p1 @ p3 @ es_live s'" "es_background s = p2 @ es_background s'"
    "batch = filter ?P (p1 @ p2 @ p3)"
    "length (filter ?P p1) = min (length L) (max_batch_size s - (if background_admissible s then background_floor s else 0))"
    "length (filter ?P p2) = (if background_admissible s then min (length (filter ?P (es_background s)))
        (max_batch_size s - length (filter ?P p1)) else 0)"
    "length (filter ?P p3) = min (length L - length (filter ?P p1))
        (max_batch_size s - length (filter ?P p1) - length (filter ?P p2))"
    using compose_parts [OF assms(1,2) refl refl] unfolding L by metis
  have lv: "filter (\<lambda>x. it_class x = CLASS_LIVE) batch = filter ?P (p1 @ p3)"
    and bg: "filter (\<lambda>x. it_class x = CLASS_BACKGROUND) batch = filter ?P p2"
    using cls unfolding p(3) classes_ok_def p(1,2)
    by (simp_all add: list_all_iff filter_class filter_empty_conv)
  have pl: "prefix (filter ?P (p1 @ p3)) L" unfolding L p(1) by auto
  have pb: "prefix (filter ?P p2) B"
    using p(5) unfolding B p(2) by (auto split: if_splits)
  define l1 l2 l3 where l: "l1 = length (filter ?P p1)" "l2 = length (filter ?P p2)" "l3 = length (filter ?P p3)"
  define nL nB where n: "nL = length L" "nB = length (filter ?P (es_background s))"
  note q = p(4,5,6) [folded l n]
  have "l1 + l2 + l3 = min (max_batch_size s) (nL + length B) \<and> l2 \<ge> min (length B) (background_floor s)
      \<and> l1 + l3 \<ge> min nL (max_batch_size s - background_floor s)"
  proof (cases "background_admissible s")
    case True
    then have "length B = nB" unfolding B n by simp
    moreover from True have "l1 = min nL (max_batch_size s - background_floor s)"
      "l2 = min nB (max_batch_size s - l1)" using q(1,2) by (simp_all only: if_True)
    ultimately show ?thesis using shares [OF _ _ q(3) floor] by simp
  next
    case False
    then have "length B = 0" unfolding B by simp
    moreover have "l1 = min nL (max_batch_size s)" using q(1) False by simp
    moreover have "l2 = 0" using q(2) False by simp
    moreover note q(3)
    ultimately show ?thesis by (simp add: min_def) linarith
  qed
  moreover have "length batch = l1 + l2 + l3" "length (filter ?P (p1 @ p3)) = l1 + l3"
    unfolding p(3) l by simp_all
  ultimately show ?thesis unfolding lv bg using pl pb l(2) n(1) by metis
qed

definition mixed_item :: "sched_class \<Rightarrow> nat \<Rightarrow> item" where
  "mixed_item c i = \<lparr>it_text = ''x'', it_class = c, it_future = i, enqueued_at = 0\<rparr>"

definition mixed_sched :: embedding_scheduler where
  "mixed_sched = \<lparr>max_batch_size = 3, max_pending_items = 9, live_reserve = 3, background_floor = 1,
     max_background_inflight = 1, inference_workers = 1, es_available = True,
     es_live = map (mixed_item CLASS_LIVE) [0, 1, 2, 3], es_background = map (mixed_item CLASS_BACKGROUND) [4, 5],
     es_closed = False, drain_pending = True, inference_calls = 0, items_embedded = 0, busy_workers = 0,
     background_inflight = 0, es_futures = FCancelled # replicate 5 FPending, es_rejections = [], es_timeouts = []\<rparr>"

lemmas mixed_defs = mixed_sched_def mixed_item_def background_admissible_def numeral_eq_Suc

lemma mixed_compose:
  "compose_locked mixed_sched = ([mixed_item CLASS_LIVE 1, mixed_item CLASS_LIVE 2, mixed_item CLASS_BACKGROUND 4],
     snd (compose_locked mixed_sched))"
  by (simp add: compose_locked_def mixed_defs Let_def)

theorem compose_fair_witness:
  "length [mixed_item CLASS_LIVE 1, mixed_item CLASS_LIVE 2, mixed_item CLASS_BACKGROUND 4] = min 3 (3 + 2)"
  using compose_fair [OF mixed_compose _ _ _ refl refl]
  by (simp add: mixed_defs classes_ok_def)

end
