(* ===== verification/Embedding_Scheduler_Safety.thy ===== *)
theory Embedding_Scheduler_Safety
  imports Embedding_Scheduler
begin

text \<open>
  The embedding scheduler under arbitrary interleaving of submitters, workers and
  shutdown: bounded queues and workers, the capacity kept free for live work, every
  future accounted for, and every result the embedding of its own text.
\<close>

section \<open>The system\<close>

text \<open>
  The scheduler, the batches workers are running, and the text each future was
  created for.  \<open>enc texts out\<close>: the model may answer \<open>out\<close> on \<open>texts\<close>.
\<close>

type_synonym es_system = "embedding_scheduler \<times> item list list \<times> string list"

inductive es_step ::
  "(string list \<Rightarrow> sched_error + vector list \<Rightarrow> bool) \<Rightarrow> es_system \<Rightarrow> es_system \<Rightarrow> bool" for enc where
  es_submit: "encode_submit c texts now expired s = (Inr (Some is), s') \<Longrightarrow>
    es_step enc (s, rs, tx) (s', rs, tx @ texts)"
| es_refuse: "encode_submit c texts now expired s = (Inl err, s') \<Longrightarrow> es_step enc (s, rs, tx) (s', rs, tx)"
| es_give_up: "es_step enc (s, rs, tx) (cancel_all is s, rs, tx)"
| es_time_out: "encode_timeout c is s = (err, s') \<Longrightarrow> es_step enc (s, rs, tx) (s', rs, tx)"
| es_collect: "length rs < inference_workers s \<Longrightarrow> collect_batch s = (b, s') \<Longrightarrow>
    es_step enc (s, rs, tx) (s', if b = [] then rs else b # rs, tx)"
| es_finish: "b \<in> set rs \<Longrightarrow> enc (map it_text b) out \<Longrightarrow>
    es_step enc (s, rs, tx) (worker_release b (run_batch b out s), remove1 b rs, tx)"
| es_close: "es_step enc (s, rs, tx) (close drain s, rs, tx)"
| es_fail: "es_step enc (s, rs, tx) (fail_remaining s, rs, tx)"

section \<open>Invariants\<close>

definition es_bounds :: "es_system \<Rightarrow> bool" where
  "es_bounds sys = (case sys of (s, rs, tx) \<Rightarrow>
     total_pending s \<le> max_pending_items s
     \<and> length (es_background s) \<le> pending_limit CLASS_BACKGROUND s
     \<and> busy_workers s = length rs \<and> length rs \<le> inference_workers s
     \<and> background_inflight s = length (filter carries_background rs)
     \<and> background_inflight s \<le> max_background_inflight s
     \<and> 1 \<le> max_batch_size s \<and> list_all (\<lambda>b. b \<noteq> [] \<and> length b \<le> max_batch_size s) rs
     \<and> max_batch_size s \<le> max_pending_items s \<and> classes_ok s)"

definition texts_ok :: "string list \<Rightarrow> item list \<Rightarrow> bool" where
  "texts_ok tx xs \<longleftrightarrow> (\<forall>x\<in>set xs. it_future x < length tx \<and> tx ! it_future x = it_text x)"

definition es_ledger :: "es_system \<Rightarrow> bool" where
  "es_ledger sys = (case sys of (s, rs, tx) \<Rightarrow>
     ledger_ok (map it_future (es_live s @ es_background s)) (map it_future (concat rs)) (es_futures s)
     \<and> length tx = length (es_futures s)
     \<and> texts_ok tx (es_live s @ es_background s @ concat rs))"

lemma encode_submit_ok:
  assumes "encode_submit c texts now expired s = (Inr (Some is), s')"
  shows "texts = [] \<and> s' = s \<or> texts \<noteq> [] \<and> s' = enqueue c texts now s
    \<and> total_pending s + length texts \<le> pending_limit c s"
  using assms by (auto simp: encode_submit_def admit_def Let_def split: if_splits)

lemma compose_keeps:
  assumes "compose_locked s = (b, s')"
  shows "\<exists>l g F. s' = s\<lparr>es_live := l, es_background := g, es_futures := F\<rparr>"
  using assms by (auto simp: compose_locked_def Let_def split: prod.splits)

lemma take_locked_length: "take_locked mb cap q b F = (q', b', F') \<Longrightarrow> length F' = length F"
  by (induction mb cap q b F rule: take_locked.induct) (auto split: prod.splits bool.splits if_splits)

lemma compose_length: "compose_locked s = (b, s') \<Longrightarrow> length (es_futures s') = length (es_futures s)"
  by (auto simp: compose_locked_def Let_def dest!: take_locked_length split: prod.splits if_split_asm)

lemma compose_bounds:
  assumes c: "compose_locked s = (b, s')" and l: "es_ledger (s, rs, tx)" and cls: "classes_ok s"
  shows "length b \<le> max_batch_size s" "classes_ok s'" "length (es_live s') \<le> length (es_live s)"
    "length (es_background s') \<le> length (es_background s)"
    "carries_background b \<Longrightarrow> background_admissible s"
proof -
  have d: "distinct (map it_future (es_live s @ es_background s))"
    using l unfolding es_ledger_def ledger_ok_def by auto
  obtain p1 p2 p3 where p: "es_live s = p1 @ p3 @ es_live s'" "es_background s = p2 @ es_background s'"
    "b = filter (\<lambda>x. es_futures s ! it_future x = FPending) (p1 @ p2 @ p3)"
    "count_pending p1 (es_futures s) = min (count_pending (es_live s) (es_futures s))
       (max_batch_size s - (if background_admissible s then background_floor s else 0))"
    "count_pending p2 (es_futures s) = (if background_admissible s then
       min (count_pending (es_background s) (es_futures s)) (max_batch_size s - count_pending p1 (es_futures s)) else 0)"
    "count_pending p3 (es_futures s) = min (count_pending (es_live s) (es_futures s) - count_pending p1 (es_futures s))
       (max_batch_size s - count_pending p1 (es_futures s) - count_pending p2 (es_futures s))"
    using compose_parts [OF c d refl refl] by metis
  have "count_pending p1 (es_futures s) \<le> max_batch_size s" unfolding p(4) by simp
  moreover have "count_pending p2 (es_futures s) \<le> max_batch_size s - count_pending p1 (es_futures s)"
    unfolding p(5) by simp
  moreover have "count_pending p3 (es_futures s)
      \<le> max_batch_size s - count_pending p1 (es_futures s) - count_pending p2 (es_futures s)"
    unfolding p(6) by simp
  moreover have "length b = count_pending p1 (es_futures s) + count_pending p2 (es_futures s)
      + count_pending p3 (es_futures s)" unfolding p(3) by simp
  ultimately show "length b \<le> max_batch_size s" by linarith
  show "classes_ok s'" using cls p(1,2) by (simp add: classes_ok_def)
  show "length (es_live s') \<le> length (es_live s)" "length (es_background s') \<le> length (es_background s)"
    using p(1,2) by simp_all
  assume "carries_background b"
  moreover have "list_all (\<lambda>x. it_class x = CLASS_LIVE) (p1 @ p3)"
    using cls p(1) by (simp add: classes_ok_def)
  ultimately have "filter (\<lambda>x. es_futures s ! it_future x = FPending) p2 \<noteq> []"
    by (auto simp: carries_background_def p(3) list_ex_iff list_all_iff filter_empty_conv)
  then show "background_admissible s" using p(5) by (auto split: if_splits)
qed

lemma enqueue_bounds:
  assumes "es_bounds (s, rs, tx)" "total_pending s + length texts \<le> pending_limit c s"
  shows "es_bounds (enqueue c texts now s, rs, tx')"
proof (cases c)
  case CLASS_LIVE
  with assms show ?thesis
    by (auto simp: es_bounds_def enqueue_def Let_def total_pending_def pending_limit_def classes_ok_def
        list_all_iff)
next
  case CLASS_BACKGROUND
  have "pending_limit CLASS_BACKGROUND s \<le> max_pending_items s"
    using assms(1) by (auto simp: es_bounds_def pending_limit_def)
  with CLASS_BACKGROUND assms show ?thesis
    by (auto simp: es_bounds_def enqueue_def Let_def total_pending_def pending_limit_def classes_ok_def
        list_all_iff)
qed

abbreviation new_items :: "sched_class \<Rightarrow> real \<Rightarrow> nat \<Rightarrow> string list \<Rightarrow> item list" where
  "new_items c now n texts \<equiv>
     map (\<lambda>(i, x). \<lparr>it_text = x, it_class = c, it_future = i, enqueued_at = now\<rparr>) (enumerate n texts)"

lemma new_items_futures: "map it_future (new_items c now n texts) = [n ..< n + length texts]"
  by (simp add: comp_def case_prod_beta)

lemma texts_ok_append [simp]: "texts_ok tx (xs @ ys) \<longleftrightarrow> texts_ok tx xs \<and> texts_ok tx ys"
  by (auto simp: texts_ok_def)

lemma texts_ok_more: "texts_ok tx xs \<Longrightarrow> texts_ok (tx @ ts) xs"
  by (auto simp: texts_ok_def nth_append)

lemma texts_ok_new: "length tx = n \<Longrightarrow> texts_ok (tx @ texts) (new_items c now n texts)"
  by (auto simp: texts_ok_def in_set_enumerate_eq nth_append)

lemma es_ledger_iff:
  "es_ledger (s, rs, tx) \<longleftrightarrow>
     ledger_ok (map it_future (es_live s @ es_background s)) (map it_future (concat rs)) (es_futures s)
     \<and> length tx = length (es_futures s) \<and> texts_ok tx (es_live s @ es_background s @ concat rs)"
  by (simp only: es_ledger_def prod.case)

lemma enqueue_ledger:
  assumes l: "es_ledger (s, rs, tx)"
  shows "es_ledger (enqueue c texts now s, rs, tx @ texts)"
proof -
  let ?n = "length (es_futures s)" and ?F = "es_futures s @ replicate (length texts) FPending"
  let ?R = "map it_future (concat rs)" and ?new = "new_items c now (length (es_futures s)) texts"
  have n: "length tx = ?n" and l': "ledger_ok (map it_future (es_live s @ es_background s)) ?R (es_futures s)"
    and t: "texts_ok tx (es_live s @ es_background s @ concat rs)"
    using l by (simp_all only: es_ledger_iff)
  have 1: "ledger_ok (map it_future (es_live s @ es_background s) @ map it_future ?new) ?R ?F"
    unfolding new_items_futures by (rule ledger_admit [OF l'])
  have t': "texts_ok (tx @ texts) (es_live s @ es_background s @ concat rs)" "texts_ok (tx @ texts) ?new"
    using t n by (auto intro: texts_ok_more texts_ok_new simp del: texts_ok_append)
  have 2: "ledger_ok (map it_future ((es_live s @ ?new) @ es_background s)) ?R ?F"
    "ledger_ok (map it_future (es_live s @ es_background s @ ?new)) ?R ?F"
    by (rule ledger_perm [OF 1]; simp only: map_append mset_append ac_simps)+
  have len: "length (tx @ texts) = length ?F" using n by simp
  show ?thesis
  proof (cases c)
    case CLASS_LIVE
    then have e: "enqueue c texts now s = s\<lparr>es_futures := ?F, es_live := es_live s @ ?new\<rparr>"
      by (simp add: enqueue_def Let_def)
    from 2(1) len t' show ?thesis unfolding es_ledger_iff e by simp
  next
    case CLASS_BACKGROUND
    then have e: "enqueue c texts now s = s\<lparr>es_futures := ?F, es_background := es_background s @ ?new\<rparr>"
      by (simp add: enqueue_def Let_def)
    from 2(2) len t' show ?thesis unfolding es_ledger_iff e by simp
  qed
qed

lemma ledger_cancel_all:
  fixes F :: "'r fut list"
  shows "ledger_ok Q R F \<Longrightarrow> ledger_ok Q R (fold (\<lambda>i F. F[i := fut_cancel (F ! i)]) is F)"
  by (induction "is" arbitrary: F) (auto simp: ledger_cancel)

lemma length_cancel_all [simp]:
  fixes F :: "'r fut list"
  shows "length (fold (\<lambda>i F. F[i := fut_cancel (F ! i)]) is F) = length F"
  by (induction "is" arbitrary: F) auto

lemma cancel_ledger: "es_ledger (s, rs, tx) \<Longrightarrow> es_ledger (cancel_all is s, rs, tx)"
  by (simp add: es_ledger_iff cancel_all_def ledger_cancel_all)

lemma cancel_done:
  "fold (\<lambda>i F. F[i := fut_cancel (F ! i)]) is F ! i = FDone v \<Longrightarrow> F ! i = FDone v"
proof (induction "is" arbitrary: F)
  case (Cons j "is")
  then have "F[j := fut_cancel (F ! j)] ! i = FDone v" by simp
  then show ?case
    by (cases "i = j"; cases "j < length F"; cases "F ! j") (auto simp: list_update_beyond)
qed simp

lemma run_batch_settles:
  "\<exists>xs n. run_batch b out s = s\<lparr>es_futures := settle_all xs (es_futures s), inference_calls := inference_calls s + 1,
       items_embedded := n\<rparr>
     \<and> map fst xs = map it_future b \<and> list_all (\<lambda>(i, r). terminal r) xs
     \<and> (\<forall>i v. (i, FDone v) \<in> set xs \<longrightarrow> (\<exists>vs x. out = Inr vs \<and> length vs = length b
          \<and> (x, v) \<in> set (zip b vs) \<and> i = it_future x))"
proof -
  have err: "?thesis" if "run_batch b out s = complete_batch_with_error b e (s\<lparr>inference_calls := inference_calls s + 1\<rparr>)" for e
    by (rule exI [of _ "map (\<lambda>x. (it_future x, FError e)) b"], rule exI [of _ "items_embedded s"])
      (auto simp: that complete_batch_with_error_def list_all_iff)
  show ?thesis
  proof (cases out)
    case (Inl e)
    then show ?thesis by (intro err [of e]) (simp add: run_batch_def)
  next
    case (Inr vs)
    show ?thesis
    proof (cases "length vs = length b")
      case True
      have "map fst (map (\<lambda>(x, v). (it_future x, FDone v)) (zip b vs)) = map it_future (map fst (zip b vs))"
        unfolding map_map comp_def case_prod_beta by simp
      also have "\<dots> = map it_future b" using True by simp
      finally have "map fst (map (\<lambda>(x, v). (it_future x, FDone v)) (zip b vs)) = map it_future b" .
      with True Inr show ?thesis
        by (intro exI [of _ "map (\<lambda>(x, v). (it_future x, FDone v)) (zip b vs)"]
            exI [of _ "items_embedded s + length b"]) (auto simp: run_batch_def Let_def list_all_iff)
    qed (intro err [of ResultMismatch], simp add: run_batch_def Inr)
  qed
qed

lemma finish_bounds:
  assumes "es_bounds (s, rs, tx)" "b \<in> set rs"
  shows "es_bounds (worker_release b (run_batch b out s), remove1 b rs, tx)"
proof -
  obtain F i n where r: "run_batch b out s = s\<lparr>es_futures := F, inference_calls := i, items_embedded := n\<rparr>"
    using run_batch_settles by blast
  have "list_all P (remove1 b rs)" if "list_all P rs" for P
    using that by (auto simp: list_all_iff dest: notin_set_remove1 set_remove1_subset [THEN subsetD])
  with assms show ?thesis
    by (auto simp: r worker_release_def es_bounds_def total_pending_def pending_limit_def classes_ok_def
        length_remove1 filter_remove1)
qed

lemma finish_ledger:
  assumes l: "es_ledger (s, rs, tx)" and b: "b \<in> set rs"
  shows "es_ledger (worker_release b (run_batch b out s), remove1 b rs, tx)"
proof -
  obtain xs i n where r: "run_batch b out s = s\<lparr>es_futures := settle_all xs (es_futures s),
      inference_calls := i, items_embedded := n\<rparr>" and xs: "map fst xs = map it_future b"
    "list_all (\<lambda>(i, r). terminal r) xs"
    using run_batch_settles by blast
  have m: "mset (concat rs) = mset (b @ concat (remove1 b rs))" using mset_concat_remove1 [OF b] by simp
  have "ledger_ok (map it_future (es_live s @ es_background s)) (map fst xs @ map it_future (concat (remove1 b rs))) (es_futures s)"
    unfolding xs(1) map_append [symmetric]
    by (rule ledger_perm [OF l [unfolded es_ledger_iff, THEN conjunct1]]) (use m in simp_all)
  then have "ledger_ok (map it_future (es_live s @ es_background s)) (map it_future (concat (remove1 b rs)))
      (settle_all xs (es_futures s))" by (rule ledger_settle_all [OF _ xs(2)])
  moreover have "texts_ok tx (concat (remove1 b rs))"
    using l mset_eq_setD [OF m] unfolding es_ledger_iff texts_ok_def by auto
  ultimately show ?thesis using l by (simp add: es_ledger_iff r worker_release_def)
qed

lemma collect_bounds:
  assumes i: "es_bounds (s, rs, tx)" "es_ledger (s, rs, tx)" and w: "length rs < inference_workers s"
    and c: "collect_batch s = (b, s')"
  shows "es_bounds (s', if b = [] then rs else b # rs, tx)"
proof -
  obtain s1 where c1: "compose_locked s = (b, s1)" and s': "s' = (if b = [] then s1 else
      s1\<lparr>busy_workers := busy_workers s1 + 1, background_inflight := background_inflight s1 + (if carries_background b then 1 else 0)\<rparr>)"
    using c by (auto simp: collect_batch_def split: prod.splits)
  have cls: "classes_ok s" using i(1) by (simp add: es_bounds_def)
  note k = compose_bounds [OF c1 i(2) cls]
  obtain l g F where s1: "s1 = s\<lparr>es_live := l, es_background := g, es_futures := F\<rparr>" using compose_keeps [OF c1] by blast
  have bg: "carries_background b \<Longrightarrow> background_inflight s < max_background_inflight s"
    using k(5) by (simp add: background_admissible_def)
  have "\<not> carries_background []" by (simp add: carries_background_def)
  then show ?thesis using i(1) w k(1-4) bg
    by (simp add: s' s1 es_bounds_def total_pending_def pending_limit_def classes_ok_def Suc_le_eq)
qed

lemma collect_ledger:
  assumes l: "es_ledger (s, rs, tx)" and c: "collect_batch s = (b, s')"
  shows "es_ledger (s', if b = [] then rs else b # rs, tx)"
proof -
  obtain s1 where c1: "compose_locked s = (b, s1)" and s': "es_live s' = es_live s1" "es_background s' = es_background s1"
    "es_futures s' = es_futures s1"
    using c by (auto simp: collect_batch_def split: prod.splits if_splits)
  have d: "distinct (map it_future (es_live s @ es_background s))"
    using l unfolding es_ledger_iff ledger_ok_def by auto
  have "ledger_ok (map it_future (es_live s1 @ es_background s1)) (map it_future b @ map it_future (concat rs)) (es_futures s1)"
    by (rule compose_ledger [OF c1]) (use l in \<open>simp add: es_ledger_iff\<close>)
  moreover have "texts_ok tx (es_live s1 @ es_background s1 @ b)"
  proof -
    obtain p1 p2 p3 where "es_live s = p1 @ p3 @ es_live s1" "es_background s = p2 @ es_background s1"
      "b = filter (\<lambda>x. es_futures s ! it_future x = FPending) (p1 @ p2 @ p3)"
      using compose_parts [OF c1 d refl refl] by metis
    with l show ?thesis unfolding es_ledger_iff by (auto simp: texts_ok_def)
  qed
  moreover have "length (es_futures s1) = length (es_futures s)" by (rule compose_length [OF c1])
  ultimately show ?thesis using l by (cases "b = []") (simp_all add: es_ledger_iff s')
qed

lemma fail_ledger: "es_ledger (s, rs, tx) \<Longrightarrow> es_ledger (fail_remaining s, rs, tx)"
  using ledger_fail_all [of "map it_future (es_live s @ es_background s)" "[]" "map it_future (concat rs)" "es_futures s"]
  by (simp add: es_ledger_iff fail_remaining_def)

section \<open>Every interleaving\<close>

definition es_config :: "embedding_scheduler \<Rightarrow> nat \<times> nat \<times> nat \<times> nat \<times> nat \<times> nat" where
  "es_config s = (max_batch_size s, max_pending_items s, live_reserve s, background_floor s,
     max_background_inflight s, inference_workers s)"

definition es_inv :: "embedding_scheduler \<Rightarrow> es_system \<Rightarrow> bool" where
  "es_inv s0 sys \<longleftrightarrow> es_bounds sys \<and> es_ledger sys \<and> es_config (fst sys) = es_config s0"

lemma collect_config: "collect_batch s = (b, s') \<Longrightarrow> es_config s' = es_config s"
  by (auto simp: collect_batch_def es_config_def dest!: compose_keeps split: prod.splits if_splits)

lemma finish_config: "es_config (worker_release b (run_batch b out s)) = es_config s"
proof -
  obtain F i n where "run_batch b out s = s\<lparr>es_futures := F, inference_calls := i, items_embedded := n\<rparr>"
    using run_batch_settles by blast
  then show ?thesis by (simp add: worker_release_def es_config_def)
qed

lemma enqueue_config: "es_config (enqueue c texts now s) = es_config s"
  by (simp add: enqueue_def Let_def es_config_def split: sched_class.splits)

lemma refuse_effect:
  "encode_submit c texts now expired s = (Inl err, s') \<Longrightarrow> \<exists>r t. s' = s\<lparr>es_rejections := r, es_timeouts := t\<rparr>"
  by (rule exI [of _ "es_rejections s'"], rule exI [of _ "es_timeouts s'"])
    (auto simp: encode_submit_def admit_def Let_def record_rejection_def record_timeout_def split: if_splits)

lemma es_inv_frame:
  assumes i: "es_inv s0 (s, rs, tx)"
    and F: "ledger_ok (map it_future (es_live s @ es_background s)) (map it_future (concat rs)) (es_futures s')"
      "length (es_futures s') = length (es_futures s)"
    and s': "s' = s\<lparr>es_futures := es_futures s', es_rejections := es_rejections s', es_timeouts := es_timeouts s',
      es_closed := es_closed s', drain_pending := drain_pending s'\<rparr>"
  shows "es_inv s0 (s', rs, tx)"
proof -
  obtain F r t c d where e: "s' = s\<lparr>es_futures := F, es_rejections := r, es_timeouts := t, es_closed := c, drain_pending := d\<rparr>"
    using s' by blast
  have "es_bounds (s', rs, tx)"
    using i unfolding e es_inv_def es_bounds_def
    by (simp add: total_pending_def pending_limit_def classes_ok_def)
  moreover have "es_ledger (s', rs, tx)" using i F unfolding e es_inv_def es_ledger_iff by simp
  ultimately show ?thesis using i unfolding e es_inv_def by (simp add: es_config_def)
qed

lemma es_inv_ledger:
  assumes "es_inv s0 (s, rs, tx)"
  shows "ledger_ok (map it_future (es_live s @ es_background s)) (map it_future (concat rs)) (es_futures s)"
  using assms unfolding es_inv_def es_ledger_iff by blast

lemma es_inv_step:
  assumes "es_step enc x y" "es_inv s0 x"
  shows "es_inv s0 y"
  using assms(1)
proof (cases rule: es_step.cases)
  case (es_submit c texts now expired s "is" s' rs tx)
  from encode_submit_ok [OF es_submit(3)] assms(2) show ?thesis
    by (auto simp: es_submit(1,2) es_inv_def enqueue_bounds enqueue_ledger enqueue_config)
next
  case (es_refuse c texts now expired s err s' rs tx)
  note i = assms(2) [unfolded es_refuse(1)]
  from refuse_effect [OF es_refuse(3)] show ?thesis unfolding es_refuse(2)
    by (elim exE) (rule es_inv_frame [OF i], simp_all add: es_inv_ledger [OF i, simplified])
next
  case (es_give_up s rs tx "is")
  note i = assms(2) [unfolded es_give_up(1)]
  show ?thesis unfolding es_give_up(2) cancel_all_def
    by (rule es_inv_frame [OF i]) (simp_all add: ledger_cancel_all [OF es_inv_ledger [OF i, simplified]])
next
  case (es_time_out c "is" s err s' rs tx)
  note i = assms(2) [unfolded es_time_out(1)]
  have s': "s' = cancel_all is (s\<lparr>es_timeouts := es_timeouts s @ [(c, ''inference'')]\<rparr>)"
    using es_time_out(3) by (simp add: encode_timeout_def record_timeout_def)
  show ?thesis unfolding es_time_out(2) s' cancel_all_def
    by (rule es_inv_frame [OF i]) (simp_all add: ledger_cancel_all [OF es_inv_ledger [OF i, simplified]])
next
  case (es_collect rs s b s' tx)
  have i: "es_bounds (s, rs, tx)" "es_ledger (s, rs, tx)" "es_config s = es_config s0"
    using assms(2) by (simp_all add: es_collect(1) es_inv_def)
  show ?thesis unfolding es_collect(2) es_inv_def
    using collect_bounds [OF i(1,2) es_collect(3,4)] collect_ledger [OF i(2) es_collect(4)]
      collect_config [OF es_collect(4)] i(3) by simp
next
  case (es_finish b rs out s tx)
  with assms(2) show ?thesis by (simp add: es_inv_def finish_bounds finish_ledger finish_config)
next
  case (es_close s rs tx drain)
  note i = assms(2) [unfolded es_close(1)]
  show ?thesis unfolding es_close(2) close_def
    by (rule es_inv_frame [OF i]) (simp_all add: es_inv_ledger [OF i, simplified])
next
  case (es_fail s rs tx)
  have "es_bounds (s, rs, tx) \<Longrightarrow> es_bounds (fail_remaining s, rs, tx)"
    by (simp add: es_bounds_def fail_remaining_def total_pending_def pending_limit_def classes_ok_def)
  moreover have "es_config (fail_remaining s) = es_config s" by (simp add: es_config_def fail_remaining_def)
  ultimately show ?thesis using assms(2) by (simp add: es_fail es_inv_def fail_ledger)
qed

interpretation es_sys: transition_invariant "es_step enc" "es_inv s0" for enc s0
  by unfold_locales (rule es_inv_step)

lemma es_init_state:
  assumes "es_init a mb w mp ad it workers bg = Inr s0"
  shows "es_live s0 = [] \<and> es_background s0 = [] \<and> es_futures s0 = [] \<and> busy_workers s0 = 0
    \<and> background_inflight s0 = 0 \<and> 1 \<le> max_batch_size s0 \<and> max_batch_size s0 \<le> max_pending_items s0"
proof -
  have if_Inr: "(if c then Inl e else x) = Inr y \<longleftrightarrow> \<not> c \<and> x = Inr y" for c and e :: 'e and x and y :: 'y by simp
  obtain lr fl bg ws where n: "\<not> mb < 1" "\<not> mp < mb" and s0: "s0 = \<lparr>max_batch_size = nat mb, max_pending_items = nat mp,
      live_reserve = lr, background_floor = fl, max_background_inflight = bg, inference_workers = ws, es_available = a,
      es_live = [], es_background = [], es_closed = False, drain_pending = True, inference_calls = 0, items_embedded = 0,
      busy_workers = 0, background_inflight = 0, es_futures = [], es_rejections = [], es_timeouts = []\<rparr>"
    using assms unfolding es_init_def Let_def if_Inr sum.inject by (elim conjE) blast
  show ?thesis using n unfolding s0 by (simp add: Suc_le_eq nat_mono)
qed

lemma es_init_config:
  assumes "es_init a mb w mp ad it workers bg = Inr s0"
  shows "max_pending_items s0 = nat mp \<and> inference_workers s0 = nat workers \<and> max_batch_size s0 = nat mb"
proof -
  have if_Inr: "(if c then Inl e else x) = Inr y \<longleftrightarrow> \<not> c \<and> x = Inr y" for c and e :: 'e and x and y :: 'y by simp
  show ?thesis using assms unfolding es_init_def Let_def if_Inr sum.inject by (elim conjE) (hypsubst, simp)
qed

lemma es_init_inv: "es_init a mb w mp ad it workers bg = Inr s0 \<Longrightarrow> es_inv s0 (s0, [], [])"
  by (drule es_init_state)
    (simp add: es_inv_def es_bounds_def es_ledger_iff ledger_empty total_pending_def classes_ok_def texts_ok_def)

section \<open>Results\<close>

text \<open>
  The model embeds every text of a batch on its own: \<open>emb\<close> is its function on one text.
\<close>

definition embeds_pointwise ::
  "(string list \<Rightarrow> sched_error + vector list \<Rightarrow> bool) \<Rightarrow> (string \<Rightarrow> vector) \<Rightarrow> bool" where
  "embeds_pointwise enc emb \<longleftrightarrow>
     (\<forall>ts vs. enc ts (Inr vs) \<longrightarrow> length vs = length ts \<longrightarrow> vs = map emb ts)"

definition es_results :: "(string \<Rightarrow> vector) \<Rightarrow> string list \<Rightarrow> es_system \<Rightarrow> bool" where
  "es_results emb tx0 sys = (case sys of (s, rs, tx) \<Rightarrow>
     prefix tx0 tx \<and> (\<forall>i v. i < length (es_futures s) \<longrightarrow> es_futures s ! i = FDone v \<longrightarrow> v = emb (tx ! i)))"

lemma take_done:
  "distinct (map it_future q) \<Longrightarrow> take_locked mb cap q b F = (q', b', F') \<Longrightarrow> F' ! i = FDone v \<Longrightarrow> F ! i = FDone v"
proof (induction mb cap q b F rule: take_locked.induct)
  case (2 mb cap x q b F)
  let ?G = "F[it_future x := snd (set_running_or_notify_cancel (F ! it_future x))]"
  have "?G ! i = FDone v \<or> F' = F"
    using 2 by (auto split: if_splits prod.splits bool.splits)
  with 2(5) show ?case
    by (cases "i = it_future x"; cases "i < length F"; cases "F ! it_future x") (auto simp: list_update_beyond)
qed auto

lemma compose_done:
  assumes c: "compose_locked s = (b, s')" and l: "es_ledger (s, rs, tx)" and f: "es_futures s' ! i = FDone v"
  shows "es_futures s ! i = FDone v"
proof -
  have d: "distinct (map it_future (es_live s @ es_background s))"
    using l unfolding es_ledger_iff ledger_ok_def by auto
  show ?thesis
    by (rule compose_elim [OF c d]) (use f in \<open>auto dest!: take_done split: if_splits\<close>)
qed

lemma finish_results:
  assumes p: "embeds_pointwise enc emb" and out: "enc (map it_text b) out"
    and l: "es_ledger (s, rs, tx)" and b: "b \<in> set rs"
    and F: "es_futures (run_batch b out s) ! i = FDone v" and i: "i < length (es_futures s)"
  shows "es_futures s ! i = FDone v \<or> v = emb (tx ! i)"
proof -
  obtain xs n m where r: "run_batch b out s = s\<lparr>es_futures := settle_all xs (es_futures s),
      inference_calls := n, items_embedded := m\<rparr>" and xs: "map fst xs = map it_future b"
    "\<And>i v. (i, FDone v) \<in> set xs \<Longrightarrow> \<exists>vs x. out = Inr vs \<and> length vs = length b
          \<and> (x, v) \<in> set (zip b vs) \<and> i = it_future x"
    using run_batch_settles [of b out s] by blast
  have ok: "ledger_ok (map it_future (es_live s @ es_background s)) (map it_future (concat rs)) (es_futures s)"
    "texts_ok tx b" using l b by (auto simp: es_ledger_iff texts_ok_def)
  have d: "distinct (map it_future b)"
    using ok(1) b unfolding ledger_ok_def by (auto intro: distinct_map_concat)
  show ?thesis
  proof (cases "i \<in> set (map fst xs)")
    case True
    then obtain w where w: "(i, w) \<in> set xs" by auto
    have "es_futures s ! i = FRunning"
      using ok(1) b True unfolding xs(1) ledger_ok_def by auto
    then have "w = FDone v" using settle_all_nth [OF _ w i] d F xs(1) by (simp add: r)
    then obtain vs x where x: "out = Inr vs" "length vs = length b" "(x, v) \<in> set (zip b vs)" "i = it_future x"
      using xs(2) w by blast
    then have "vs = map emb (map it_text b)"
      using p out unfolding embeds_pointwise_def by (metis length_map)
    with x(3) have "v = emb (it_text x)" "x \<in> set b" by (auto simp: zip_map2 zip_same_conv_map)
    then show ?thesis using ok(2) x(4) by (simp add: texts_ok_def)
  next
    case False
    then show ?thesis using F by (simp add: r settle_all_other)
  qed
qed

lemma es_results_step:
  assumes "es_step enc x y" "es_inv s0 x \<and> es_results emb tx0 x" "embeds_pointwise enc emb"
  shows "es_results emb tx0 y"
  using assms(1)
proof (cases rule: es_step.cases)
  case (es_submit c texts now expired s "is" s' rs tx)
  have len: "length tx = length (es_futures s)" using assms(2) by (simp add: es_submit es_inv_def es_ledger_iff)
  have f: "es_futures s' = es_futures s @ replicate (length texts) FPending"
    using encode_submit_ok [OF es_submit(3)] by (auto simp: enqueue_def Let_def split: sched_class.splits)
  from assms(2) len show ?thesis
    by (auto simp: es_submit(1,2) es_results_def f nth_append prefix_prefix)
next
  case (es_refuse c texts now expired s err s' rs tx)
  from refuse_effect [OF es_refuse(3)] assms(2) show ?thesis by (auto simp: es_refuse(1,2) es_results_def)
next
  case (es_give_up s rs tx "is")
  with assms(2) show ?thesis by (auto simp: es_results_def cancel_all_def dest!: cancel_done)
next
  case (es_time_out c "is" s err s' rs tx)
  with assms(2) show ?thesis
    by (auto simp: es_results_def encode_timeout_def record_timeout_def cancel_all_def dest!: cancel_done)
next
  case (es_collect rs s b s' tx)
  then obtain s1 where c: "compose_locked s = (b, s1)" "es_futures s' = es_futures s1"
    by (auto simp: collect_batch_def split: prod.splits if_splits)
  with assms(2) compose_done [OF c(1), of rs tx] compose_length [OF c(1)] show ?thesis
    by (auto simp: es_collect(1,2) es_results_def es_inv_def)
next
  case (es_finish b rs out s tx)
  have l: "es_ledger (s, rs, tx)" and r: "es_results emb tx0 (s, rs, tx)"
    using assms(2) by (simp_all add: es_finish(1) es_inv_def)
  have "length (es_futures (run_batch b out s)) = length (es_futures s)"
    using run_batch_settles [of b out s] by (elim exE conjE) simp
  with r finish_results [OF assms(3) es_finish(4) l es_finish(3)] show ?thesis
    unfolding es_finish(2) es_results_def worker_release_def by simp blast
next
  case (es_close s rs tx drain)
  with assms(2) show ?thesis by (simp add: es_results_def close_def)
next
  case (es_fail s rs tx)
  with assms(2) show ?thesis by (auto simp: es_results_def fail_remaining_def dest!: fail_all_done)
qed

interpretation es_res: transition_invariant "es_step enc"
  "\<lambda>x. es_inv s0 x \<and> (embeds_pointwise enc emb \<longrightarrow> es_results emb tx0 x)" for enc s0 emb tx0
  by unfold_locales (auto intro: es_inv_step es_results_step)

lemma gather_done:
  "gather F is acc = Some (Inr vs) \<Longrightarrow> \<exists>ws. vs = acc @ ws \<and> list_all2 (\<lambda>i v. F ! i = FDone v) is ws"
proof (induction F "is" acc rule: gather.induct)
  case (2 F i "is" acc)
  then obtain v where v: "F ! i = FDone v" "gather F is (acc @ [v]) = Some (Inr vs)"
    by (auto split: fut.splits)
  with 2(1) obtain ws where "vs = (acc @ [v]) @ ws" "list_all2 (\<lambda>i v. F ! i = FDone v) is ws" by blast
  with v(1) show ?case by (intro exI [of _ "v # ws"]) simp
qed simp

section \<open>What the scheduler promises\<close>

text \<open>
  C15.  However submitters, workers and shutdown interleave, the scheduler stays
  within its configuration: never more than \<open>max_pending_items\<close> items wait, background
  work never eats into the reserve of live work, at most \<open>inference_workers\<close> batches
  run, each with one to \<open>max_batch_size\<close> items, and at most
  \<open>max_background_inflight\<close> of them carry background work, so live work always
  finds the remaining workers free of it.
\<close>

theorem scheduler_bounded:
  assumes "create_scheduler a mb w mp ad it workers bg = Inr s0"
    and "(es_step enc)\<^sup>*\<^sup>* (s0, [], []) (s, rs, tx)"
  shows "total_pending s \<le> nat mp \<and> length (es_background s) \<le> pending_limit CLASS_BACKGROUND s0
    \<and> busy_workers s = length rs \<and> length rs \<le> nat (max 1 workers)
    \<and> (\<forall>b\<in>set rs. 0 < length b \<and> length b \<le> nat (max 1 mb))
    \<and> length (filter carries_background rs) \<le> max_background_inflight s0"
proof -
  have i: "es_init a (max 1 mb) w mp ad it (max 1 workers)
      (Some (max 1 (min (max 1 workers) (case bg of Some n \<Rightarrow> n | None \<Rightarrow> max 1 (max 1 workers - 1))))) = Inr s0"
    using assms(1) by (simp only: create_scheduler_def Let_def)
  have c: "max_pending_items s0 = nat mp" "inference_workers s0 = nat (max 1 workers)"
    "max_batch_size s0 = nat (max 1 mb)" using es_init_config [OF i] by simp_all
  have inv: "es_inv s0 (s, rs, tx)" by (rule es_sys.reach_inv [OF assms(2) es_init_inv [OF i]])
  then have k: "max_pending_items s = nat mp" "inference_workers s = nat (max 1 workers)"
    "max_batch_size s = nat (max 1 mb)" "max_background_inflight s = max_background_inflight s0"
    "live_reserve s = live_reserve s0" using c by (simp_all add: es_inv_def es_config_def)
  have "pending_limit CLASS_BACKGROUND s = pending_limit CLASS_BACKGROUND s0"
    using k c by (simp add: pending_limit_def)
  with inv show ?thesis unfolding es_inv_def es_bounds_def prod.case k list_all_iff by simp
qed

text \<open>
  C14.  No future is lost: after any interleaving every future is queued, in exactly
  one running batch, or settled; and once shutdown has failed what was queued,
  every future outside the running batches is settled.
\<close>

theorem futures_accounted:
  assumes "es_init a mb w mp ad it workers bg = Inr s0"
    and "(es_step enc)\<^sup>*\<^sup>* (s0, [], []) (s, rs, tx)"
  shows "distinct (map it_future (es_live s @ es_background s @ concat rs))
    \<and> (\<forall>i<length (es_futures s). i \<in> it_future ` set (es_live s @ es_background s @ concat rs)
          \<or> terminal (es_futures s ! i))
    \<and> (\<forall>i<length (es_futures s). i \<in> it_future ` set (concat rs)
          \<or> terminal (es_futures (fail_remaining s) ! i))"
proof -
  have l: "es_ledger (s, rs, tx)"
    using es_sys.reach_inv [OF assms(2) es_init_inv [OF assms(1)]] by (simp add: es_inv_def)
  have 1: "distinct (map it_future (es_live s @ es_background s @ concat rs))
      \<and> (\<forall>i<length (es_futures s). i \<in> it_future ` set (es_live s @ es_background s @ concat rs)
          \<or> terminal (es_futures s ! i))"
    using l unfolding es_ledger_iff ledger_ok_def by (auto simp: image_Un)
  have f: "es_live (fail_remaining s) = []" "es_background (fail_remaining s) = []"
    "length (es_futures (fail_remaining s)) = length (es_futures s)" by (simp_all add: fail_remaining_def)
  have "\<forall>i<length (es_futures s). i \<in> it_future ` set (concat rs) \<or> terminal (es_futures (fail_remaining s) ! i)"
    using fail_ledger [OF l] unfolding es_ledger_iff ledger_ok_def f by (auto simp: image_Un)
  with 1 show ?thesis by blast
qed

text \<open>
  C12.  A caller gets the embeddings of its own texts, in order: when \<open>encode\<close> has
  its texts admitted and, after any further interleaving, its wait returns vectors,
  they are the embeddings of exactly those texts.
\<close>

theorem encode_returns_own_embeddings:
  assumes "es_init a mb w mp ad it workers bg = Inr s0"
    and reach: "(es_step enc)\<^sup>*\<^sup>* (s0, [], []) (s, rs, tx)"
    and adm: "encode_submit c texts now expired s = (Inr (Some is), s1)"
    and later: "(es_step enc)\<^sup>*\<^sup>* (s1, rs, tx @ texts) (s2, rs2, tx2)"
    and wait: "gather (es_futures s2) is [] = Some (Inr vs)"
    and model: "embeds_pointwise enc emb"
  shows "vs = map emb texts"
proof -
  have i0: "es_inv s0 (s0, [], [])" by (rule es_init_inv [OF assms(1)])
  have r0: "es_results emb [] (s0, [], [])" using es_init_state [OF assms(1)] by (simp add: es_results_def)
  have 1: "es_inv s0 (s, rs, tx) \<and> es_results emb [] (s, rs, tx)"
    using es_res.reach_inv [OF reach, of s0 emb "[]"] i0 r0 model by blast
  have st: "es_step enc (s, rs, tx) (s1, rs, tx @ texts)" using adm by (rule es_step.es_submit)
  have 2: "es_inv s0 (s1, rs, tx @ texts) \<and> es_results emb [] (s1, rs, tx @ texts)"
    using 1 es_inv_step [OF st] es_results_step [OF st 1 model] by blast
  then have "es_results emb (tx @ texts) (s1, rs, tx @ texts)" by (simp add: es_results_def)
  then have 3: "es_inv s0 (s2, rs2, tx2) \<and> es_results emb (tx @ texts) (s2, rs2, tx2)"
    using es_res.reach_inv [OF later, of s0 emb "tx @ texts"] 2 model by blast
  have len: "length tx = length (es_futures s)" "length tx2 = length (es_futures s2)"
    using 1 3 by (simp_all add: es_inv_def es_ledger_iff)
  have "is": "is = [length tx ..< length tx + length texts]"
    using adm len(1) by (auto simp: encode_submit_def admit_def Let_def split: if_splits)
  obtain zs where zs: "tx2 = (tx @ texts) @ zs" using 3 by (auto simp: es_results_def prefix_def)
  have w: "list_all2 (\<lambda>i v. es_futures s2 ! i = FDone v) is vs" using gather_done [OF wait] by auto
  show ?thesis
  proof (rule nth_equalityI)
    show l: "length vs = length (map emb texts)" using list_all2_lengthD [OF w] "is" by simp
    fix k assume "k < length vs"
    then have k: "k < length texts" "es_futures s2 ! (length tx + k) = FDone (vs ! k)"
      using l list_all2_nthD2 [OF w] "is" by auto
    moreover have "length tx + k < length (es_futures s2)" using k(1) len(2) zs by simp
    ultimately have "vs ! k = emb (tx2 ! (length tx + k))" using 3 unfolding es_results_def prod.case by blast
    then show "vs ! k = map emb texts ! k" using k(1) by (simp add: zs nth_append)
  qed
qed

section \<open>One request from admission to result\<close>

definition demo_sched :: embedding_scheduler where
  "demo_sched = \<lparr>max_batch_size = 2, max_pending_items = 4, live_reserve = 2, background_floor = 1,
     max_background_inflight = 1, inference_workers = 1, es_available = True, es_live = [], es_background = [],
     es_closed = False, drain_pending = True, inference_calls = 0, items_embedded = 0, busy_workers = 0,
     background_inflight = 0, es_futures = [], es_rejections = [], es_timeouts = []\<rparr>"

definition demo_item :: item where
  "demo_item = \<lparr>it_text = ''ab'', it_class = CLASS_LIVE, it_future = 0, enqueued_at = 0\<rparr>"

definition demo_emb :: "string \<Rightarrow> vector" where
  "demo_emb x = [real (length x)]"

definition demo_enc :: "string list \<Rightarrow> sched_error + vector list \<Rightarrow> bool" where
  "demo_enc ts out \<longleftrightarrow> out = Inr (map demo_emb ts)"

lemma demo_create: "create_scheduler True 2 0 4 1 1 1 None = Inr demo_sched"
  by (simp add: create_scheduler_def es_init_def demo_sched_def Let_def)

lemma demo_init: "es_init True 2 0 4 1 1 1 None = Inr demo_sched"
  by (simp add: es_init_def demo_sched_def Let_def)

abbreviation "demo_queued \<equiv> demo_sched\<lparr>es_futures := [FPending], es_live := [demo_item]\<rparr>"
abbreviation "demo_busy \<equiv> demo_sched\<lparr>es_futures := [FRunning], busy_workers := 1\<rparr>"

lemma demo_submit: "encode_submit CLASS_LIVE [''ab''] 0 False demo_sched = (Inr (Some [0]), demo_queued)"
  by (simp add: encode_submit_def admit_def enqueue_def demo_sched_def demo_item_def Let_def pending_limit_def
      total_pending_def)

lemma demo_collect: "collect_batch demo_queued = ([demo_item], demo_busy)"
  by (simp add: collect_batch_def compose_locked_def background_admissible_def demo_sched_def demo_item_def Let_def
      carries_background_def)

lemma demo_running: "(es_step demo_enc)\<^sup>*\<^sup>* (demo_queued, [], [''ab'']) (demo_busy, [[demo_item]], [''ab''])"
  using es_step.es_collect [where rs = "[]", OF _ demo_collect, of demo_enc "[''ab'']"]
  by (simp add: demo_sched_def r_into_rtranclp)

lemma demo_reach: "(es_step demo_enc)\<^sup>*\<^sup>* (demo_sched, [], []) (demo_busy, [[demo_item]], [''ab''])"
proof (rule reach_step [OF _ demo_running])
  show "es_step demo_enc (demo_sched, [], []) (demo_queued, [], [''ab''])"
    using es_step.es_submit [OF demo_submit, of demo_enc "[]" "[]"] by simp
qed

lemma demo_finish: "(es_step demo_enc)\<^sup>*\<^sup>* (demo_queued, [], [''ab''])
   (worker_release [demo_item] (run_batch [demo_item] (Inr [[2]]) demo_busy), [], [''ab''])"
  using es_step.es_finish [of "[demo_item]" "[[demo_item]]" demo_enc "Inr [[2]]" demo_busy "[''ab'']"]
  by (intro rtranclp_trans [OF demo_running] r_into_rtranclp) (simp add: demo_enc_def demo_emb_def demo_item_def)

theorem scheduler_bounded_witness:
  "total_pending demo_busy \<le> 4 \<and> length (filter carries_background [[demo_item]]) \<le> 1"
  using scheduler_bounded [OF demo_create demo_reach] by (simp add: demo_sched_def)

theorem futures_accounted_witness:
  "0 \<in> it_future ` set (concat [[demo_item]]) \<or> terminal (es_futures (fail_remaining demo_busy) ! 0)"
  using futures_accounted [OF demo_init demo_reach] by (simp add: demo_sched_def)

theorem encode_returns_own_embeddings_witness: "[[2]] = map demo_emb [''ab'']"
proof (rule encode_returns_own_embeddings [OF demo_init rtranclp.rtrancl_refl demo_submit])
  show "(es_step demo_enc)\<^sup>*\<^sup>* (demo_queued, [], [] @ [''ab''])
     (worker_release [demo_item] (run_batch [demo_item] (Inr [[2]]) demo_busy), [], [''ab''])"
    using demo_finish by simp
  show "gather (es_futures (worker_release [demo_item] (run_batch [demo_item] (Inr [[2]]) demo_busy))) [0] [] = Some (Inr [[2]])"
    by (simp add: worker_release_def run_batch_def demo_sched_def demo_item_def Let_def)
  show "embeds_pointwise demo_enc demo_emb" by (simp add: embeds_pointwise_def demo_enc_def)
qed

end
