(* ===== verification/Rerank_Scheduler.thy ===== *)
theory Rerank_Scheduler
  imports Batch_Scheduling
begin

text \<open>
  \<open>backend/rag/app/services/rerank_scheduler.py\<close>: the scheduler in front of the
  cross-encoder.  Work is a request of several \<open>(query, passage)\<close> pairs that is never
  split: batches, queues and the live envelope are bounded in pairs.  Every region
  under the condition's lock is an operation on the record.  A future is its index in
  \<open>rr_futures\<close>; a submitter parked on the event loop is a number in
  \<open>capacity_waiters\<close>, and in \<open>resolved_waiters\<close> once it has been woken.  Gauges and
  histograms are left out, the counters of refusals and time-outs are kept.
\<close>

section \<open>State\<close>

record rerank_request =
  rq_query :: string
  rq_passages :: "string list"
  rq_class :: sched_class
  rq_future :: nat
  rq_enqueued_at :: real

definition req_pairs :: "rerank_request \<Rightarrow> nat" where
  "req_pairs r = length (rq_passages r)"

definition batch_pairs :: "rerank_request list \<Rightarrow> nat" where
  "batch_pairs batch = sum_list (map req_pairs batch)"

record rerank_scheduler =
  max_batch_pairs :: nat
  max_outstanding_pairs :: nat
  max_pending_pairs :: nat
  inference_slot_pairs :: nat
  rr_live_reserve :: nat
  rr_background_floor :: nat
  rr_max_background_inflight :: nat
  rr_inference_workers :: nat
  rr_queues :: "sched_class \<Rightarrow> rerank_request list"
  rr_pending :: "sched_class \<Rightarrow> int"
  capacity_waiters :: "nat list"
  resolved_waiters :: "nat list"
  rr_closed :: bool
  rr_drain_pending :: bool
  rr_inference_calls :: nat
  pairs_scored :: nat
  rr_busy_workers :: int
  inflight_pairs :: int
  rr_background_inflight :: int
  rr_futures :: "real list fut list"
  rr_rejections :: "(sched_class \<times> string) list"
  rr_timeouts :: "(sched_class \<times> string) list"

definition rr_init ::
  "int \<Rightarrow> real \<Rightarrow> int \<Rightarrow> int \<Rightarrow> real \<Rightarrow> int \<Rightarrow> int option \<Rightarrow> int option \<Rightarrow> py_exn + rerank_scheduler" where
  "rr_init mb window_ms mo mp admission workers slot bg =
     (if workers < 1 then Inl ValueError
      else if mb < 1 then Inl ValueError
      else if window_ms < 0 then Inl ValueError
      else if mp < 1 then Inl ValueError
      else if mo < 1 then Inl ValueError
      else if admission \<le> 0 then Inl ValueError
      else
        (let slot = (case slot of Some n \<Rightarrow> n | None \<Rightarrow> mb) in
         if slot < 1 \<or> slot > mb then Inl ValueError
         else
           (let bg = (case bg of Some n \<Rightarrow> n | None \<Rightarrow> max 1 (workers - 1)) in
            if \<not> (1 \<le> bg \<and> bg \<le> workers) then Inl ValueError
            else Inr \<lparr>max_batch_pairs = nat mb, max_outstanding_pairs = nat mo, max_pending_pairs = nat mp,
              inference_slot_pairs = nat slot, rr_live_reserve = nat (max 1 (min mb (mp div 2))),
              rr_background_floor = nat (max 1 (mb div 4)), rr_max_background_inflight = nat bg,
              rr_inference_workers = nat workers, rr_queues = (\<lambda>_. []), rr_pending = (\<lambda>_. 0),
              capacity_waiters = [], resolved_waiters = [], rr_closed = False, rr_drain_pending = True,
              rr_inference_calls = 0, pairs_scored = 0, rr_busy_workers = 0, inflight_pairs = 0,
              rr_background_inflight = 0, rr_futures = [], rr_rejections = [], rr_timeouts = []\<rparr>)))"

definition create_rerank_scheduler ::
  "int \<Rightarrow> real \<Rightarrow> int \<Rightarrow> int \<Rightarrow> real \<Rightarrow> int \<Rightarrow> int \<Rightarrow> int option \<Rightarrow> py_exn + rerank_scheduler" where
  "create_rerank_scheduler mb window_ms mo mp admission workers candidate_k bg =
     (let workers = max 1 workers in
      rr_init (max 1 mb) (max 0 window_ms) (max 1 mo) (max 1 mp) (max (1/1000) admission) workers
        (Some (max 1 (min candidate_k mb)))
        (Some (max 1 (min workers (case bg of Some n \<Rightarrow> n | None \<Rightarrow> max 1 (workers - 1))))))"

section \<open>Introspection\<close>

definition total_pending_pairs :: "rerank_scheduler \<Rightarrow> int" where
  "total_pending_pairs s = rr_pending s CLASS_LIVE + rr_pending s CLASS_BACKGROUND"

definition pending_pairs :: "sched_class option \<Rightarrow> rerank_scheduler \<Rightarrow> int" where
  "pending_pairs c s = (case c of Some c \<Rightarrow> rr_pending s c | None \<Rightarrow> total_pending_pairs s)"

definition pending_requests :: "sched_class option \<Rightarrow> rerank_scheduler \<Rightarrow> nat" where
  "pending_requests c s = (case c of
     Some c \<Rightarrow> length (rr_queues s c)
   | None \<Rightarrow> length (rr_queues s CLASS_LIVE) + length (rr_queues s CLASS_BACKGROUND))"

definition rr_pending_limit :: "sched_class \<Rightarrow> rerank_scheduler \<Rightarrow> nat" where
  "rr_pending_limit c s = (case c of
     CLASS_LIVE \<Rightarrow> max_pending_pairs s
   | CLASS_BACKGROUND \<Rightarrow> max 1 (max_pending_pairs s - rr_live_reserve s))"

section \<open>Submission\<close>

definition rr_record_rejection :: "sched_class \<Rightarrow> string \<Rightarrow> rerank_scheduler \<Rightarrow> rerank_scheduler" where
  "rr_record_rejection c reason s = s\<lparr>rr_rejections := rr_rejections s @ [(c, reason)]\<rparr>"

definition rr_record_timeout :: "sched_class \<Rightarrow> string \<Rightarrow> rerank_scheduler \<Rightarrow> rerank_scheduler" where
  "rr_record_timeout c phase s = s\<lparr>rr_timeouts := rr_timeouts s @ [(c, phase)]\<rparr>"

definition notify_capacity :: "rerank_scheduler \<Rightarrow> rerank_scheduler" where
  "notify_capacity s = s\<lparr>capacity_waiters := [], resolved_waiters := resolved_waiters s @ capacity_waiters s\<rparr>"

definition discard_waiter :: "nat \<Rightarrow> rerank_scheduler \<Rightarrow> rerank_scheduler" where
  "discard_waiter w s = s\<lparr>capacity_waiters := filter (\<lambda>v. v \<noteq> w) (capacity_waiters s)\<rparr>"

datatype rerank_refusal = RerankOverloaded string | UnknownClass | NoPassages

definition parse_class :: "string \<Rightarrow> sched_class option" where
  "parse_class name = (if name = ''live'' then Some CLASS_LIVE
     else if name = ''background'' then Some CLASS_BACKGROUND else None)"

text \<open>\<open>scheduling_class_for\<close>: everything but live traffic is deferrable.\<close>

definition scheduling_class_for :: "string \<Rightarrow> sched_class" where
  "scheduling_class_for traffic = (if traffic = ''live'' then CLASS_LIVE else CLASS_BACKGROUND)"

definition outstanding_fits :: "sched_class \<Rightarrow> nat \<Rightarrow> rerank_scheduler \<Rightarrow> bool" where
  "outstanding_fits c n s \<longleftrightarrow> c \<noteq> CLASS_LIVE
     \<or> rr_pending s CLASS_LIVE + inflight_pairs s + int n \<le> int (max_outstanding_pairs s)"

definition rr_enqueue :: "rerank_request \<Rightarrow> rerank_scheduler \<Rightarrow> rerank_scheduler" where
  "rr_enqueue r s =
     s\<lparr>rr_queues := (rr_queues s)(rq_class r := rr_queues s (rq_class r) @ [r]),
       rr_pending := (rr_pending s)(rq_class r := rr_pending s (rq_class r) + int (req_pairs r)),
       rr_futures := rr_futures s @ [FPending]\<rparr>"

text \<open>
  One pass of the loop of \<open>_admit\<close>: refused, admitted (with the number of the request's
  future), or \<^const>\<open>None\<close> when the submitter parks as waiter \<open>w\<close>.
\<close>

definition rr_admit ::
  "sched_class \<Rightarrow> string \<Rightarrow> string list \<Rightarrow> real \<Rightarrow> nat \<Rightarrow> rerank_scheduler
     \<Rightarrow> (rerank_refusal + nat option) \<times> rerank_scheduler" where
  "rr_admit c query passages now w s =
     (let n = length passages; limit = rr_pending_limit c s; i = length (rr_futures s) in
      if n > min limit (max_batch_pairs s)
      then (Inl (RerankOverloaded ''oversized''), rr_record_rejection c ''oversized'' s)
      else if rr_closed s then (Inl (RerankOverloaded ''closed''), rr_record_rejection c ''closed'' s)
      else if total_pending_pairs s + int n \<le> int limit \<and> outstanding_fits c n s
      then (Inr (Some i), rr_enqueue \<lparr>rq_query = query, rq_passages = passages, rq_class = c, rq_future = i,
              rq_enqueued_at = now\<rparr> s)
      else (Inr None, s\<lparr>capacity_waiters := capacity_waiters s @ [w]\<rparr>))"

text \<open>The wait ends by the deadline, by a wake-up or by cancellation of the caller.\<close>

definition admit_timeout :: "sched_class \<Rightarrow> nat \<Rightarrow> rerank_scheduler \<Rightarrow> rerank_refusal \<times> rerank_scheduler" where
  "admit_timeout c w s =
     (RerankOverloaded ''saturated'', rr_record_rejection c ''saturated'' (rr_record_timeout c ''admission'' (discard_waiter w s)))"

definition submit ::
  "string \<Rightarrow> string \<Rightarrow> string list \<Rightarrow> real \<Rightarrow> nat \<Rightarrow> rerank_scheduler
     \<Rightarrow> (rerank_refusal + nat option) \<times> rerank_scheduler" where
  "submit cname query passages now w s =
     (case parse_class cname of
        None \<Rightarrow> (Inl UnknownClass, s)
      | Some c \<Rightarrow> if passages = [] then (Inl NoPassages, s) else rr_admit c query passages now w s)"

text \<open>\<open>_release_cancelled\<close>, the callback of a cancelled future.\<close>

fun del_request :: "nat \<Rightarrow> rerank_request list \<Rightarrow> rerank_request list" where
  "del_request i [] = []"
| "del_request i (r # q) = (if rq_future r = i then q else r # del_request i q)"

definition is_cancelled :: "'r fut \<Rightarrow> bool" where
  "is_cancelled f = (case f of FCancelled \<Rightarrow> True | FNotified \<Rightarrow> True | _ \<Rightarrow> False)"

definition release_cancelled :: "rerank_request \<Rightarrow> rerank_scheduler \<Rightarrow> rerank_scheduler" where
  "release_cancelled r s =
     (let c = rq_class r; i = rq_future r; q = rr_queues s c in
      if \<not> is_cancelled (rr_futures s ! i) then s
      else if list_ex (\<lambda>x. rq_future x = i) q
      then notify_capacity (s\<lparr>rr_queues := (rr_queues s)(c := del_request i q),
             rr_pending := (rr_pending s)(c := rr_pending s c - int (req_pairs r))\<rparr>)
      else s)"

section \<open>Workers\<close>

definition rr_background_admissible :: "rerank_scheduler \<Rightarrow> bool" where
  "rr_background_admissible s \<longleftrightarrow> rr_queues s CLASS_BACKGROUND \<noteq> []
     \<and> rr_background_inflight s < int (rr_max_background_inflight s)"

definition rr_worker_exits :: "rerank_scheduler \<Rightarrow> bool" where
  "rr_worker_exits s \<longleftrightarrow> rr_closed s \<and> (\<not> rr_drain_pending s \<or> total_pending_pairs s = 0)"

definition rr_worker_ready :: "rerank_scheduler \<Rightarrow> bool" where
  "rr_worker_ready s \<longleftrightarrow> rr_queues s CLASS_LIVE \<noteq> [] \<or> rr_background_admissible s"

definition rr_window_open :: "rerank_scheduler \<Rightarrow> bool" where
  "rr_window_open s \<longleftrightarrow> rr_busy_workers s > 0 \<and> total_pending_pairs s < int (max_batch_pairs s) \<and> \<not> rr_closed s"

text \<open>
  \<open>_take_locked\<close> on one queue: a head that does not fit stops the take, a cancelled
  head is dropped. 
\<close>

fun rr_take_queue ::
  "nat \<Rightarrow> rerank_request list \<Rightarrow> rerank_request list \<Rightarrow> real list fut list
     \<Rightarrow> rerank_request list \<times> rerank_request list \<times> real list fut list" where
  "rr_take_queue budget [] batch F = ([], batch, F)"
| "rr_take_queue budget (r # queue) batch F =
     (if batch_pairs batch + req_pairs r > budget then (r # queue, batch, F)
      else (case set_running_or_notify_cancel (F ! rq_future r) of
          (True, f) \<Rightarrow> rr_take_queue budget queue (batch @ [r]) (F[rq_future r := f])
        | (False, f) \<Rightarrow> rr_take_queue budget queue batch (F[rq_future r := f])))"

definition rr_take_locked ::
  "sched_class \<Rightarrow> nat \<Rightarrow> rerank_request list \<times> rerank_scheduler \<Rightarrow> rerank_request list \<times> rerank_scheduler" where
  "rr_take_locked c pair_budget bs = (case bs of (batch, s) \<Rightarrow>
     (case rr_take_queue (min pair_budget (max_batch_pairs s)) (rr_queues s c) batch (rr_futures s) of
        (queue, batch, F) \<Rightarrow>
          (batch, s\<lparr>rr_queues := (rr_queues s)(c := queue),
             rr_pending := (rr_pending s)(c := rr_pending s c
               - int (batch_pairs (take (length (rr_queues s c) - length queue) (rr_queues s c)))),
             rr_futures := F\<rparr>)))"

definition rr_compose_locked :: "rerank_scheduler \<Rightarrow> rerank_request list \<times> rerank_scheduler" where
  "rr_compose_locked s =
     (let allow = rr_background_admissible s;
          reserved = (if allow then rr_background_floor s else 0);
          bs = rr_take_locked CLASS_LIVE (max_batch_pairs s - reserved) ([], s);
          bs = (if allow then rr_take_locked CLASS_BACKGROUND (max_batch_pairs s) bs else bs);
          bs = rr_take_locked CLASS_LIVE (max_batch_pairs s) bs in
      (fst bs, notify_capacity (snd bs)))"

definition rr_carries_background :: "rerank_request list \<Rightarrow> bool" where
  "rr_carries_background batch = list_ex (\<lambda>r. rq_class r = CLASS_BACKGROUND) batch"

definition rr_collect_batch :: "rerank_scheduler \<Rightarrow> rerank_request list \<times> rerank_scheduler" where
  "rr_collect_batch s =
     (case rr_compose_locked s of (batch, s) \<Rightarrow>
        (batch, if batch = [] then s
           else s\<lparr>rr_busy_workers := rr_busy_workers s + 1, inflight_pairs := inflight_pairs s + int (batch_pairs batch),
                  rr_background_inflight := rr_background_inflight s + (if rr_carries_background batch then 1 else 0)\<rparr>))"

definition physical_pairs :: "rerank_request list \<Rightarrow> (string \<times> string) list" where
  "physical_pairs batch = concat (map (\<lambda>r. map (\<lambda>p. (rq_query r, p)) (rq_passages r)) batch)"

fun fan_out :: "real list \<Rightarrow> nat \<Rightarrow> rerank_request list \<Rightarrow> (nat \<times> real list fut) list" where
  "fan_out scores offset [] = []"
| "fan_out scores offset (r # batch) =
     (rq_future r, FDone (slice offset (offset + req_pairs r) scores)) # fan_out scores (offset + req_pairs r) batch"

definition rr_complete_with_error :: "rerank_request list \<Rightarrow> sched_error \<Rightarrow> rerank_scheduler \<Rightarrow> rerank_scheduler" where
  "rr_complete_with_error batch err s =
     s\<lparr>rr_futures := settle_all (map (\<lambda>r. (rq_future r, FError err)) batch) (rr_futures s)\<rparr>"

text \<open>\<open>_run_batch\<close>; \<open>outcome\<close> is what \<open>predict\<close> raised or returned on the physical pairs.\<close>

definition rr_run_batch :: "rerank_request list \<Rightarrow> sched_error + real list \<Rightarrow> rerank_scheduler \<Rightarrow> rerank_scheduler" where
  "rr_run_batch batch outcome s =
     (let s = s\<lparr>rr_inference_calls := rr_inference_calls s + 1\<rparr>; n = length (physical_pairs batch) in
      case outcome of
        Inl err \<Rightarrow> rr_complete_with_error batch err s
      | Inr scores \<Rightarrow>
          if length scores \<noteq> n then rr_complete_with_error batch ResultMismatch s
          else s\<lparr>pairs_scored := pairs_scored s + n,
                 rr_futures := settle_all (fan_out scores 0 batch) (rr_futures s)\<rparr>)"

definition rr_worker_release :: "rerank_request list \<Rightarrow> rerank_scheduler \<Rightarrow> rerank_scheduler" where
  "rr_worker_release batch s =
     notify_capacity (s\<lparr>rr_busy_workers := rr_busy_workers s - 1, inflight_pairs := inflight_pairs s - int (batch_pairs batch),
       rr_background_inflight := rr_background_inflight s - (if rr_carries_background batch then 1 else 0)\<rparr>)"

definition rr_close :: "bool \<Rightarrow> rerank_scheduler \<Rightarrow> rerank_scheduler" where
  "rr_close drain s = notify_capacity (s\<lparr>rr_closed := True, rr_drain_pending := drain\<rparr>)"

definition rr_fail_remaining :: "rerank_scheduler \<Rightarrow> rerank_scheduler" where
  "rr_fail_remaining s =
     (let leftover = rr_queues s CLASS_LIVE @ rr_queues s CLASS_BACKGROUND;
          s = notify_capacity (s\<lparr>rr_queues := (\<lambda>_. []), rr_pending := (\<lambda>_. 0)\<rparr>) in
      s\<lparr>rr_futures := fail_all SchedulerClosed (map rq_future leftover) (rr_futures s)\<rparr>)"

section \<open>Batches\<close>

lemma batch_pairs_simps [simp]:
  "batch_pairs [] = 0" "batch_pairs (r # q) = req_pairs r + batch_pairs q"
  "batch_pairs (p @ q) = batch_pairs p + batch_pairs q"
  by (simp_all add: batch_pairs_def)

lemma rr_take_prefix:
  "distinct (map rq_future q) \<Longrightarrow> rr_take_queue budget q b F = (q', b', F') \<Longrightarrow>
     \<exists>pre. q = pre @ q' \<and> b' = b @ filter (\<lambda>r. F ! rq_future r = FPending) pre
       \<and> F' = start_all (map rq_future pre) F"
proof (induction budget q b F rule: rr_take_queue.induct)
  case (2 budget r q b F)
  let ?i = "rq_future r"
  have other: "start ?i F ! rq_future y = F ! rq_future y" if "y \<in> set q" for y
    using 2(3) that by (auto intro!: nth_start_other)
  show ?case
  proof (cases "batch_pairs b + req_pairs r > budget")
    case False
    have "\<exists>pre. q = pre @ q' \<and> b' = (b @ (if F ! ?i = FPending then [r] else []))
        @ filter (\<lambda>y. start ?i F ! rq_future y = FPending) pre \<and> F' = start_all (map rq_future pre) (start ?i F)"
      using 2 False by (cases "F ! ?i") (auto simp: start_def)
    then obtain pre where p: "q = pre @ q'" "F' = start_all (map rq_future (r # pre)) F"
      "b' = (b @ (if F ! ?i = FPending then [r] else [])) @ filter (\<lambda>y. start ?i F ! rq_future y = FPending) pre"
      by auto
    have "filter (\<lambda>y. start ?i F ! rq_future y = FPending) pre = filter (\<lambda>y. F ! rq_future y = FPending) pre"
      using other p(1) by (auto intro!: filter_cong)
    with p show ?thesis by (intro exI [of _ "r # pre"]) auto
  next
    case True
    with 2 show ?thesis by (intro exI [of _ "[]"]) auto
  qed
qed auto

interpretation rr_take: batch_take "rr_take_queue budget" rq_future for budget
  by unfold_locales (rule rr_take_prefix)

lemma rr_take_budget:
  "rr_take_queue budget q b F = (q', b', F') \<Longrightarrow> b' = b \<or> batch_pairs b' \<le> budget"
  by (induction budget q b F rule: rr_take_queue.induct) (fastforce split: if_splits prod.splits bool.splits)+

lemma rr_take_progress:
  assumes "rr_take_queue budget (r # q) [] F = (q', b', F')" "req_pairs r \<le> budget"
  shows "length q' \<le> length q"
proof -
  have len: "rr_take_queue budget q b F = (q', b', F') \<Longrightarrow> length q' \<le> length q" for b F
    by (induction budget q b F rule: rr_take_queue.induct) (force split: if_splits prod.splits bool.splits)+
  from assms show ?thesis by (auto dest: len split: prod.splits bool.splits)
qed

lemma fan_out_futures: "map fst (fan_out scores n batch) = map rq_future batch"
  by (induction batch arbitrary: n) auto

lemma fan_out_terminal: "list_all (\<lambda>(i, r). terminal r) (fan_out scores n batch)"
  by (induction batch arbitrary: n) auto

lemma length_physical_pairs: "length (physical_pairs batch) = batch_pairs batch"
  by (induction batch) (auto simp: physical_pairs_def req_pairs_def)

text \<open>The offsets of the fan-out are those at which the pairs of a request were written.\<close>

lemma fan_out_exact:
  "(i, FDone v) \<in> set (fan_out (done @ map sc (physical_pairs batch)) (length done) batch) \<Longrightarrow>
     \<exists>r\<in>set batch. i = rq_future r \<and> v = map (\<lambda>p. sc (rq_query r, p)) (rq_passages r)"
proof (induction batch arbitrary: "done")
  case (Cons r batch)
  let ?own = "map (\<lambda>p. sc (rq_query r, p)) (rq_passages r)"
  have s: "done @ map sc (physical_pairs (r # batch)) = (done @ ?own) @ map sc (physical_pairs batch)"
    by (simp add: physical_pairs_def comp_def)
  have n: "length done + req_pairs r = length (done @ ?own)" by (simp add: req_pairs_def)
  have "slice (length done) (length done + req_pairs r) ((done @ ?own) @ map sc (physical_pairs batch)) = ?own"
    by (simp add: slice_def req_pairs_def)
  then show ?case using Cons.prems Cons.IH [of "done @ ?own"] unfolding s fan_out.simps n by auto
qed simp

end
