(* ===== verification/Rerank_Safety.thy ===== *)
theory Rerank_Safety
  imports Rerank_Scheduler
begin

text \<open>
  The rerank scheduler under arbitrary interleaving of submitters, cancellations,
  workers and shutdown: its pair counters always equal the pairs they stand for,
  batches and the live envelope stay within their bounds, every request gets the
  scores of its own pairs, and a worker that wakes up always makes progress.
\<close>

section \<open>The system\<close>

text \<open>
  The scheduler, the batches workers are running, and every request admitted so far
  (request \<open>i\<close> owns future \<open>i\<close>).  \<open>prd pairs out\<close>: the model may answer \<open>out\<close> on \<open>pairs\<close>.
\<close>

type_synonym rr_system = "rerank_scheduler \<times> rerank_request list list \<times> rerank_request list"

inductive rr_step ::
  "((string \<times> string) list \<Rightarrow> sched_error + real list \<Rightarrow> bool) \<Rightarrow> rr_system \<Rightarrow> rr_system \<Rightarrow> bool" for prd where
  rr_submit: "submit cname query ps now w s = (Inr (Some i), s') \<Longrightarrow> parse_class cname = Some c \<Longrightarrow>
    rr_step prd (s, rs, rqs) (s', rs, rqs @ [\<lparr>rq_query = query, rq_passages = ps, rq_class = c, rq_future = i,
      rq_enqueued_at = now\<rparr>])"
| rr_refuse: "submit cname query ps now w s = (Inl err, s') \<Longrightarrow> rr_step prd (s, rs, rqs) (s', rs, rqs)"
| rr_park: "submit cname query ps now w s = (Inr None, s') \<Longrightarrow> rr_step prd (s, rs, rqs) (s', rs, rqs)"
| rr_expire: "admit_timeout c w s = (err, s') \<Longrightarrow> rr_step prd (s, rs, rqs) (s', rs, rqs)"
| rr_discard: "rr_step prd (s, rs, rqs) (discard_waiter w s, rs, rqs)"
| rr_cancel: "rr_step prd (s, rs, rqs) (s\<lparr>rr_futures := (rr_futures s)[i := fut_cancel (rr_futures s ! i)]\<rparr>, rs, rqs)"
| rr_release: "r \<in> set rqs \<Longrightarrow> rr_step prd (s, rs, rqs) (release_cancelled r s, rs, rqs)"
| rr_collect: "length rs < rr_inference_workers s \<Longrightarrow> rr_collect_batch s = (b, s') \<Longrightarrow>
    rr_step prd (s, rs, rqs) (s', if b = [] then rs else b # rs, rqs)"
| rr_finish: "b \<in> set rs \<Longrightarrow> prd (physical_pairs b) out \<Longrightarrow>
    rr_step prd (s, rs, rqs) (rr_worker_release b (rr_run_batch b out s), remove1 b rs, rqs)"
| rr_stop: "rr_step prd (s, rs, rqs) (rr_close drain s, rs, rqs)"
| rr_fail: "rr_step prd (s, rs, rqs) (rr_fail_remaining s, rs, rqs)"

section \<open>Invariant\<close>

definition live_pairs :: "rerank_request list \<Rightarrow> nat" where
  "live_pairs q = batch_pairs (filter (\<lambda>r. rq_class r = CLASS_LIVE) q)"

lemma live_pairs_simps [simp]: "live_pairs [] = 0" "live_pairs (p @ q) = live_pairs p + live_pairs q"
  by (simp_all add: live_pairs_def)

lemma batch_pairs_filter: "batch_pairs (filter P q) \<le> batch_pairs q"
  by (induction q) auto

lemma live_pairs_le: "live_pairs q \<le> batch_pairs q"
  unfolding live_pairs_def by (rule batch_pairs_filter)

abbreviation queued :: "rerank_scheduler \<Rightarrow> rerank_request list" where
  "queued s \<equiv> rr_queues s CLASS_LIVE @ rr_queues s CLASS_BACKGROUND"

text \<open>
  What the queues and futures satisfy while a batch \<open>b\<close> is being composed; \<open>R\<close>: futures
  of running batches, \<open>L\<close> and \<open>P\<close>: bounds on live and pending pairs.
\<close>

definition rr_core ::
  "rerank_request list \<Rightarrow> nat list \<Rightarrow> nat \<Rightarrow> (sched_class \<Rightarrow> nat) \<Rightarrow> rerank_request list \<Rightarrow> rerank_scheduler \<Rightarrow> bool" where
  "rr_core rqs R L P b s \<longleftrightarrow>
     (\<forall>c. rr_pending s c = int (batch_pairs (rr_queues s c))) \<and> (\<forall>c. batch_pairs (rr_queues s c) \<le> P c)
     \<and> batch_pairs (rr_queues s CLASS_LIVE) + live_pairs b \<le> L
     \<and> (\<forall>c. \<forall>r\<in>set (rr_queues s c). rq_class r = c)
     \<and> (\<forall>r\<in>set (queued s @ b). rq_future r < length rqs \<and> rqs ! rq_future r = r \<and> req_pairs r \<le> max_batch_pairs s)
     \<and> batch_pairs b \<le> max_batch_pairs s \<and> length (rr_futures s) = length rqs
     \<and> ledger_ok (map rq_future (queued s)) (map rq_future b @ R) (rr_futures s)"

lemma rr_core_distinct:
  assumes "rr_core rqs R L P b s"
  shows "distinct (map rq_future (rr_queues s c))"
  using assms unfolding rr_core_def ledger_ok_def by (cases c) auto

lemma rr_take_locked_spec:
  assumes d: "distinct (map rq_future (rr_queues s c))" and t: "rr_take_locked c budget (b, s) = (b', s')"
  shows "\<exists>pre q. rr_queues s c = pre @ q \<and> b' = b @ filter (\<lambda>r. rr_futures s ! rq_future r = FPending) pre
    \<and> s' = s\<lparr>rr_queues := (rr_queues s)(c := q), rr_pending := (rr_pending s)(c := rr_pending s c - int (batch_pairs pre)),
         rr_futures := start_all (map rq_future pre) (rr_futures s)\<rparr>
    \<and> (batch_pairs b \<le> max_batch_pairs s \<longrightarrow> batch_pairs b' \<le> max_batch_pairs s)"
proof -
  obtain q b1 F where q: "rr_take_queue (min budget (max_batch_pairs s)) (rr_queues s c) b (rr_futures s) = (q, b1, F)"
    by (metis prod_cases3)
  obtain pre where p: "rr_queues s c = pre @ q" "b1 = b @ filter (\<lambda>r. rr_futures s ! rq_future r = FPending) pre"
    "F = start_all (map rq_future pre) (rr_futures s)" using rr_take.tk_prefix [OF d q] by blast
  have "batch_pairs b1 \<le> max_batch_pairs s" if "batch_pairs b \<le> max_batch_pairs s"
    using rr_take_budget [OF q] that by auto
  then show ?thesis using t p q by (intro exI [of _ pre] exI [of _ q]) (auto simp: rr_take_locked_def)
qed

lemma rr_core_take:
  assumes i: "rr_core rqs R L P b s" and t: "rr_take_locked c budget (b, s) = (b', s')"
  shows "rr_core rqs R L P b' s'"
proof -
  obtain pre q where q: "rr_queues s c = pre @ q" and b': "b' = b @ filter (\<lambda>r. rr_futures s ! rq_future r = FPending) pre"
    and s': "s' = s\<lparr>rr_queues := (rr_queues s)(c := q), rr_pending := (rr_pending s)(c := rr_pending s c - int (batch_pairs pre)),
         rr_futures := start_all (map rq_future pre) (rr_futures s)\<rparr>"
    and mb: "batch_pairs b \<le> max_batch_pairs s \<Longrightarrow> batch_pairs b' \<le> max_batch_pairs s"
    using rr_take_locked_spec [OF rr_core_distinct [OF i] t] by blast
  let ?f = "filter (\<lambda>r. rr_futures s ! rq_future r = FPending) pre"
  define Q where "Q = map rq_future (queued s')"
  have m: "mset (map rq_future (queued s)) = mset (map rq_future pre @ Q)"
    using q by (cases c) (simp_all add: Q_def s')
  have "ledger_ok (map rq_future pre @ Q) (map rq_future b @ R) (rr_futures s)"
    by (rule ledger_perm [OF _ m refl]) (use i in \<open>simp add: rr_core_def\<close>)
  from ledger_start_all [OF this] have "ledger_ok Q (map rq_future b' @ R) (start_all (map rq_future pre) (rr_futures s))"
    by (rule ledger_perm) (simp_all add: b' filter_map comp_def)
  then have "ledger_ok Q (map rq_future b' @ R) (rr_futures s')" by (simp add: s')
  moreover have "\<forall>r\<in>set (queued s' @ b'). r \<in> set (queued s @ b)"
    using q by (cases c) (auto simp: s' b')
  moreover have "batch_pairs (rr_queues s' CLASS_LIVE) + live_pairs b' \<le> batch_pairs (rr_queues s CLASS_LIVE) + live_pairs b"
  proof (cases c)
    case CLASS_LIVE
    have "live_pairs ?f \<le> batch_pairs pre" using live_pairs_le batch_pairs_filter order_trans by blast
    with CLASS_LIVE q show ?thesis by (simp add: s' b')
  next
    case CLASS_BACKGROUND
    then have "\<forall>r\<in>set pre. rq_class r = CLASS_BACKGROUND" using i q unfolding rr_core_def by fastforce
    then have "live_pairs ?f = 0" by (auto simp: live_pairs_def filter_empty_conv)
    with CLASS_BACKGROUND show ?thesis by (simp add: s' b')
  qed
  moreover have "batch_pairs q \<le> P c"
  proof -
    have "batch_pairs (pre @ q) \<le> P c" using i q unfolding rr_core_def by metis
    then show ?thesis by simp
  qed
  ultimately show ?thesis
    using i mb q unfolding rr_core_def Q_def by (auto simp: s')
qed

lemma rr_take_keeps:
  "\<exists>q p F. snd (rr_take_locked c budget (b, s)) = s\<lparr>rr_queues := q, rr_pending := p, rr_futures := F\<rparr>"
  by (simp add: rr_take_locked_def split: prod.splits) blast

text \<open>Composition is three takes; what each of them keeps, composition keeps.\<close>

lemma rr_compose_elim:
  assumes "rr_compose_locked s = (b, s')"
  obtains b1 s1 b2 s2 s3 where
    "rr_take_locked CLASS_LIVE (max_batch_pairs s - (if rr_background_admissible s then rr_background_floor s else 0)) ([], s)
       = (b1, s1)"
    "(if rr_background_admissible s then rr_take_locked CLASS_BACKGROUND (max_batch_pairs s) (b1, s1) else (b1, s1)) = (b2, s2)"
    "rr_take_locked CLASS_LIVE (max_batch_pairs s) (b2, s2) = (b, s3)" "s' = notify_capacity s3"
proof -
  obtain b1 s1 where 1: "rr_take_locked CLASS_LIVE
      (max_batch_pairs s - (if rr_background_admissible s then rr_background_floor s else 0)) ([], s) = (b1, s1)"
    by fastforce
  obtain b2 s2 where 2: "(if rr_background_admissible s then rr_take_locked CLASS_BACKGROUND (max_batch_pairs s) (b1, s1)
      else (b1, s1)) = (b2, s2)" by fastforce
  obtain b3 s3 where 3: "rr_take_locked CLASS_LIVE (max_batch_pairs s) (b2, s2) = (b3, s3)" by fastforce
  have "rr_compose_locked s = (b3, notify_capacity s3)"
    unfolding rr_compose_locked_def Let_def by (simp only: 1 2 3 prod.sel)
  with assms that [OF 1 2] 3 show ?thesis by simp
qed

lemma rr_core_notify [simp]: "rr_core rqs R L P b (notify_capacity s) = rr_core rqs R L P b s"
  by (simp add: rr_core_def notify_capacity_def)

lemma rr_compose_core:
  assumes c: "rr_compose_locked s = (b, s')" and i: "rr_core rqs R L P [] s"
  shows "rr_core rqs R L P b s'"
proof -
  obtain b1 s1 b2 s2 s3 where 1: "rr_take_locked CLASS_LIVE
      (max_batch_pairs s - (if rr_background_admissible s then rr_background_floor s else 0)) ([], s) = (b1, s1)"
    and 2: "(if rr_background_admissible s then rr_take_locked CLASS_BACKGROUND (max_batch_pairs s) (b1, s1)
      else (b1, s1)) = (b2, s2)"
    and 3: "rr_take_locked CLASS_LIVE (max_batch_pairs s) (b2, s2) = (b, s3)" and s': "s' = notify_capacity s3"
    using rr_compose_elim [OF c] by metis
  have "rr_core rqs R L P b1 s1" by (rule rr_core_take [OF i 1])
  then have "rr_core rqs R L P b2 s2" using 2 rr_core_take by (auto split: if_splits)
  then have "rr_core rqs R L P b s3" by (rule rr_core_take [OF _ 3])
  then show ?thesis by (simp add: s')
qed

lemma rr_compose_keeps:
  assumes "rr_compose_locked s = (b, s')"
  shows "\<exists>q p F. s' = s\<lparr>rr_queues := q, rr_pending := p, rr_futures := F, capacity_waiters := [],
    resolved_waiters := resolved_waiters s @ capacity_waiters s\<rparr>"
proof -
  have k: "\<exists>q p F. s2 = s1\<lparr>rr_queues := q, rr_pending := p, rr_futures := F\<rparr>"
    if "rr_take_locked c m (b1, s1) = (b2, s2)" for c m b1 s1 b2 s2
    using rr_take_keeps [of c m b1 s1] that by simp
  show ?thesis
    by (rule rr_compose_elim [OF assms])
      ((auto simp: notify_capacity_def split: if_splits dest!: k); ((rule exI)+, rule refl))
qed

text \<open>Only an admissible background queue gives a batch background work.\<close>

lemma rr_compose_background:
  assumes c: "rr_compose_locked s = (b, s')" and i: "rr_core rqs R L P [] s" and bg: "rr_carries_background b"
  shows "rr_background_admissible s"
proof (rule ccontr)
  assume n: "\<not> rr_background_admissible s"
  have live: "\<not> rr_carries_background b2" if "rr_core rqs R L P b1 s1" "\<not> rr_carries_background b1"
    "rr_take_locked CLASS_LIVE m (b1, s1) = (b2, s2)" for b1 s1 b2 s2 m
  proof -
    have "\<forall>r\<in>set (rr_queues s1 CLASS_LIVE). rq_class r = CLASS_LIVE" using that(1) by (simp add: rr_core_def)
    with rr_take_locked_spec [OF rr_core_distinct [OF that(1)] that(3)] that(2) show ?thesis
      by (auto simp: rr_carries_background_def list_ex_iff)
  qed
  obtain b1 s1 s3 where 1: "rr_take_locked CLASS_LIVE (max_batch_pairs s) ([], s) = (b1, s1)"
    and 3: "rr_take_locked CLASS_LIVE (max_batch_pairs s) (b1, s1) = (b, s3)"
    by (rule rr_compose_elim [OF c]) (use n in auto)
  have "\<not> rr_carries_background b1" by (rule live [OF i _ 1]) (simp add: rr_carries_background_def)
  then have "\<not> rr_carries_background b" by (rule live [OF rr_core_take [OF i 1] _ 3])
  with bg show False by simp
qed

section \<open>The invariant of the system\<close>

definition rr_config :: "rerank_scheduler \<Rightarrow> nat \<times> nat \<times> nat \<times> nat \<times> nat \<times> nat \<times> nat" where
  "rr_config s = (max_batch_pairs s, max_outstanding_pairs s, max_pending_pairs s, rr_live_reserve s,
     rr_background_floor s, rr_max_background_inflight s, rr_inference_workers s)"

definition rr_running :: "rr_system \<Rightarrow> bool" where
  "rr_running sys = (case sys of (s, rs, rqs) \<Rightarrow>
     rr_busy_workers s = int (length rs) \<and> length rs \<le> rr_inference_workers s
     \<and> inflight_pairs s = int (batch_pairs (concat rs))
     \<and> rr_background_inflight s = int (length (filter rr_carries_background rs))
     \<and> length (filter rr_carries_background rs) \<le> rr_max_background_inflight s
     \<and> (\<forall>b\<in>set rs. b \<noteq> [] \<and> batch_pairs b \<le> max_batch_pairs s)
     \<and> (\<forall>r\<in>set (concat rs). rq_future r < length rqs \<and> rqs ! rq_future r = r)
     \<and> (\<forall>i<length rqs. rq_future (rqs ! i) = i)
     \<and> live_pairs (concat rs) \<le> max_outstanding_pairs s)"

definition rr_pending_ok :: "rerank_scheduler \<Rightarrow> bool" where
  "rr_pending_ok s \<longleftrightarrow> 1 \<le> max_pending_pairs s
     \<and> batch_pairs (rr_queues s CLASS_LIVE) + batch_pairs (rr_queues s CLASS_BACKGROUND) \<le> max_pending_pairs s
     \<and> batch_pairs (rr_queues s CLASS_BACKGROUND) \<le> rr_pending_limit CLASS_BACKGROUND s"

definition rr_inv :: "rerank_scheduler \<Rightarrow> rr_system \<Rightarrow> bool" where
  "rr_inv s0 sys = (case sys of (s, rs, rqs) \<Rightarrow>
     rr_core rqs (map rq_future (concat rs)) (max_outstanding_pairs s - live_pairs (concat rs))
       (\<lambda>c. batch_pairs (rr_queues s c)) [] s
     \<and> rr_running sys \<and> rr_pending_ok s \<and> rr_config s = rr_config s0)"

lemma rr_inv_frame:
  assumes i: "rr_inv s0 (s, rs, rqs)"
    and F: "ledger_ok (map rq_future (queued s)) (map rq_future (concat rs)) (rr_futures s')"
      "length (rr_futures s') = length (rr_futures s)"
    and s': "s' = s\<lparr>rr_futures := rr_futures s', capacity_waiters := capacity_waiters s',
      resolved_waiters := resolved_waiters s', rr_closed := rr_closed s', rr_drain_pending := rr_drain_pending s',
      rr_rejections := rr_rejections s', rr_timeouts := rr_timeouts s'\<rparr>"
  shows "rr_inv s0 (s', rs, rqs)"
proof -
  obtain F cw rw c d r t where e: "s' = s\<lparr>rr_futures := F, capacity_waiters := cw, resolved_waiters := rw, rr_closed := c,
      rr_drain_pending := d, rr_rejections := r, rr_timeouts := t\<rparr>" using s' by blast
  have "rr_core rqs (map rq_future (concat rs)) (max_outstanding_pairs s' - live_pairs (concat rs))
      (\<lambda>c. batch_pairs (rr_queues s' c)) [] s'"
    using i F unfolding rr_inv_def rr_core_def e by simp
  moreover have "rr_running (s', rs, rqs)" using i unfolding rr_inv_def rr_running_def e by simp
  moreover have "rr_pending_ok s'" using i unfolding rr_inv_def rr_pending_ok_def e rr_pending_limit_def by simp
  moreover have "rr_config s' = rr_config s0" using i unfolding rr_inv_def e by (simp add: rr_config_def)
  ultimately show ?thesis by (simp add: rr_inv_def)
qed

lemma rr_inv_ledger:
  "rr_inv s0 (s, rs, rqs) \<Longrightarrow> ledger_ok (map rq_future (queued s)) (map rq_future (concat rs)) (rr_futures s)"
  by (simp add: rr_inv_def rr_core_def)

lemma submit_admitted:
  assumes "submit cname query ps now w s = (Inr (Some i), s')" "parse_class cname = Some c"
    and r: "r = \<lparr>rq_query = query, rq_passages = ps, rq_class = c, rq_future = i, rq_enqueued_at = now\<rparr>"
  shows "i = length (rr_futures s) \<and> ps \<noteq> [] \<and> s' = rr_enqueue r s \<and> length ps \<le> max_batch_pairs s
    \<and> total_pending_pairs s + int (length ps) \<le> int (rr_pending_limit c s) \<and> outstanding_fits c (length ps) s"
  using assms by (auto simp: submit_def rr_admit_def Let_def split: if_splits)

lemma submit_other:
  assumes "submit cname query ps now w s = (out, s')" "\<nexists>i. out = Inr (Some i)"
  shows "s' = s\<lparr>rr_rejections := rr_rejections s', capacity_waiters := capacity_waiters s'\<rparr>"
  using assms by (auto simp: submit_def rr_admit_def Let_def rr_record_rejection_def split: if_splits option.splits)

section \<open>Preservation\<close>

lemma rr_inv_pairs:
  assumes "rr_inv s0 (s, rs, rqs)"
  shows "rr_pending s c = int (batch_pairs (rr_queues s c))" "inflight_pairs s = int (batch_pairs (concat rs))"
    "length (rr_futures s) = length rqs"
    "total_pending_pairs s = int (batch_pairs (rr_queues s CLASS_LIVE) + batch_pairs (rr_queues s CLASS_BACKGROUND))"
    "batch_pairs (rr_queues s CLASS_LIVE) \<le> max_outstanding_pairs s - live_pairs (concat rs)"
  using assms by (simp_all add: rr_inv_def rr_core_def rr_running_def total_pending_pairs_def)

lemma enqueue_core:
  assumes i: "rr_inv s0 (s, rs, rqs)" and r: "rq_future r = length rqs" "req_pairs r \<le> max_batch_pairs s"
    and fit: "rq_class r = CLASS_LIVE \<Longrightarrow> batch_pairs (rr_queues s CLASS_LIVE) + req_pairs r
      \<le> max_outstanding_pairs s - live_pairs (concat rs)"
  shows "rr_core (rqs @ [r]) (map rq_future (concat rs)) (max_outstanding_pairs s - live_pairs (concat rs))
    (\<lambda>c. batch_pairs (rr_queues (rr_enqueue r s) c)) [] (rr_enqueue r s)"
proof -
  have c: "rr_core rqs (map rq_future (concat rs)) (max_outstanding_pairs s - live_pairs (concat rs))
      (\<lambda>c. batch_pairs (rr_queues s c)) [] s" using i by (simp add: rr_inv_def)
  have n: "length (rr_futures s) = length rqs" by (rule rr_inv_pairs(3) [OF i])
  have l: "ledger_ok (map rq_future (queued s) @ [length (rr_futures s) ..< length (rr_futures s) + 1])
      (map rq_future (concat rs)) (rr_futures s @ replicate 1 FPending)"
    by (rule ledger_admit [OF rr_inv_ledger [OF i]])
  have m: "mset (map rq_future (queued s) @ [length (rr_futures s) ..< length (rr_futures s) + 1])
      = mset (map rq_future (queued (rr_enqueue r s)))"
    using r(1) n by (cases "rq_class r") (simp_all add: rr_enqueue_def)
  have "ledger_ok (map rq_future (queued (rr_enqueue r s))) (map rq_future (concat rs)) (rr_futures (rr_enqueue r s))"
    using ledger_perm [OF l m refl] by (simp add: rr_enqueue_def)
  moreover have "\<forall>x\<in>set (queued (rr_enqueue r s)). x \<in> set (queued s) \<or> x = r"
    by (cases "rq_class r") (auto simp: rr_enqueue_def)
  ultimately show ?thesis using c r fit n unfolding rr_core_def
    by (auto simp: rr_enqueue_def nth_append intro: less_SucI)
qed

lemma enqueue_inv:
  assumes i: "rr_inv s0 (s, rs, rqs)" and r: "rq_future r = length rqs" "req_pairs r \<le> max_batch_pairs s"
    and p: "total_pending_pairs s + int (req_pairs r) \<le> int (rr_pending_limit (rq_class r) s)"
    and o: "outstanding_fits (rq_class r) (req_pairs r) s"
  shows "rr_inv s0 (rr_enqueue r s, rs, rqs @ [r])"
proof -
  have "live_pairs (concat rs) \<le> batch_pairs (concat rs)" by (rule live_pairs_le)
  then have "rq_class r = CLASS_LIVE \<Longrightarrow> batch_pairs (rr_queues s CLASS_LIVE) + req_pairs r
      \<le> max_outstanding_pairs s - live_pairs (concat rs)"
    using o rr_inv_pairs(1,2) [OF i] by (simp add: outstanding_fits_def)
  from enqueue_core [OF i r this] have "rr_core (rqs @ [r]) (map rq_future (concat rs))
      (max_outstanding_pairs (rr_enqueue r s) - live_pairs (concat rs))
      (\<lambda>c. batch_pairs (rr_queues (rr_enqueue r s) c)) [] (rr_enqueue r s)" by (simp add: rr_enqueue_def)
  moreover have "rr_running (rr_enqueue r s, rs, rqs @ [r])"
  proof -
    have "rr_running (s, rs, rqs)" using i by (simp add: rr_inv_def)
    then show ?thesis using r(1) unfolding rr_running_def
      by (auto simp: rr_enqueue_def nth_append less_Suc_eq)
  qed
  moreover have "rr_pending_ok (rr_enqueue r s)"
  proof -
    have k: "rr_pending_ok s" using i by (simp add: rr_inv_def)
    then have "rr_pending_limit (rq_class r) s \<le> max_pending_pairs s"
      by (cases "rq_class r") (auto simp: rr_pending_ok_def rr_pending_limit_def)
    with k p rr_inv_pairs(4) [OF i] show ?thesis
      by (cases "rq_class r") (auto simp: rr_pending_ok_def rr_enqueue_def rr_pending_limit_def)
  qed
  moreover have "rr_config (rr_enqueue r s) = rr_config s0" using i by (simp add: rr_inv_def rr_config_def rr_enqueue_def)
  ultimately show ?thesis by (simp add: rr_inv_def)
qed

lemma collect_inv:
  assumes i: "rr_inv s0 (s, rs, rqs)" and w: "length rs < rr_inference_workers s" and c: "rr_collect_batch s = (b, s')"
  shows "rr_inv s0 (s', if b = [] then rs else b # rs, rqs)"
proof -
  obtain s1 where c1: "rr_compose_locked s = (b, s1)" and s': "s' = (if b = [] then s1 else
      s1\<lparr>rr_busy_workers := rr_busy_workers s1 + 1, inflight_pairs := inflight_pairs s1 + int (batch_pairs b),
        rr_background_inflight := rr_background_inflight s1 + (if rr_carries_background b then 1 else 0)\<rparr>)"
    using c by (auto simp: rr_collect_batch_def split: prod.splits)
  have i0: "rr_core rqs (map rq_future (concat rs)) (max_outstanding_pairs s - live_pairs (concat rs))
      (\<lambda>c. batch_pairs (rr_queues s c)) [] s" and run: "rr_running (s, rs, rqs)" and p: "rr_pending_ok s"
    using i by (simp_all add: rr_inv_def)
  have core: "rr_core rqs (map rq_future (concat rs)) (max_outstanding_pairs s - live_pairs (concat rs))
      (\<lambda>c. batch_pairs (rr_queues s c)) b s1" by (rule rr_compose_core [OF c1 i0])
  obtain q pe F where s1: "s1 = s\<lparr>rr_queues := q, rr_pending := pe, rr_futures := F, capacity_waiters := [],
      resolved_waiters := resolved_waiters s @ capacity_waiters s\<rparr>" using rr_compose_keeps [OF c1] by blast
  have bg: "rr_carries_background b \<Longrightarrow> rr_background_inflight s < int (rr_max_background_inflight s)"
    using rr_compose_background [OF c1 i0] by (simp add: rr_background_admissible_def)
  let ?rs = "if b = [] then rs else b # rs"
  have "rr_core rqs (map rq_future (concat ?rs)) (max_outstanding_pairs s' - live_pairs (concat ?rs))
      (\<lambda>c. batch_pairs (rr_queues s' c)) [] s'"
    using core by (auto simp: rr_core_def s' s1)
  moreover have "rr_running (s', ?rs, rqs)"
    using run core w bg unfolding rr_running_def rr_core_def
    by (auto simp: s' s1)
  moreover have "rr_pending_ok s'"
  proof -
    have "batch_pairs (q c) \<le> batch_pairs (rr_queues s c)" for c using core by (simp add: rr_core_def s1)
    from this [of CLASS_LIVE] this [of CLASS_BACKGROUND] p show ?thesis
      by (simp add: rr_pending_ok_def s' s1 rr_pending_limit_def)
  qed
  moreover have "rr_config s' = rr_config s0" using i by (simp add: rr_inv_def s' s1 rr_config_def)
  ultimately show ?thesis by (simp add: rr_inv_def)
qed

lemma del_request_split:
  "list_ex (\<lambda>x. rq_future x = i) q \<Longrightarrow> \<exists>x\<in>set q. rq_future x = i \<and> mset q = mset (x # del_request i q)"
  by (induction q) (auto split: if_splits)

lemma release_inv:
  assumes i: "rr_inv s0 (s, rs, rqs)" and r: "r \<in> set rqs"
  shows "rr_inv s0 (release_cancelled r s, rs, rqs)"
proof (cases "is_cancelled (rr_futures s ! rq_future r) \<and> list_ex (\<lambda>x. rq_future x = rq_future r) (rr_queues s (rq_class r))")
  case True
  let ?c = "rq_class r" and ?i = "rq_future r"
  let ?q = "del_request ?i (rr_queues s ?c)"
  define s1 where "s1 = s\<lparr>rr_queues := (rr_queues s)(?c := ?q), rr_pending := (rr_pending s)(?c := rr_pending s ?c - int (req_pairs r))\<rparr>"
  have s': "release_cancelled r s = notify_capacity s1" using True by (simp add: release_cancelled_def Let_def s1_def)
  have core: "rr_core rqs (map rq_future (concat rs)) (max_outstanding_pairs s - live_pairs (concat rs))
      (\<lambda>c. batch_pairs (rr_queues s c)) [] s" and run: "rr_running (s, rs, rqs)" and p: "rr_pending_ok s"
    using i by (simp_all add: rr_inv_def)
  obtain x where x: "x \<in> set (rr_queues s ?c)" "rq_future x = ?i" "mset (rr_queues s ?c) = mset (x # ?q)"
    using del_request_split True by blast
  have xr: "x = r"
  proof -
    have "x \<in> set (queued s)" using x(1) by (cases ?c) auto
    then have "rqs ! rq_future x = x" using core unfolding rr_core_def by simp
    then have "rqs ! ?i = x" unfolding x(2) .
    moreover obtain j where "j < length rqs" "rqs ! j = r" using r by (metis in_set_conv_nth)
    then have "rqs ! ?i = r" using run unfolding rr_running_def by auto
    ultimately show ?thesis by simp
  qed
  have m: "mset (map rq_future (queued s)) = mset (?i # map rq_future (queued s1))"
    using x(3) arg_cong [OF x(3), of "image_mset rq_future"] by (cases ?c) (simp_all add: s1_def xr)
  have led: "ledger_ok (?i # map rq_future (queued s1)) (map rq_future (concat rs)) (rr_futures s)"
    by (rule ledger_perm [OF rr_inv_ledger [OF i] m refl])
  then have "rr_futures s ! ?i = FCancelled"
    using True unfolding ledger_ok_def is_cancelled_def by (auto split: fut.splits)
  with led have l1: "ledger_ok (map rq_future (queued s1)) (map rq_future (concat rs)) (rr_futures s1)"
    using ledger_release [OF led] by (simp add: s1_def)
  have bp: "batch_pairs (rr_queues s ?c) = req_pairs r + batch_pairs ?q"
    using arg_cong [OF x(3), of "\<lambda>m. sum_mset (image_mset req_pairs m)"]
    by (simp add: batch_pairs_def sum_mset_sum_list [symmetric] xr del: sum_mset_sum_list)
  have sub: "set ?q \<subseteq> set (rr_queues s ?c)" using mset_eq_setD [OF x(3)] by auto
  have sub': "\<forall>y\<in>set (queued s1). y \<in> set (queued s)" using sub by (cases ?c) (auto simp: s1_def)
  have "rr_core rqs (map rq_future (concat rs)) (max_outstanding_pairs s1 - live_pairs (concat rs))
      (\<lambda>c. batch_pairs (rr_queues s1 c)) [] s1"
    using core l1 sub' sub bp unfolding rr_core_def by (auto simp: s1_def)
  moreover have "rr_running (s1, rs, rqs)" using run by (simp add: rr_running_def s1_def)
  moreover have "rr_pending_ok s1" using p bp by (cases ?c) (auto simp: rr_pending_ok_def rr_pending_limit_def s1_def)
  moreover have "rr_config s1 = rr_config s0" using i by (simp add: rr_inv_def rr_config_def s1_def)
  ultimately have i1: "rr_inv s0 (s1, rs, rqs)" by (simp add: rr_inv_def)
  show ?thesis unfolding s' by (rule rr_inv_frame [OF i1]) (use rr_inv_ledger [OF i1] in \<open>simp_all add: notify_capacity_def\<close>)
next
  case False
  then have "release_cancelled r s = s" by (auto simp: release_cancelled_def Let_def)
  with i show ?thesis by simp
qed

lemma rr_run_batch_settles:
  "\<exists>xs n. rr_run_batch b out s = s\<lparr>rr_futures := settle_all xs (rr_futures s), rr_inference_calls := rr_inference_calls s + 1,
       pairs_scored := n\<rparr>
     \<and> map fst xs = map rq_future b \<and> list_all (\<lambda>(i, r). terminal r) xs
     \<and> (\<forall>i v. (i, FDone v) \<in> set xs \<longrightarrow> (\<exists>sc. out = Inr sc \<and> length sc = length (physical_pairs b)
          \<and> (i, FDone v) \<in> set (fan_out sc 0 b)))"
proof -
  have err: "?thesis" if "rr_run_batch b out s = rr_complete_with_error b e (s\<lparr>rr_inference_calls := rr_inference_calls s + 1\<rparr>)" for e
    by (rule exI [of _ "map (\<lambda>x. (rq_future x, FError e)) b"], rule exI [of _ "pairs_scored s"])
      (auto simp: that rr_complete_with_error_def list_all_iff)
  show ?thesis
  proof (cases out)
    case (Inl e)
    then show ?thesis by (intro err [of e]) (simp add: rr_run_batch_def)
  next
    case (Inr sc)
    show ?thesis
    proof (cases "length sc = length (physical_pairs b)")
      case True
      with Inr show ?thesis
        by (intro exI [of _ "fan_out sc 0 b"] exI [of _ "pairs_scored s + length (physical_pairs b)"])
          (auto simp: rr_run_batch_def Let_def fan_out_futures fan_out_terminal)
    qed (intro err [of ResultMismatch], simp add: rr_run_batch_def Inr)
  qed
qed

lemma batch_pairs_mset: "mset p = mset q \<Longrightarrow> batch_pairs p = batch_pairs q"
  by (metis batch_pairs_def mset_map sum_mset_sum_list)

lemma live_pairs_mset: "mset p = mset q \<Longrightarrow> live_pairs p = live_pairs q"
  unfolding live_pairs_def by (rule batch_pairs_mset) simp

lemma finish_inv:
  assumes i: "rr_inv s0 (s, rs, rqs)" and b: "b \<in> set rs"
  shows "rr_inv s0 (rr_worker_release b (rr_run_batch b out s), remove1 b rs, rqs)"
proof -
  obtain xs k n where r: "rr_run_batch b out s = s\<lparr>rr_futures := settle_all xs (rr_futures s),
      rr_inference_calls := k, pairs_scored := n\<rparr>" and xs: "map fst xs = map rq_future b"
    "list_all (\<lambda>(i, r). terminal r) xs" using rr_run_batch_settles by blast
  define s' where "s' = rr_worker_release b (rr_run_batch b out s)"
  have m: "mset (concat rs) = mset (b @ concat (remove1 b rs))" using mset_concat_remove1 [OF b] by simp
  have "ledger_ok (map rq_future (queued s)) (map fst xs @ map rq_future (concat (remove1 b rs))) (rr_futures s)"
    unfolding xs(1) map_append [symmetric]
    by (rule ledger_perm [OF rr_inv_ledger [OF i]]) (use m in simp_all)
  then have led: "ledger_ok (map rq_future (queued s)) (map rq_future (concat (remove1 b rs))) (settle_all xs (rr_futures s))"
    by (rule ledger_settle_all [OF _ xs(2)])
  have bp: "batch_pairs (concat rs) = batch_pairs b + batch_pairs (concat (remove1 b rs))"
    "live_pairs (concat rs) = live_pairs b + live_pairs (concat (remove1 b rs))"
    using batch_pairs_mset [OF m] live_pairs_mset [OF m] by simp_all
  have sub: "set (concat (remove1 b rs)) \<subseteq> set (concat rs)" using mset_eq_setD [OF m] by auto
  have core: "rr_core rqs (map rq_future (concat rs)) (max_outstanding_pairs s - live_pairs (concat rs))
      (\<lambda>c. batch_pairs (rr_queues s c)) [] s" and run: "rr_running (s, rs, rqs)" and p: "rr_pending_ok s"
    using i by (simp_all add: rr_inv_def)
  have e: "s' = s\<lparr>rr_futures := settle_all xs (rr_futures s), rr_inference_calls := k, pairs_scored := n,
      rr_busy_workers := rr_busy_workers s - 1, inflight_pairs := inflight_pairs s - int (batch_pairs b),
      rr_background_inflight := rr_background_inflight s - (if rr_carries_background b then 1 else 0),
      capacity_waiters := [], resolved_waiters := resolved_waiters s @ capacity_waiters s\<rparr>"
    unfolding s'_def r rr_worker_release_def notify_capacity_def by simp
  have "rr_core rqs (map rq_future (concat (remove1 b rs))) (max_outstanding_pairs s' - live_pairs (concat (remove1 b rs)))
      (\<lambda>c. batch_pairs (rr_queues s' c)) [] s'"
  proof -
    have "batch_pairs (rr_queues s CLASS_LIVE) \<le> max_outstanding_pairs s - live_pairs (concat (remove1 b rs))"
      using rr_inv_pairs(5) [OF i] bp(2) by linarith
    then show ?thesis using core led bp unfolding rr_core_def e by simp
  qed
  moreover have "rr_running (s', remove1 b rs, rqs)"
  proof -
    have n: "length rs \<ge> 1" using b by (cases rs) auto
    have f: "rr_carries_background b \<Longrightarrow> length (filter rr_carries_background rs) \<ge> 1"
      using b by (auto simp: Suc_le_eq filter_empty_conv)
    have mem: "x \<in> set rs" if "x \<in> set (remove1 b rs)" for x
      by (rule subsetD [OF set_remove1_subset that])
    have run': "rr_busy_workers s = int (length rs)" "length rs \<le> rr_inference_workers s"
      "inflight_pairs s = int (batch_pairs (concat rs))"
      "rr_background_inflight s = int (length (filter rr_carries_background rs))"
      "length (filter rr_carries_background rs) \<le> rr_max_background_inflight s"
      "live_pairs (concat rs) \<le> max_outstanding_pairs s" using run by (simp_all add: rr_running_def)
    have "rr_busy_workers s' = int (length (remove1 b rs)) \<and> length (remove1 b rs) \<le> rr_inference_workers s'"
      using run'(1,2) n b by (simp add: e length_remove1 of_nat_diff)
    moreover have "inflight_pairs s' = int (batch_pairs (concat (remove1 b rs)))"
      using run'(3) bp(1) by (simp add: e)
    moreover have "rr_background_inflight s' = int (length (filter rr_carries_background (remove1 b rs)))
        \<and> length (filter rr_carries_background (remove1 b rs)) \<le> rr_max_background_inflight s'"
      using run'(4,5) f by (auto simp: e filter_remove1 [OF b] of_nat_diff)
    moreover have "live_pairs (concat (remove1 b rs)) \<le> max_outstanding_pairs s'"
      using run'(6) bp(2) by (simp add: e)
    moreover have "max_batch_pairs s' = max_batch_pairs s" by (simp add: e)
    ultimately show ?thesis using run mem sub unfolding rr_running_def prod.case by simp blast
  qed
  moreover have "rr_pending_ok s'" using p unfolding rr_pending_ok_def rr_pending_limit_def e by simp
  moreover have "rr_config s' = rr_config s0" using i unfolding rr_inv_def e by (simp add: rr_config_def)
  ultimately show ?thesis unfolding s'_def [symmetric] by (simp add: rr_inv_def)
qed

lemma fail_inv:
  assumes i: "rr_inv s0 (s, rs, rqs)"
  shows "rr_inv s0 (rr_fail_remaining s, rs, rqs)"
proof -
  have l: "ledger_ok [] (map rq_future (concat rs)) (fail_all SchedulerClosed (map rq_future (queued s)) (rr_futures s))"
    by (rule ledger_fail_all) (use rr_inv_ledger [OF i] in simp)
  have e: "rr_fail_remaining s = s\<lparr>rr_queues := (\<lambda>_. []), rr_pending := (\<lambda>_. 0),
      rr_futures := fail_all SchedulerClosed (map rq_future (queued s)) (rr_futures s),
      capacity_waiters := [], resolved_waiters := resolved_waiters s @ capacity_waiters s\<rparr>"
    by (simp add: rr_fail_remaining_def notify_capacity_def Let_def)
  have "rr_core rqs (map rq_future (concat rs)) L P [] (rr_fail_remaining s)" for L P
    using l rr_inv_pairs(3) [OF i] unfolding e rr_core_def by simp
  moreover have "rr_running (rr_fail_remaining s, rs, rqs)" using i unfolding rr_inv_def rr_running_def e by simp
  moreover have "rr_pending_ok (rr_fail_remaining s)" using i unfolding rr_inv_def rr_pending_ok_def e by simp
  moreover have "rr_config (rr_fail_remaining s) = rr_config s0" using i unfolding rr_inv_def e by (simp add: rr_config_def)
  ultimately show ?thesis by (simp add: rr_inv_def)
qed

lemma rr_inv_step:
  assumes "rr_step prd x y" "rr_inv s0 x"
  shows "rr_inv s0 y"
  using assms(1)
proof (cases rule: rr_step.cases)
  case (rr_submit cname query ps now w s i s' c rs rqs)
  note inv = assms(2) [unfolded rr_submit(1)]
  from submit_admitted [OF rr_submit(3,4) refl] rr_inv_pairs(3) [OF inv] show ?thesis
    unfolding rr_submit(2) by (auto intro!: enqueue_inv [OF inv] simp: req_pairs_def)
next
  case (rr_refuse cname query ps now w s err s' rs rqs)
  note inv = assms(2) [unfolded rr_refuse(1)]
  have e: "s' = s\<lparr>rr_rejections := rr_rejections s', capacity_waiters := capacity_waiters s'\<rparr>"
    by (rule submit_other [OF rr_refuse(3)]) simp
  show ?thesis unfolding rr_refuse(2) by (subst e, rule rr_inv_frame [OF inv]) (simp_all add: rr_inv_ledger [OF inv, simplified])
next
  case (rr_park cname query ps now w s s' rs rqs)
  note inv = assms(2) [unfolded rr_park(1)]
  have e: "s' = s\<lparr>rr_rejections := rr_rejections s', capacity_waiters := capacity_waiters s'\<rparr>"
    by (rule submit_other [OF rr_park(3)]) simp
  show ?thesis unfolding rr_park(2) by (subst e, rule rr_inv_frame [OF inv]) (simp_all add: rr_inv_ledger [OF inv, simplified])
next
  case (rr_expire c w s err s' rs rqs)
  note inv = assms(2) [unfolded rr_expire(1)]
  have e: "s' = rr_record_rejection c ''saturated'' (rr_record_timeout c ''admission'' (discard_waiter w s))"
    using rr_expire(3) by (simp add: admit_timeout_def)
  show ?thesis unfolding rr_expire(2) e rr_record_rejection_def rr_record_timeout_def discard_waiter_def
    by (rule rr_inv_frame [OF inv]) (simp_all add: rr_inv_ledger [OF inv, simplified])
next
  case (rr_discard s rs rqs w)
  note inv = assms(2) [unfolded rr_discard(1)]
  show ?thesis unfolding rr_discard(2) discard_waiter_def
    by (rule rr_inv_frame [OF inv]) (simp_all add: rr_inv_ledger [OF inv, simplified])
next
  case (rr_cancel s rs rqs i)
  note inv = assms(2) [unfolded rr_cancel(1)]
  show ?thesis unfolding rr_cancel(2)
    by (rule rr_inv_frame [OF inv]) (simp_all add: ledger_cancel [OF rr_inv_ledger [OF inv, simplified]])
next
  case (rr_stop s rs rqs drain)
  note inv = assms(2) [unfolded rr_stop(1)]
  show ?thesis unfolding rr_stop(2) rr_close_def notify_capacity_def
    by (rule rr_inv_frame [OF inv]) (simp_all add: rr_inv_ledger [OF inv, simplified])
next
  case (rr_collect rs s b s' rqs)
  show ?thesis unfolding rr_collect(2) by (rule collect_inv [OF assms(2) [unfolded rr_collect(1)] rr_collect(3,4)])
qed (use assms(2) in \<open>auto intro: release_inv finish_inv fail_inv\<close>)

interpretation rr_sys: transition_invariant "rr_step prd" "rr_inv s0" for prd s0
  by unfold_locales (rule rr_inv_step)

lemma rr_init_state:
  assumes "rr_init mb w mo mp ad workers slot bg = Inr s0"
  shows "rr_queues s0 = (\<lambda>_. []) \<and> rr_pending s0 = (\<lambda>_. 0) \<and> rr_futures s0 = [] \<and> rr_busy_workers s0 = 0
    \<and> inflight_pairs s0 = 0 \<and> rr_background_inflight s0 = 0 \<and> 1 \<le> max_pending_pairs s0
    \<and> max_batch_pairs s0 = nat mb \<and> max_outstanding_pairs s0 = nat mo \<and> max_pending_pairs s0 = nat mp
    \<and> rr_inference_workers s0 = nat workers"
proof -
  have if_Inr: "(if c then Inl e else x) = Inr y \<longleftrightarrow> \<not> c \<and> x = Inr y" for c and e :: 'e and x and y :: 'y by simp
  obtain lr fl bg ws sl where n: "\<not> mp < 1" and s0: "s0 = \<lparr>max_batch_pairs = nat mb, max_outstanding_pairs = nat mo,
      max_pending_pairs = nat mp, inference_slot_pairs = sl, rr_live_reserve = lr, rr_background_floor = fl,
      rr_max_background_inflight = bg, rr_inference_workers = nat workers, rr_queues = (\<lambda>_. []), rr_pending = (\<lambda>_. 0),
      capacity_waiters = [], resolved_waiters = [], rr_closed = False, rr_drain_pending = True,
      rr_inference_calls = 0, pairs_scored = 0, rr_busy_workers = 0, inflight_pairs = 0,
      rr_background_inflight = 0, rr_futures = [], rr_rejections = [], rr_timeouts = []\<rparr>"
    using assms unfolding rr_init_def Let_def if_Inr sum.inject by (elim conjE) blast
  show ?thesis using n unfolding s0 by (simp add: Suc_le_eq)
qed

lemma rr_init_inv: "rr_init mb w mo mp ad workers slot bg = Inr s0 \<Longrightarrow> rr_inv s0 (s0, [], [])"
  by (drule rr_init_state)
    (simp add: rr_inv_def rr_core_def rr_running_def rr_pending_ok_def ledger_empty)

section \<open>Scores\<close>

text \<open>The model scores every pair on its own: \<open>sc\<close> is its score of one pair.\<close>

definition scores_pointwise ::
  "((string \<times> string) list \<Rightarrow> sched_error + real list \<Rightarrow> bool) \<Rightarrow> (string \<times> string \<Rightarrow> real) \<Rightarrow> bool" where
  "scores_pointwise prd sc \<longleftrightarrow> (\<forall>ps v. prd ps (Inr v) \<longrightarrow> length v = length ps \<longrightarrow> v = map sc ps)"

abbreviation own_scores :: "(string \<times> string \<Rightarrow> real) \<Rightarrow> rerank_request \<Rightarrow> real list" where
  "own_scores sc r \<equiv> map (\<lambda>p. sc (rq_query r, p)) (rq_passages r)"

definition rr_results :: "(string \<times> string \<Rightarrow> real) \<Rightarrow> rerank_request list \<Rightarrow> rr_system \<Rightarrow> bool" where
  "rr_results sc rqs0 sys = (case sys of (s, rs, rqs) \<Rightarrow>
     prefix rqs0 rqs \<and> (\<forall>i v. i < length (rr_futures s) \<longrightarrow> rr_futures s ! i = FDone v \<longrightarrow> v = own_scores sc (rqs ! i)))"

lemma start_done: "start_all is F ! i = FDone v \<Longrightarrow> F ! i = FDone v"
proof (induction "is" arbitrary: F)
  case (Cons j "is")
  then have "start j F ! i = FDone v" by simp
  then show ?case
    by (cases "i = j"; cases "j < length F"; cases "F ! j") (auto simp: start_def list_update_beyond)
qed simp

lemma rr_compose_done:
  assumes c: "rr_compose_locked s = (b, s')" and i: "rr_core rqs R L P [] s" and f: "rr_futures s' ! i = FDone v"
  shows "rr_futures s ! i = FDone v"
proof -
  have take: "rr_futures s1 ! i = FDone v" if "rr_core rqs R L P b1 s1" "rr_take_locked c m (b1, s1) = (b2, s2)"
    "rr_futures s2 ! i = FDone v" for c m b1 s1 b2 s2
    using rr_take_locked_spec [OF rr_core_distinct [OF that(1)] that(2)] that(3) by (auto dest: start_done)
  obtain b1 s1 b2 s2 s3 where 1: "rr_take_locked CLASS_LIVE
      (max_batch_pairs s - (if rr_background_admissible s then rr_background_floor s else 0)) ([], s) = (b1, s1)"
    and 2: "(if rr_background_admissible s then rr_take_locked CLASS_BACKGROUND (max_batch_pairs s) (b1, s1)
      else (b1, s1)) = (b2, s2)"
    and 3: "rr_take_locked CLASS_LIVE (max_batch_pairs s) (b2, s2) = (b, s3)" and s': "s' = notify_capacity s3"
    using rr_compose_elim [OF c] by metis
  have c1: "rr_core rqs R L P b1 s1" by (rule rr_core_take [OF i 1])
  then have c2: "rr_core rqs R L P b2 s2" using 2 rr_core_take by (auto split: if_splits)
  have "rr_futures s2 ! i = FDone v" by (rule take [OF c2 3]) (use f in \<open>simp add: s' notify_capacity_def\<close>)
  then have "rr_futures s1 ! i = FDone v" using 2 take [OF c1] by (auto split: if_splits)
  then show ?thesis by (rule take [OF i 1])
qed

lemma rr_finish_done:
  assumes p: "scores_pointwise prd sc" and out: "prd (physical_pairs b) out"
    and inv: "rr_inv s0 (s, rs, rqs)" and b: "b \<in> set rs"
    and F: "rr_futures (rr_run_batch b out s) ! i = FDone v" and i: "i < length (rr_futures s)"
  shows "rr_futures s ! i = FDone v \<or> v = own_scores sc (rqs ! i)"
proof -
  obtain xs n m where r: "rr_run_batch b out s = s\<lparr>rr_futures := settle_all xs (rr_futures s),
      rr_inference_calls := n, pairs_scored := m\<rparr>" and xs: "map fst xs = map rq_future b"
    "\<And>i v. (i, FDone v) \<in> set xs \<Longrightarrow> \<exists>sc. out = Inr sc \<and> length sc = length (physical_pairs b)
          \<and> (i, FDone v) \<in> set (fan_out sc 0 b)"
    using rr_run_batch_settles [of b out s] by blast
  note ok = rr_inv_ledger [OF inv]
  have d: "distinct (map rq_future b)"
    using ok b unfolding ledger_ok_def by (auto intro: distinct_map_concat)
  show ?thesis
  proof (cases "i \<in> set (map fst xs)")
    case True
    then obtain w where w: "(i, w) \<in> set xs" by auto
    have "rr_futures s ! i = FRunning"
      using ok b True unfolding xs(1) ledger_ok_def by auto
    then have "w = FDone v" using settle_all_nth [OF _ w i] d F xs(1) by (simp add: r)
    then obtain vs where x: "out = Inr vs" "length vs = length (physical_pairs b)" "(i, FDone v) \<in> set (fan_out vs 0 b)"
      using xs(2) w by blast
    then have "vs = map sc (physical_pairs b)" using p out unfolding scores_pointwise_def by blast
    with x(3) fan_out_exact [of i v "[]" sc b] obtain r where r: "r \<in> set b" "i = rq_future r" "v = own_scores sc r"
      by auto
    then have "rqs ! i = r" using inv b unfolding rr_inv_def rr_running_def by auto
    with r(3) show ?thesis by simp
  next
    case False
    then show ?thesis using F by (simp add: r settle_all_other)
  qed
qed

end
