(* ===== verification/Rerank_Promises.thy ===== *)
theory Rerank_Promises
  imports Rerank_Safety
begin

text \<open>
  What the rerank scheduler promises its callers: every request gets the scores of its
  own pairs, the pair counters are exact and bounded, a worker that finds work takes
  some, and whatever frees capacity wakes every parked submitter.
\<close>

section \<open>Scores over every interleaving\<close>

lemma rr_same_futures: "rr_futures (s\<lparr>rr_rejections := r, capacity_waiters := w\<rparr>) = rr_futures s"
  by simp

lemma rr_same_pairs:
  "total_pending_pairs (s\<lparr>rr_rejections := r, capacity_waiters := w\<rparr>) = total_pending_pairs s
    \<and> inflight_pairs (s\<lparr>rr_rejections := r, capacity_waiters := w\<rparr>) = inflight_pairs s"
  by (simp add: total_pending_pairs_def)

lemma rr_run_waiters: "capacity_waiters (rr_run_batch b out s) = capacity_waiters s"
  using rr_run_batch_settles [of b out s] by auto

lemma rr_same_batch: "max_batch_pairs (s\<lparr>rr_queues := q, rr_pending := p, rr_futures := F\<rparr>) = max_batch_pairs s"
  by simp

lemma rr_results_step:
  assumes "rr_step prd x y" "rr_inv s0 x \<and> rr_results sc rqs0 x" "scores_pointwise prd sc"
  shows "rr_results sc rqs0 y"
  using assms(1)
proof (cases rule: rr_step.cases)
  case (rr_submit cname query ps now w s i s' c rs rqs)
  note inv = assms(2) [unfolded rr_submit(1), THEN conjunct1]
  have "rr_futures s' = rr_futures s @ [FPending]"
    using submit_admitted [OF rr_submit(3,4) refl] by (simp add: rr_enqueue_def)
  with assms(2) rr_inv_pairs(3) [OF inv] show ?thesis
    by (auto simp: rr_submit(1,2) rr_results_def nth_append prefix_prefix less_Suc_eq)
next
  case (rr_refuse cname query ps now w s err s' rs rqs)
  have "s' = s\<lparr>rr_rejections := rr_rejections s', capacity_waiters := capacity_waiters s'\<rparr>"
    by (rule submit_other [OF rr_refuse(3)]) simp
  then have "rr_futures s' = rr_futures s" by (metis rr_same_futures)
  with assms(2) show ?thesis by (simp add: rr_refuse(1,2) rr_results_def)
next
  case (rr_park cname query ps now w s s' rs rqs)
  have "s' = s\<lparr>rr_rejections := rr_rejections s', capacity_waiters := capacity_waiters s'\<rparr>"
    by (rule submit_other [OF rr_park(3)]) simp
  then have "rr_futures s' = rr_futures s" by (metis rr_same_futures)
  with assms(2) show ?thesis by (simp add: rr_park(1,2) rr_results_def)
next
  case (rr_expire c w s err s' rs rqs)
  then have "rr_futures s' = rr_futures s"
    by (auto simp: admit_timeout_def rr_record_rejection_def rr_record_timeout_def discard_waiter_def)
  with assms(2) show ?thesis by (simp add: rr_expire(1,2) rr_results_def)
next
  case (rr_cancel s rs rqs i)
  have "rr_futures s ! j = FDone v" if "(rr_futures s)[i := fut_cancel (rr_futures s ! i)] ! j = FDone v" for j v
    using that by (cases "i = j"; cases "j < length (rr_futures s)"; cases "rr_futures s ! j") (auto simp: list_update_beyond)
  with assms(2) show ?thesis unfolding rr_cancel(1,2) rr_results_def by simp
next
  case (rr_release r rqs s rs)
  have "rr_futures (release_cancelled r s) = rr_futures s" by (simp add: release_cancelled_def notify_capacity_def Let_def)
  with assms(2) show ?thesis by (simp add: rr_release(1,2) rr_results_def)
next
  case (rr_collect rs s b s' rqs)
  have core: "rr_core rqs (map rq_future (concat rs)) (max_outstanding_pairs s - live_pairs (concat rs))
      (\<lambda>c. batch_pairs (rr_queues s c)) [] s" using assms(2) by (simp add: rr_collect(1) rr_inv_def)
  obtain s1 where c: "rr_compose_locked s = (b, s1)" "rr_futures s' = rr_futures s1"
    using rr_collect(4) by (auto simp: rr_collect_batch_def split: prod.splits if_splits)
  have "length (rr_futures s1) = length (rr_futures s)"
    using rr_compose_core [OF c(1) core] core by (simp add: rr_core_def)
  with assms(2) rr_compose_done [OF c(1) core] c(2) show ?thesis
    unfolding rr_collect(1,2) rr_results_def by simp
next
  case (rr_finish b rs out s rqs)
  have inv: "rr_inv s0 (s, rs, rqs)" and r: "rr_results sc rqs0 (s, rs, rqs)" using assms(2) by (simp_all add: rr_finish(1))
  have "length (rr_futures (rr_run_batch b out s)) = length (rr_futures s)"
    using rr_run_batch_settles [of b out s] by (elim exE conjE) simp
  with r rr_finish_done [OF assms(3) rr_finish(4) inv rr_finish(3)] show ?thesis
    unfolding rr_finish(2) rr_results_def rr_worker_release_def notify_capacity_def by simp blast
next
  case (rr_fail s rs rqs)
  have "rr_futures (rr_fail_remaining s) = fail_all SchedulerClosed (map rq_future (queued s)) (rr_futures s)"
    by (simp add: rr_fail_remaining_def notify_capacity_def Let_def)
  with assms(2) show ?thesis unfolding rr_fail(1,2) rr_results_def by (auto dest!: fail_all_done)
qed (use assms(2) in \<open>simp_all add: rr_results_def discard_waiter_def rr_close_def notify_capacity_def\<close>)

interpretation rr_res: transition_invariant "rr_step prd"
  "\<lambda>x. rr_inv s0 x \<and> (scores_pointwise prd sc \<longrightarrow> rr_results sc rqs0 x)" for prd s0 sc rqs0
  by unfold_locales (auto intro: rr_inv_step rr_results_step)

section \<open>Progress\<close>

lemma rr_take_shrinks:
  assumes i: "rr_core rqs R L P b s" and t: "rr_take_locked c budget (b, s) = (b', s')"
  shows "length (rr_queues s' c) \<le> length (rr_queues s c)" "c' \<noteq> c \<Longrightarrow> rr_queues s' c' = rr_queues s c'"
    "length (rr_queues s' c) = length (rr_queues s c) \<Longrightarrow> b' = b"
  using rr_take_locked_spec [OF rr_core_distinct [OF i] t] by auto

lemma rr_take_first:
  assumes i: "rr_core rqs R L P [] s" and t: "rr_take_locked c (max_batch_pairs s) ([], s) = (b', s')"
    and ne: "rr_queues s c \<noteq> []"
  shows "length (rr_queues s' c) < length (rr_queues s c)"
proof -
  obtain r q where q: "rr_queues s c = r # q" using ne by (cases "rr_queues s c") auto
  then have "r \<in> set (queued s)" by (cases c) auto
  then have "req_pairs r \<le> max_batch_pairs s" using i by (simp add: rr_core_def)
  then show ?thesis using t rr_take_progress [of "max_batch_pairs s" r q] q
    by (force simp: rr_take_locked_def split: prod.splits)
qed

lemma rr_compose_progress:
  assumes c: "rr_compose_locked s = (b, s')" and i: "rr_core rqs R L P [] s" and r: "rr_worker_ready s"
  shows "length (queued s') < length (queued s)"
proof -
  obtain b1 s1 b2 s2 s3 where 1: "rr_take_locked CLASS_LIVE
      (max_batch_pairs s - (if rr_background_admissible s then rr_background_floor s else 0)) ([], s) = (b1, s1)"
    and 2: "(if rr_background_admissible s then rr_take_locked CLASS_BACKGROUND (max_batch_pairs s) (b1, s1)
      else (b1, s1)) = (b2, s2)"
    and 3: "rr_take_locked CLASS_LIVE (max_batch_pairs s) (b2, s2) = (b, s3)" and s': "s' = notify_capacity s3"
    using rr_compose_elim [OF c] by metis
  have c1: "rr_core rqs R L P b1 s1" by (rule rr_core_take [OF i 1])
  have mb: "max_batch_pairs s1 = max_batch_pairs s" using rr_take_keeps 1 by (metis rr_same_batch snd_conv)
  have c2: "rr_core rqs R L P b2 s2" using c1 2 rr_core_take by (auto split: if_splits)
  note sh1 = rr_take_shrinks [OF i 1] and sh3 = rr_take_shrinks [OF c2 3]
  have "length (queued s2) < length (queued s)"
  proof (cases "rr_background_admissible s")
    case True
    then have t: "rr_take_locked CLASS_BACKGROUND (max_batch_pairs s) (b1, s1) = (b2, s2)" using 2 by simp
    note sh2 = rr_take_shrinks [OF c1 t]
    show ?thesis
    proof (cases "length (rr_queues s1 CLASS_LIVE) = length (rr_queues s CLASS_LIVE)")
      case same: True
      then have b1: "b1 = []" using sh1(3) by simp
      have bg: "rr_queues s1 CLASS_BACKGROUND = rr_queues s CLASS_BACKGROUND" using sh1(2) by simp
      with True have "rr_queues s1 CLASS_BACKGROUND \<noteq> []" by (simp add: rr_background_admissible_def)
      with rr_take_first [OF c1 [unfolded b1] t [unfolded b1, folded mb]]
      have "length (rr_queues s2 CLASS_BACKGROUND) < length (rr_queues s1 CLASS_BACKGROUND)" .
      then show ?thesis using sh2(2) [of CLASS_LIVE] same bg by simp
    next
      case False
      then show ?thesis using sh1(1,2) sh2(1,2) by simp
    qed
  next
    case False
    with r have "rr_queues s CLASS_LIVE \<noteq> []" by (simp add: rr_worker_ready_def)
    with rr_take_first [OF i] 1 False have "length (rr_queues s1 CLASS_LIVE) < length (rr_queues s CLASS_LIVE)" by simp
    with False 2 sh1(2) [of CLASS_BACKGROUND] show ?thesis by simp
  qed
  then show ?thesis using sh3(1) sh3(2) [of CLASS_BACKGROUND] by (simp add: s' notify_capacity_def)
qed

section \<open>What callers and operators rely on\<close>

text \<open>
  C13.  However submitters, cancellations, workers and shutdown interleave, the future of
  a rerank request that finishes holds exactly the scores of the request's own pairs, in
  order, provided the model scores pairs one by one.
\<close>

theorem rerank_own_scores:
  assumes "rr_init mb w mo mp ad workers slot bg = Inr s0"
    and reach: "(rr_step prd)\<^sup>*\<^sup>* (s0, [], []) (s, rs, rqs)"
    and adm: "submit cname query ps now wt s = (Inr (Some i), s1)"
    and later: "(rr_step prd)\<^sup>*\<^sup>* (s1, rs, rqs @ [\<lparr>rq_query = query, rq_passages = ps, rq_class = the (parse_class cname),
      rq_future = i, rq_enqueued_at = now\<rparr>]) (s2, rs2, rqs2)"
    and fin: "rr_futures s2 ! i = FDone v"
    and model: "scores_pointwise prd sc"
  shows "v = map (\<lambda>p. sc (query, p)) ps"
proof -
  let ?r = "\<lparr>rq_query = query, rq_passages = ps, rq_class = the (parse_class cname), rq_future = i, rq_enqueued_at = now\<rparr>"
  obtain c where c: "parse_class cname = Some c" using adm by (cases "parse_class cname") (auto simp: submit_def)
  have i0: "rr_inv s0 (s0, [], [])" by (rule rr_init_inv [OF assms(1)])
  have r0: "rr_results sc [] (s0, [], [])" using rr_init_state [OF assms(1)] by (simp add: rr_results_def)
  have 1: "rr_inv s0 (s, rs, rqs) \<and> rr_results sc [] (s, rs, rqs)"
    using rr_res.reach_inv [OF reach, of s0 sc "[]"] i0 r0 model by blast
  have st: "rr_step prd (s, rs, rqs) (s1, rs, rqs @ [?r])" using rr_step.rr_submit [OF adm c] c by simp
  have 2: "rr_inv s0 (s1, rs, rqs @ [?r]) \<and> rr_results sc [] (s1, rs, rqs @ [?r])"
    using 1 rr_inv_step [OF st] rr_results_step [OF st 1 model] by blast
  then have "rr_results sc (rqs @ [?r]) (s1, rs, rqs @ [?r])" by (simp add: rr_results_def)
  then have 3: "rr_inv s0 (s2, rs2, rqs2) \<and> rr_results sc (rqs @ [?r]) (s2, rs2, rqs2)"
    using rr_res.reach_inv [OF later, of s0 sc "rqs @ [?r]"] 2 model by blast
  have i: "i = length rqs" using submit_admitted [OF adm c refl] rr_inv_pairs(3) 1 by metis
  obtain zs where zs: "rqs2 = (rqs @ [?r]) @ zs" using 3 by (auto simp: rr_results_def prefix_def)
  then have "i < length (rr_futures s2)" using rr_inv_pairs(3) 3 i by fastforce
  then have "v = own_scores sc (rqs2 ! i)" using 3 fin by (simp add: rr_results_def)
  then show ?thesis by (simp add: zs i nth_append)
qed

text \<open>
  C16.  The pair counters are exact and the configured envelope is never exceeded: the
  pending and in-flight counters equal the pairs in the queues and in the running
  batches, no forward pass carries more than \<open>max_batch_pairs\<close>, the queues together hold at
  most \<open>max_pending_pairs\<close>, and live work, waiting and running, at most \<open>max_outstanding_pairs\<close>.
\<close>

theorem rerank_envelope:
  assumes "create_rerank_scheduler mb w mo mp ad workers k bg = Inr s0"
    and "(rr_step prd)\<^sup>*\<^sup>* (s0, [], []) (s, rs, rqs)"
  shows "pending_pairs None s = int (batch_pairs (queued s)) \<and> inflight_pairs s = int (batch_pairs (concat rs))
    \<and> batch_pairs (queued s) \<le> nat (max 1 mp) \<and> live_pairs (queued s @ concat rs) \<le> nat (max 1 mo)
    \<and> rr_busy_workers s = int (length rs) \<and> length rs \<le> nat (max 1 workers)
    \<and> (\<forall>b\<in>set rs. b \<noteq> [] \<and> batch_pairs b \<le> nat (max 1 mb))
    \<and> length (filter rr_carries_background rs) \<le> rr_max_background_inflight s0"
proof -
  have i: "rr_init (max 1 mb) (max 0 w) (max 1 mo) (max 1 mp) (max (1/1000) ad) (max 1 workers) (Some (max 1 (min k mb)))
      (Some (max 1 (min (max 1 workers) (case bg of Some n \<Rightarrow> n | None \<Rightarrow> max 1 (max 1 workers - 1))))) = Inr s0"
    using assms(1) by (simp only: create_rerank_scheduler_def Let_def)
  note c = rr_init_state [OF i]
  have inv: "rr_inv s0 (s, rs, rqs)" by (rule rr_sys.reach_inv [OF assms(2) rr_init_inv [OF i]])
  have k: "max_batch_pairs s = nat (max 1 mb)" "max_outstanding_pairs s = nat (max 1 mo)"
    "max_pending_pairs s = nat (max 1 mp)" "rr_inference_workers s = nat (max 1 workers)"
    "rr_max_background_inflight s = rr_max_background_inflight s0"
    using inv c by (simp_all add: rr_inv_def rr_config_def)
  have run: "rr_running (s, rs, rqs)" and p: "rr_pending_ok s" using inv by (simp_all add: rr_inv_def)
  have bgq: "\<forall>r\<in>set (rr_queues s CLASS_BACKGROUND). rq_class r = CLASS_BACKGROUND"
    using inv by (simp add: rr_inv_def rr_core_def)
  then have "live_pairs (rr_queues s CLASS_BACKGROUND) = 0" by (auto simp: live_pairs_def filter_empty_conv)
  moreover have "live_pairs (rr_queues s CLASS_LIVE) \<le> batch_pairs (rr_queues s CLASS_LIVE)" by (rule live_pairs_le)
  moreover have "live_pairs (concat rs) \<le> max_outstanding_pairs s" using run by (simp add: rr_running_def)
  ultimately have "live_pairs (queued s @ concat rs) \<le> max_outstanding_pairs s"
    using rr_inv_pairs(5) [OF inv] by simp
  with run p rr_inv_pairs(2,4) [OF inv] show ?thesis
    unfolding rr_running_def rr_pending_ok_def prod.case k by (simp add: pending_pairs_def)
qed


text \<open>
  No wake-up is lost: every step that lowers the pending or the in-flight pairs
  wakes all submitters that were parked for capacity.
\<close>

theorem rerank_no_lost_wakeup:
  assumes "rr_init mb w mo mp ad workers slot bg = Inr s0"
    and "(rr_step prd)\<^sup>*\<^sup>* (s0, [], []) x" and "rr_step prd x y"
    and freed: "total_pending_pairs (fst y) < total_pending_pairs (fst x) \<or> inflight_pairs (fst y) < inflight_pairs (fst x)"
  shows "capacity_waiters (fst y) = [] \<and> set (capacity_waiters (fst x)) \<subseteq> set (resolved_waiters (fst y))"
  using assms(3)
proof (cases rule: rr_step.cases)
  case (rr_submit cname query ps now wt s i s' c rs rqs)
  from submit_admitted [OF rr_submit(3,4) refl] freed show ?thesis
    by (auto simp: rr_submit(1,2) rr_enqueue_def total_pending_pairs_def split: if_splits)
next
  case (rr_refuse cname query ps now wt s err s' rs rqs)
  have "s' = s\<lparr>rr_rejections := rr_rejections s', capacity_waiters := capacity_waiters s'\<rparr>"
    by (rule submit_other [OF rr_refuse(3)]) simp
  then have "total_pending_pairs s' = total_pending_pairs s \<and> inflight_pairs s' = inflight_pairs s" by (metis rr_same_pairs)
  with freed show ?thesis by (simp add: rr_refuse(1,2))
next
  case (rr_park cname query ps now wt s s' rs rqs)
  have "s' = s\<lparr>rr_rejections := rr_rejections s', capacity_waiters := capacity_waiters s'\<rparr>"
    by (rule submit_other [OF rr_park(3)]) simp
  then have "total_pending_pairs s' = total_pending_pairs s \<and> inflight_pairs s' = inflight_pairs s" by (metis rr_same_pairs)
  with freed show ?thesis by (simp add: rr_park(1,2))
next
  case (rr_expire c wt s err s' rs rqs)
  with freed show ?thesis
    by (auto simp: admit_timeout_def rr_record_rejection_def rr_record_timeout_def discard_waiter_def total_pending_pairs_def)
next
  case (rr_collect rs s b s' rqs)
  then obtain s1 where c: "rr_compose_locked s = (b, s1)" "capacity_waiters s' = capacity_waiters s1"
    "resolved_waiters s' = resolved_waiters s1"
    by (auto simp: rr_collect_batch_def split: prod.splits if_splits)
  from rr_compose_keeps [OF c(1)] c(2,3) show ?thesis by (auto simp: rr_collect(1,2))
qed (use freed in \<open>auto simp: discard_waiter_def total_pending_pairs_def release_cancelled_def Let_def notify_capacity_def
    rr_worker_release_def rr_close_def rr_fail_remaining_def rr_run_waiters split: if_splits\<close>)

end
