(* ===== verification/Rerank_Demo.thy ===== *)
theory Rerank_Demo
  imports Rerank_Promises
begin

text \<open>A run of the rerank scheduler: one request is admitted, batched and scored while a second submitter is parked.\<close>

definition demo_rr :: rerank_scheduler where
  "demo_rr = \<lparr>max_batch_pairs = 4, max_outstanding_pairs = 3, max_pending_pairs = 8, inference_slot_pairs = 4,
     rr_live_reserve = 4, rr_background_floor = 1, rr_max_background_inflight = 1, rr_inference_workers = 1,
     rr_queues = (\<lambda>_. []), rr_pending = (\<lambda>_. 0), capacity_waiters = [], resolved_waiters = [], rr_closed = False,
     rr_drain_pending = True, rr_inference_calls = 0, pairs_scored = 0, rr_busy_workers = 0, inflight_pairs = 0,
     rr_background_inflight = 0, rr_futures = [], rr_rejections = [], rr_timeouts = []\<rparr>"

definition demo_req :: rerank_request where
  "demo_req = \<lparr>rq_query = ''q'', rq_passages = [''ab'', ''c''], rq_class = CLASS_LIVE, rq_future = 0, rq_enqueued_at = 0\<rparr>"

definition demo_score :: "string \<times> string \<Rightarrow> real" where
  "demo_score p = real (length (snd p))"

definition demo_predict :: "(string \<times> string) list \<Rightarrow> sched_error + real list \<Rightarrow> bool" where
  "demo_predict ps out \<longleftrightarrow> out = Inr (map demo_score ps)"

definition demo_rr1 :: rerank_scheduler where
  "demo_rr1 = rr_enqueue demo_req demo_rr"

definition demo_rr2 :: rerank_scheduler where
  "demo_rr2 = demo_rr1\<lparr>capacity_waiters := [7]\<rparr>"

definition demo_rr3 :: rerank_scheduler where
  "demo_rr3 = snd (rr_collect_batch demo_rr2)"

definition demo_rr4 :: rerank_scheduler where
  "demo_rr4 = rr_worker_release [demo_req] (rr_run_batch [demo_req] (Inr [2, 1]) demo_rr3)"

lemma demo_rr_init: "rr_init 4 0 3 8 1 1 None None = Inr demo_rr"
  by (simp add: rr_init_def demo_rr_def Let_def)

lemma demo_rr_create: "create_rerank_scheduler 4 0 3 8 1 1 4 None = Inr demo_rr"
  by (simp add: create_rerank_scheduler_def rr_init_def demo_rr_def Let_def)

lemma demo_rr_submit: "submit ''live'' ''q'' [''ab'', ''c''] 0 0 demo_rr = (Inr (Some 0), demo_rr1)"
  by (simp add: submit_def parse_class_def rr_admit_def Let_def demo_rr_def demo_rr1_def rr_pending_limit_def
      total_pending_pairs_def outstanding_fits_def rr_enqueue_def demo_req_def)

lemma demo_rr_park: "submit ''live'' ''q'' [''ab'', ''c''] 0 7 demo_rr1 = (Inr None, demo_rr2)"
  by (simp add: submit_def parse_class_def rr_admit_def Let_def demo_rr_def demo_rr1_def demo_rr2_def rr_pending_limit_def
      total_pending_pairs_def outstanding_fits_def rr_enqueue_def demo_req_def req_pairs_def)

lemmas demo_rr_defs = demo_rr_def demo_rr1_def demo_rr2_def demo_rr3_def rr_enqueue_def demo_req_def req_pairs_def
  rr_collect_batch_def rr_compose_locked_def rr_background_admissible_def rr_take_locked_def notify_capacity_def
  rr_carries_background_def Let_def

lemma demo_rr_collect: "rr_collect_batch demo_rr2 = ([demo_req], demo_rr3)"
  by (simp add: demo_rr_defs)

lemma demo_rr_steps:
  "rr_step demo_predict (demo_rr, [], []) (demo_rr1, [], [demo_req])"
  "rr_step demo_predict (demo_rr1, [], [demo_req]) (demo_rr2, [], [demo_req])"
  "rr_step demo_predict (demo_rr2, [], [demo_req]) (demo_rr3, [[demo_req]], [demo_req])"
  "rr_step demo_predict (demo_rr3, [[demo_req]], [demo_req]) (demo_rr4, [], [demo_req])"
proof -
  show "rr_step demo_predict (demo_rr, [], []) (demo_rr1, [], [demo_req])"
    using rr_step.rr_submit [OF demo_rr_submit, of CLASS_LIVE demo_predict "[]" "[]"]
    by (simp add: parse_class_def demo_req_def)
  show "rr_step demo_predict (demo_rr1, [], [demo_req]) (demo_rr2, [], [demo_req])"
    by (rule rr_step.rr_park [OF demo_rr_park])
  show "rr_step demo_predict (demo_rr2, [], [demo_req]) (demo_rr3, [[demo_req]], [demo_req])"
    using rr_step.rr_collect [OF _ demo_rr_collect, of "[]" demo_predict "[demo_req]"]
    by (simp add: demo_rr2_def demo_rr1_def rr_enqueue_def demo_rr_def)
  show "rr_step demo_predict (demo_rr3, [[demo_req]], [demo_req]) (demo_rr4, [], [demo_req])"
    using rr_step.rr_finish [of "[demo_req]" "[[demo_req]]" demo_predict "Inr [2, 1]" demo_rr3 "[demo_req]"]
    by (simp add: demo_predict_def demo_score_def physical_pairs_def demo_req_def demo_rr4_def)
qed

lemma demo_rr_reach: "(rr_step demo_predict)\<^sup>*\<^sup>* (demo_rr, [], []) (demo_rr3, [[demo_req]], [demo_req])"
  by (rule reach_step, rule demo_rr_steps(1), rule reach_step, rule demo_rr_steps(2), rule r_into_rtranclp, rule demo_rr_steps(3))

theorem rerank_own_scores_witness: "[2, 1] = map (\<lambda>p. demo_score (''q'', p)) [''ab'', ''c'']"
proof (rule rerank_own_scores [OF demo_rr_init rtranclp.rtrancl_refl demo_rr_submit])
  have r: "\<lparr>rq_query = ''q'', rq_passages = [''ab'', ''c''], rq_class = the (parse_class ''live''), rq_future = 0,
      rq_enqueued_at = 0\<rparr> = demo_req" by (simp add: parse_class_def demo_req_def)
  show "(rr_step demo_predict)\<^sup>*\<^sup>* (demo_rr1, [], [] @ [\<lparr>rq_query = ''q'', rq_passages = [''ab'', ''c''],
      rq_class = the (parse_class ''live''), rq_future = 0, rq_enqueued_at = 0\<rparr>]) (demo_rr4, [], [demo_req])"
    unfolding r append_Nil
    by (rule reach_step, rule demo_rr_steps(2), rule reach_step, rule demo_rr_steps(3), rule r_into_rtranclp, rule demo_rr_steps(4))
  show "rr_futures demo_rr4 ! 0 = FDone [2, 1]"
    by (simp add: demo_rr4_def demo_rr_defs rr_worker_release_def rr_run_batch_def physical_pairs_def slice_def)
  show "scores_pointwise demo_predict demo_score" by (simp add: scores_pointwise_def demo_predict_def)
qed

theorem rerank_envelope_witness: "inflight_pairs demo_rr3 = 2 \<and> live_pairs (queued demo_rr3 @ concat [[demo_req]]) \<le> 3"
  using rerank_envelope [OF demo_rr_create demo_rr_reach] by (simp add: demo_req_def req_pairs_def)


theorem rerank_no_lost_wakeup_witness: "7 \<in> set (resolved_waiters (snd (rr_collect_batch demo_rr2)))"
proof -
  have "(rr_step demo_predict)\<^sup>*\<^sup>* (demo_rr, [], []) (demo_rr2, [], [demo_req])"
    by (rule reach_step, rule demo_rr_steps(1), rule r_into_rtranclp, rule demo_rr_steps(2))
  from rerank_no_lost_wakeup [OF demo_rr_init this demo_rr_steps(3)] show ?thesis
    by (simp add: demo_rr_defs total_pending_pairs_def)
qed

end
