(* ===== verification/Rank_Fusion.thy ===== *)
theory Rank_Fusion
  imports Auth
begin

text \<open>
  \<open>backend/vector_db/app/services/hybrid_retrieval.py\<close>: reciprocal-rank fusion of the
  dense and the sparse arm of a hybrid search.  A search hit is a record with the keys
  that the stores produce.  The fusion is shown to be the textbook definition: every
  chunk once, scored by the sum of its reciprocal ranks, in the order of the scores.
\<close>

section \<open>Hits\<close>

record hit =
  h_id :: string
  h_score :: real
  h_payload :: "claims option"
  h_vector :: "real list option"

definition candidate_id :: "codec \<Rightarrow> 'a hit_scheme \<Rightarrow> string" where
  "candidate_id c h =
     (let chunk = claim (case h_payload h of Some p \<Rightarrow> p | None \<Rightarrow> []) ''chunk_id'' in
      if truthy chunk then py_str c chunk else h_id h)"

section \<open>Fusion\<close>

datatype arm = Dense | Sparse

record fused_entry =
  fe_candidate :: hit
  dense_rank :: "nat option"
  dense_score :: "real option"
  sparse_rank :: "nat option"
  sparse_score :: "real option"
  fused_score :: real

definition new_entry :: "hit \<Rightarrow> fused_entry" where
  "new_entry h = \<lparr>fe_candidate = h, dense_rank = None, dense_score = None, sparse_rank = None,
     sparse_score = None, fused_score = 0\<rparr>"

definition arm_rank :: "arm \<Rightarrow> fused_entry \<Rightarrow> nat option" where
  "arm_rank a e = (case a of Dense \<Rightarrow> dense_rank e | Sparse \<Rightarrow> sparse_rank e)"

definition set_arm :: "arm \<Rightarrow> int \<Rightarrow> nat \<Rightarrow> hit \<Rightarrow> fused_entry \<Rightarrow> fused_entry" where
  "set_arm a k r h e =
     (let e = (case a of
        Dense \<Rightarrow> e\<lparr>dense_rank := Some r, dense_score := Some (h_score h)\<rparr>
      | Sparse \<Rightarrow> e\<lparr>sparse_rank := Some r, sparse_score := Some (h_score h)\<rparr>) in
      e\<lparr>fused_score := fused_score e + 1 / (of_int k + of_nat r)\<rparr>)"

text \<open>The inner loop; \<open>r\<close> is the rank of the first candidate of the list.\<close>

fun fuse_arm ::
  "codec \<Rightarrow> int \<Rightarrow> arm \<Rightarrow> nat \<Rightarrow> hit list \<Rightarrow> (string, fused_entry) dict \<Rightarrow> (string, fused_entry) dict" where
  "fuse_arm c k a r [] fused = fused"
| "fuse_arm c k a r (h # hs) fused =
     (let i = candidate_id c h in
      if i = [] then fuse_arm c k a (Suc r) hs fused
      else
        (let e = (case dget fused i of Some e \<Rightarrow> e | None \<Rightarrow> new_entry h);
             fused = dset i e fused in
         if arm_rank a e \<noteq> None then fuse_arm c k a (Suc r) hs fused
         else fuse_arm c k a (Suc r) hs (dset i (set_arm a k r h e) fused)))"

definition best_rank :: "fused_entry \<Rightarrow> nat" where
  "best_rank e = (case (dense_rank e, sparse_rank e) of
     (Some d, Some s) \<Rightarrow> min d s | (Some d, None) \<Rightarrow> d | (None, Some s) \<Rightarrow> s | (None, None) \<Rightarrow> 0)"

record fused_hit = hit +
  fh_entry :: fused_entry
  fused_rank :: nat
  matched_arms :: "arm list"

definition finish_entry :: "nat \<Rightarrow> fused_entry \<Rightarrow> fused_hit" where
  "finish_entry r e = (let h = fe_candidate e in
     \<lparr>h_id = h_id h, h_score = fused_score e, h_payload = h_payload h, h_vector = h_vector h,
      fh_entry = e, fused_rank = r, matched_arms = filter (\<lambda>a. arm_rank a e \<noteq> None) [Dense, Sparse]\<rparr>)"

definition reciprocal_rank_fusion ::
  "codec \<Rightarrow> hit list \<Rightarrow> hit list \<Rightarrow> int \<Rightarrow> int \<Rightarrow> py_exn + fused_hit list" where
  "reciprocal_rank_fusion c dense sparse limit rrf_k =
     (if limit < 1 \<or> rrf_k < 1 then Inl ValueError
      else
        (let fused = fuse_arm c rrf_k Sparse 1 sparse (fuse_arm c rrf_k Dense 1 dense []);
             ordered = py_upto limit
               (sort_key (\<lambda>(i, e). (- fused_score e, best_rank e, i)) fused) in
         Inr (map (\<lambda>(r, i, e). finish_entry r e) (enumerate 1 ordered))))"

section \<open>The textbook definition\<close>

text \<open>The rank of a chunk in an arm is the position of its first occurrence.\<close>

fun rank_in :: "codec \<Rightarrow> string \<Rightarrow> nat \<Rightarrow> hit list \<Rightarrow> nat option" where
  "rank_in c i r [] = None"
| "rank_in c i r (h # hs) = (if candidate_id c h = i then Some r else rank_in c i (Suc r) hs)"

definition share :: "int \<Rightarrow> nat option \<Rightarrow> real" where
  "share k r = (case r of None \<Rightarrow> 0 | Some n \<Rightarrow> 1 / (of_int k + of_nat n))"

definition rrf_score :: "codec \<Rightarrow> int \<Rightarrow> hit list \<Rightarrow> hit list \<Rightarrow> string \<Rightarrow> real" where
  "rrf_score c k dense sparse i = share k (rank_in c i 1 dense) + share k (rank_in c i 1 sparse)"

definition rrf_best :: "codec \<Rightarrow> hit list \<Rightarrow> hit list \<Rightarrow> string \<Rightarrow> nat" where
  "rrf_best c dense sparse i = (case (rank_in c i 1 dense, rank_in c i 1 sparse) of
     (Some d, Some s) \<Rightarrow> min d s | (Some d, None) \<Rightarrow> d | (None, Some s) \<Rightarrow> s | (None, None) \<Rightarrow> 0)"

definition rrf_ids :: "codec \<Rightarrow> hit list \<Rightarrow> hit list \<Rightarrow> string list" where
  "rrf_ids c dense sparse = remdups (filter (\<lambda>i. i \<noteq> []) (map (candidate_id c) (dense @ sparse)))"

text \<open>What the dictionary holds once both arms have been read.\<close>

definition entry_ok :: "int \<Rightarrow> nat option \<Rightarrow> nat option \<Rightarrow> fused_entry \<Rightarrow> bool" where
  "entry_ok k d s e \<longleftrightarrow> dense_rank e = d \<and> sparse_rank e = s \<and> fused_score e = share k d + share k s"

lemma entry_ok_new: "entry_ok k None None (new_entry h)"
  by (simp add: entry_ok_def new_entry_def share_def)

lemma entry_ok_set:
  "entry_ok k None s e \<Longrightarrow> entry_ok k (Some r) s (set_arm Dense k r h e)"
  "entry_ok k d None e \<Longrightarrow> entry_ok k d (Some r) (set_arm Sparse k r h e)"
  by (auto simp: entry_ok_def set_arm_def share_def Let_def)

text \<open>
  One arm, over a dictionary \<open>f\<close>: a chunk of the list gets the rank of its first
  occurrence unless it has one from this arm already, every other entry is kept.
\<close>

definition first_of :: "nat option \<Rightarrow> nat option \<Rightarrow> nat option" where
  "first_of a b = (case a of Some x \<Rightarrow> Some x | None \<Rightarrow> b)"

definition dict_ok :: "int \<Rightarrow> (string \<Rightarrow> nat option) \<Rightarrow> (string \<Rightarrow> nat option) \<Rightarrow> (string, fused_entry) dict \<Rightarrow> bool" where
  "dict_ok k D S f \<longleftrightarrow> distinct (dkeys f) \<and> [] \<notin> set (dkeys f)
     \<and> (\<forall>i. dget f i = None \<longleftrightarrow> D i = None \<and> S i = None)
     \<and> (\<forall>i e. dget f i = Some e \<longrightarrow> entry_ok k (D i) (S i) e)"

lemma dict_ok_step:
  assumes f: "dict_ok k D S f" and i: "i \<noteq> []"
    and e: "e = (case dget f i of Some e \<Rightarrow> e | None \<Rightarrow> new_entry h)"
  shows "D i = None \<Longrightarrow> dict_ok k (D(i := Some r)) S (dset i (set_arm Dense k r h e) (dset i e f))"
    and "S i = None \<Longrightarrow> dict_ok k D (S(i := Some r)) (dset i (set_arm Sparse k r h e) (dset i e f))"
    and "D i \<noteq> None \<or> S i \<noteq> None \<Longrightarrow> dset i e f = f"
    and "arm_rank Dense e = D i" and "arm_rank Sparse e = S i"
proof -
  have ok: "entry_ok k (D i) (S i) e"
    using f e by (cases "dget f i") (auto simp: dict_ok_def entry_ok_new)
  show "arm_rank Dense e = D i" "arm_rank Sparse e = S i" using ok by (simp_all add: entry_ok_def arm_rank_def)
  show "D i = None \<Longrightarrow> dict_ok k (D(i := Some r)) S (dset i (set_arm Dense k r h e) (dset i e f))"
    using f i ok entry_ok_set(1) by (auto simp: dict_ok_def dom_update)
  show "S i = None \<Longrightarrow> dict_ok k D (S(i := Some r)) (dset i (set_arm Sparse k r h e) (dset i e f))"
    using f i ok entry_ok_set(2) by (auto simp: dict_ok_def dom_update)
  show "D i \<noteq> None \<or> S i \<noteq> None \<Longrightarrow> dset i e f = f"
    using f e by (cases "dget f i") (auto simp: dict_ok_def dset_same)
qed

definition after_arm :: "codec \<Rightarrow> nat \<Rightarrow> hit list \<Rightarrow> (string \<Rightarrow> nat option) \<Rightarrow> string \<Rightarrow> nat option" where
  "after_arm c r hs D i = (if i = [] then D i else first_of (D i) (rank_in c i r hs))"

lemma after_arm_simps:
  "after_arm c r [] D = D"
  "candidate_id c h = [] \<Longrightarrow> after_arm c r (h # hs) D = after_arm c (Suc r) hs D"
  "D (candidate_id c h) \<noteq> None \<Longrightarrow> after_arm c r (h # hs) D = after_arm c (Suc r) hs D"
  "D (candidate_id c h) = None \<Longrightarrow> candidate_id c h \<noteq> [] \<Longrightarrow>
     after_arm c r (h # hs) D = after_arm c (Suc r) hs (D(candidate_id c h := Some r))"
  by (auto simp: after_arm_def first_of_def fun_eq_iff split: option.splits)

lemma fuse_arm_ok:
  "dict_ok k D S f \<Longrightarrow> dict_ok k (after_arm c r hs D) S (fuse_arm c k Dense r hs f)"
  "dict_ok k D S f \<Longrightarrow> dict_ok k D (after_arm c r hs S) (fuse_arm c k Sparse r hs f)"
proof (induction hs arbitrary: r D S f)
  case (Cons h hs)
  let ?i = "candidate_id c h"
  { case 1
    note prem = this
    let ?e = "case dget f ?i of Some e \<Rightarrow> e | None \<Rightarrow> new_entry h"
    consider "?i = []" | "?i \<noteq> []" "D ?i \<noteq> None" | "?i \<noteq> []" "D ?i = None" by blast
    then show ?case
    proof cases
      case a: 1
      show ?thesis using Cons.IH(1) [OF prem] by (simp add: a after_arm_simps)
    next
      case a: 2
      have "dset ?i ?e f = f" using dict_ok_step(3) [OF prem a(1) refl, of h] a(2) by blast
      moreover have "arm_rank Dense ?e = D ?i" by (rule dict_ok_step(4) [OF prem a(1) refl, of h])
      moreover have "after_arm c r (h # hs) D = after_arm c (Suc r) hs D" by (rule after_arm_simps(3)) (use a in simp)
      ultimately show ?thesis using Cons.IH(1) [OF prem] a by (simp add: Let_def)
    next
      case a: 3
      have "dict_ok k (D(?i := Some r)) S (dset ?i (set_arm Dense k r h ?e) (dset ?i ?e f))"
        by (rule dict_ok_step(1) [OF prem a(1) refl a(2)])
      moreover have "arm_rank Dense ?e = D ?i" by (rule dict_ok_step(4) [OF prem a(1) refl, of h])
      moreover have "after_arm c r (h # hs) D = after_arm c (Suc r) hs (D(?i := Some r))"
        by (rule after_arm_simps(4)) (use a in simp_all)
      ultimately show ?thesis using Cons.IH(1) a by (simp add: Let_def)
    qed
  next
    case 2
    note prem = this
    let ?e = "case dget f ?i of Some e \<Rightarrow> e | None \<Rightarrow> new_entry h"
    consider "?i = []" | "?i \<noteq> []" "S ?i \<noteq> None" | "?i \<noteq> []" "S ?i = None" by blast
    then show ?case
    proof cases
      case a: 1
      show ?thesis using Cons.IH(2) [OF prem] by (simp add: a after_arm_simps)
    next
      case a: 2
      have "dset ?i ?e f = f" using dict_ok_step(3) [OF prem a(1) refl, of h] a(2) by blast
      moreover have "arm_rank Sparse ?e = S ?i" by (rule dict_ok_step(5) [OF prem a(1) refl, of h])
      moreover have "after_arm c r (h # hs) S = after_arm c (Suc r) hs S" by (rule after_arm_simps(3)) (use a in simp)
      ultimately show ?thesis using Cons.IH(2) [OF prem] a by (simp add: Let_def)
    next
      case a: 3
      have "dict_ok k D (S(?i := Some r)) (dset ?i (set_arm Sparse k r h ?e) (dset ?i ?e f))"
        by (rule dict_ok_step(2) [OF prem a(1) refl a(2)])
      moreover have "arm_rank Sparse ?e = S ?i" by (rule dict_ok_step(5) [OF prem a(1) refl, of h])
      moreover have "after_arm c r (h # hs) S = after_arm c (Suc r) hs (S(?i := Some r))"
        by (rule after_arm_simps(4)) (use a in simp_all)
      ultimately show ?thesis using Cons.IH(2) a by (simp add: Let_def)
    qed
  }
qed (simp_all add: after_arm_simps)

definition fused_dict :: "codec \<Rightarrow> int \<Rightarrow> hit list \<Rightarrow> hit list \<Rightarrow> (string, fused_entry) dict" where
  "fused_dict c k dense sparse = fuse_arm c k Sparse 1 sparse (fuse_arm c k Dense 1 dense [])"

lemma rank_in_None: "rank_in c i r hs = None \<longleftrightarrow> i \<notin> set (map (candidate_id c) hs)"
  by (induction hs arbitrary: r) auto

lemma fused_dict_ok:
  "dict_ok k (\<lambda>i. if i = [] then None else rank_in c i 1 dense) (\<lambda>i. if i = [] then None else rank_in c i 1 sparse)
     (fused_dict c k dense sparse)"
proof -
  have a: "after_arm c r hs (\<lambda>_. None) = (\<lambda>i. if i = [] then None else rank_in c i r hs)" for r hs
    by (auto simp: after_arm_def first_of_def)
  have "dict_ok k (\<lambda>_. None) (\<lambda>_. None) []" by (simp add: dict_ok_def)
  from fuse_arm_ok(2) [OF fuse_arm_ok(1) [OF this, of c 1 dense], of c 1 sparse] show ?thesis
    unfolding fused_dict_def a .
qed

lemma fused_dict_entry:
  assumes "(i, e) \<in> set (fused_dict c k dense sparse)"
  shows "i \<noteq> []" "fused_score e = rrf_score c k dense sparse i" "best_rank e = rrf_best c dense sparse i"
    "dense_rank e = rank_in c i 1 dense" "sparse_rank e = rank_in c i 1 sparse"
proof -
  have d: "distinct (dkeys (fused_dict c k dense sparse))" "[] \<notin> set (dkeys (fused_dict c k dense sparse))"
    and ok: "\<And>i e. dget (fused_dict c k dense sparse) i = Some e \<Longrightarrow>
      entry_ok k (if i = [] then None else rank_in c i 1 dense) (if i = [] then None else rank_in c i 1 sparse) e"
    using fused_dict_ok [of k c dense sparse] by (auto simp: dict_ok_def)
  show i: "i \<noteq> []" using assms d(2) by force
  have "dget (fused_dict c k dense sparse) i = Some e" using assms d(1) by simp
  from ok [OF this] i have e: "entry_ok k (rank_in c i 1 dense) (rank_in c i 1 sparse) e" by simp
  then show "dense_rank e = rank_in c i 1 dense" "sparse_rank e = rank_in c i 1 sparse"
    "fused_score e = rrf_score c k dense sparse i" "best_rank e = rrf_best c dense sparse i"
    by (simp_all add: entry_ok_def rrf_score_def best_rank_def rrf_best_def)
qed

lemma fused_dict_keys: "mset (dkeys (fused_dict c k dense sparse)) = mset (rrf_ids c dense sparse)"
proof (rule set_eq_iff_mset_eq_distinct [THEN iffD1])
  let ?f = "fused_dict c k dense sparse"
  have ok: "dict_ok k (\<lambda>i. if i = [] then None else rank_in c i 1 dense) (\<lambda>i. if i = [] then None else rank_in c i 1 sparse) ?f"
    by (rule fused_dict_ok)
  then show "distinct (dkeys ?f)" by (simp add: dict_ok_def)
  show "distinct (rrf_ids c dense sparse)" by (simp add: rrf_ids_def)
  have key: "i \<in> set (dkeys ?f) \<longleftrightarrow> i \<noteq> [] \<and> i \<in> set (map (candidate_id c) (dense @ sparse))" for i
  proof -
    have "i \<in> set (dkeys ?f) \<longleftrightarrow> dget ?f i \<noteq> None" by (metis map_of_eq_None_iff set_map)
    also have "\<dots> \<longleftrightarrow> i \<noteq> [] \<and> (rank_in c i 1 dense \<noteq> None \<or> rank_in c i 1 sparse \<noteq> None)"
      using ok by (simp add: dict_ok_def)
    finally show ?thesis unfolding rank_in_None by auto
  qed
  show "set (dkeys ?f) = set (rrf_ids c dense sparse)"
    by (rule set_eqI) (simp only: key, simp add: rrf_ids_def, blast)
qed

text \<open>The candidate of an entry is the first hit of its chunk.\<close>

lemma set_arm_candidate [simp]: "fe_candidate (set_arm a k r h e) = fe_candidate e"
  by (simp add: set_arm_def Let_def split: arm.splits)

definition candidates_ok :: "codec \<Rightarrow> hit set \<Rightarrow> (string, fused_entry) dict \<Rightarrow> bool" where
  "candidates_ok c A f \<longleftrightarrow> (\<forall>i e. dget f i = Some e \<longrightarrow> fe_candidate e \<in> A \<and> candidate_id c (fe_candidate e) = i)"

lemma fuse_arm_candidates:
  "candidates_ok c A f \<Longrightarrow> set hs \<subseteq> A \<Longrightarrow> candidates_ok c A (fuse_arm c k a r hs f)"
proof (induction hs arbitrary: r f)
  case (Cons h hs)
  let ?i = "candidate_id c h"
  let ?e = "case dget f ?i of Some e \<Rightarrow> e | None \<Rightarrow> new_entry h"
  have e: "fe_candidate ?e \<in> A \<and> candidate_id c (fe_candidate ?e) = ?i"
    using Cons.prems by (cases "dget f ?i") (auto simp: candidates_ok_def new_entry_def)
  then have "candidates_ok c A (dset ?i ?e f)" "candidates_ok c A (dset ?i (set_arm a k r h ?e) (dset ?i ?e f))"
    using Cons.prems(1) by (auto simp: candidates_ok_def)
  then show ?case using Cons by (auto simp: Let_def)
qed simp

lemma fused_dict_candidate:
  assumes "(i, e) \<in> set (fused_dict c k dense sparse)"
  shows "fe_candidate e \<in> set (dense @ sparse)" "candidate_id c (fe_candidate e) = i"
proof -
  have "candidates_ok c (set (dense @ sparse)) (fused_dict c k dense sparse)"
    unfolding fused_dict_def by (intro fuse_arm_candidates) (auto simp: candidates_ok_def)
  moreover have "dget (fused_dict c k dense sparse) i = Some e"
    using assms fused_dict_ok [of k c dense sparse] by (simp add: dict_ok_def)
  ultimately show "fe_candidate e \<in> set (dense @ sparse)" "candidate_id c (fe_candidate e) = i"
    by (auto simp: candidates_ok_def)
qed

lemma finish_entry_simps [simp]:
  "h_score (finish_entry r e) = fused_score e" "h_payload (finish_entry r e) = h_payload (fe_candidate e)"
  "h_id (finish_entry r e) = h_id (fe_candidate e)" "fh_entry (finish_entry r e) = e" "fused_rank (finish_entry r e) = r"
  "candidate_id c (finish_entry r e) = candidate_id c (fe_candidate e)"
  by (simp_all add: finish_entry_def candidate_id_def Let_def)

lemma map_finish:
  "(\<And>r e. g (finish_entry r e) = k e) \<Longrightarrow>
     map g (map (\<lambda>(r, i, e). finish_entry r e) (enumerate n xs)) = map (\<lambda>(i, e). k e) xs"
  by (induction xs arbitrary: n) auto

lemma enumerate_mem: "(r, x) \<in> set (enumerate n xs) \<Longrightarrow> x \<in> set xs"
  by (induction xs arbitrary: n) auto

lemma fusion_results:
  assumes "1 \<le> limit" "1 \<le> k"
  shows "reciprocal_rank_fusion c dense sparse limit k
    = Inr (map (\<lambda>(r, i, e). finish_entry r e) (enumerate 1 (take (nat limit)
        (sort_key (\<lambda>(i, e). (- fused_score e, best_rank e, i)) (fused_dict c k dense sparse)))))"
  using assms by (simp add: reciprocal_rank_fusion_def fused_dict_def Let_def py_upto_def py_norm_def min_def)

text \<open>What fusion returns are hits of the two arms, with a new score.\<close>

lemma fusion_from_arms:
  assumes "reciprocal_rank_fusion c dense sparse limit k = Inr results" "r \<in> set results"
  shows "\<exists>h\<in>set (dense @ sparse). h_id r = h_id h \<and> h_payload r = h_payload h"
proof -
  have "1 \<le> limit" "1 \<le> k" using assms(1) by (auto simp: reciprocal_rank_fusion_def split: if_splits)
  with assms obtain n i e where r: "r = finish_entry n e" and "(i, e) \<in> set (take (nat limit)
      (sort_key (\<lambda>(i, e). (- fused_score e, best_rank e, i)) (fused_dict c k dense sparse)))"
    by (auto simp: fusion_results dest!: enumerate_mem)
  from in_set_takeD [OF this(2)] have "(i, e) \<in> set (fused_dict c k dense sparse)" by simp
  from fused_dict_candidate(1) [OF this] show ?thesis by (intro bexI [of _ "fe_candidate e"]) (simp_all add: r)
qed

text \<open>
  C24.  Hybrid fusion is reciprocal-rank fusion: for a valid limit and constant it returns
  the \<open>limit\<close> best chunks found by either arm, each once, ordered by score, then by best
  rank, then by chunk id; a chunk's score is \<open>1 / (k + rank)\<close> summed over the arms that
  found it, with its rank in each arm that of its first occurrence.
\<close>

theorem rrf_exact:
  assumes "1 \<le> limit" "1 \<le> k"
  shows "\<exists>results. reciprocal_rank_fusion c dense sparse limit k = Inr results
    \<and> map (candidate_id c) results = take (nat limit)
        (sort_key (\<lambda>i. (- rrf_score c k dense sparse i, rrf_best c dense sparse i, i)) (rrf_ids c dense sparse))
    \<and> map h_score results = map (rrf_score c k dense sparse) (map (candidate_id c) results)
    \<and> map fused_rank results = [1 ..< length results + 1]"
proof -
  let ?f = "fused_dict c k dense sparse"
  let ?key = "\<lambda>i. (- rrf_score c k dense sparse i, rrf_best c dense sparse i, i)"
  let ?sorted = "sort_key (\<lambda>(i, e). (- fused_score e, best_rank e, i)) ?f"
  define ordered where "ordered = take (nat limit) ?sorted"
  define results where "results = map (\<lambda>(r, i, e). finish_entry r e) (enumerate 1 ordered)"
  have mem: "(i, e) \<in> set ?f" if "(i, e) \<in> set ?sorted" for i e using that by simp
  have omem: "(i, e) \<in> set ?f" if "(i, e) \<in> set ordered" for i e
    using that by (auto simp: ordered_def dest: in_set_takeD)
  have keys: "map fst ?sorted = sort_key ?key (rrf_ids c dense sparse)"
  proof (rule sort_key_inj_key_eq [symmetric])
    show "mset (rrf_ids c dense sparse) = mset (map fst ?sorted)"
      by (simp add: fused_dict_keys [of c k dense sparse, symmetric])
    show "inj_on ?key (set (rrf_ids c dense sparse))" by (rule inj_onI) simp
    have e: "map ?key (map fst ?sorted) = map (\<lambda>(i, e). (- fused_score e, best_rank e, i)) ?sorted"
      using fused_dict_entry(2,3) mem by (auto simp: case_prod_beta)
    show "sorted (map ?key (map fst ?sorted))" unfolding e by (rule sorted_sort_key)
  qed
  have ids: "map (candidate_id c) results = map fst ordered"
    unfolding results_def
    by (subst map_finish [where k = "\<lambda>e. candidate_id c (fe_candidate e)"])
      (use fused_dict_candidate(2) [OF omem] in \<open>auto simp: case_prod_beta\<close>)
  have "map h_score results = map (rrf_score c k dense sparse) (map fst ordered)"
    unfolding results_def
    by (subst map_finish [where k = fused_score]) (use fused_dict_entry(2) [OF omem] in \<open>auto simp: case_prod_beta\<close>)
  moreover have "map fst ordered = take (nat limit) (sort_key ?key (rrf_ids c dense sparse))"
    unfolding ordered_def by (simp add: take_map [symmetric] keys)
  moreover have "reciprocal_rank_fusion c dense sparse limit k = Inr results"
    using fusion_results [OF assms] by (simp add: results_def ordered_def)
  moreover have "map fused_rank results = [1 ..< length results + 1]"
    by (simp add: results_def comp_def case_prod_beta)
  ultimately show ?thesis by (intro exI [of _ results] conjI; simp only: ids)
qed

theorem rrf_exact_witness:
  "\<exists>results. reciprocal_rank_fusion (sample_codec [])
      [\<lparr>h_id = ''a'', h_score = 9, h_payload = None, h_vector = None\<rparr>]
      [\<lparr>h_id = ''a'', h_score = 2, h_payload = Some [(''chunk_id'', PStr ''a'')], h_vector = None\<rparr>] 5 60 = Inr results
    \<and> map h_score results = [1 / 61 + 1 / 61]"
  using rrf_exact [of 5 60 "sample_codec []" "[\<lparr>h_id = ''a'', h_score = 9, h_payload = None, h_vector = None\<rparr>]"
    "[\<lparr>h_id = ''a'', h_score = 2, h_payload = Some [(''chunk_id'', PStr ''a'')], h_vector = None\<rparr>]"]
  by (auto simp: rrf_ids_def candidate_id_def claim_def py_str_def rrf_score_def share_def)

end
