(* ===== verification/Sparse_Retrieval.thy ===== *)
theory Sparse_Retrieval
  imports Prelude
begin

text \<open>
  \<open>backend/shared/sparse_retrieval.py\<close>: the hashed term-frequency vector that indexing
  and query use for lexical search.  \<open>casefold\<close> and the first four bytes of the BLAKE2b
  digest of a term (as a number) are arguments; word characters are those of Latin-1.
\<close>

section \<open>Tokens\<close>

definition word_char :: "char \<Rightarrow> bool" where
  "word_char ch = py_isalnum ch"

definition joiner :: "char \<Rightarrow> bool" where
  "joiner ch = (ch \<in> set ''._:/-'')"

text \<open>One match of \<open>[^\W_]+(?:[._:/-][^\W_]+)*\<close> at a word character, and the rest.\<close>

function lex_token :: "string \<Rightarrow> string \<times> string" where
  "lex_token s =
     (let w = takeWhile word_char s; r = dropWhile word_char s in
      case r of
        ch # d # r' \<Rightarrow>
          if joiner ch \<and> word_char d
          then (case lex_token (d # r') of (t, rest) \<Rightarrow> (w @ ch # t, rest))
          else (w, r)
      | _ \<Rightarrow> (w, r))"
  by pat_completeness auto
termination
proof (relation "measure length")
  fix s w :: string and r ch x d r' assume "w = takeWhile word_char s" "r = dropWhile word_char s" "r = ch # x" "x = d # r'"
  then have "length (ch # d # r') \<le> length s" by (metis length_dropWhile_le)
  then show "(d # r', s) \<in> measure length" by simp
qed simp

declare lex_token.simps [simp del]

lemma lex_token_split:
  "lex_token s = (t, rest) \<Longrightarrow> s = t @ rest \<and> (s \<noteq> [] \<and> word_char (hd s) \<longrightarrow> t \<noteq> [])"
proof (induction s arbitrary: t rest rule: lex_token.induct)
  case (1 s)
  let ?w = "takeWhile word_char s" and ?r = "dropWhile word_char s"
  have s: "s = ?w @ ?r" by simp
  have ne: "s \<noteq> [] \<and> word_char (hd s) \<longrightarrow> ?w \<noteq> []" by (cases s) auto
  consider ch d r' where "?r = ch # d # r'" "joiner ch \<and> word_char d" | "lex_token s = (?w, ?r)"
    using lex_token.simps [of s] by (auto simp: Let_def split: list.splits if_splits)
  then show ?case
  proof cases
    case (1 ch d r')
    obtain t' rest' where r: "lex_token (d # r') = (t', rest')" by fastforce
    then have "lex_token s = (?w @ ch # t', rest')" using 1 by (subst lex_token.simps) (simp add: Let_def)
    moreover have "d # r' = t' @ rest'" using "1.IH" [OF refl refl 1(1) refl 1(2) r] by simp
    ultimately show ?thesis using 1(1) s "1.prems" by (metis append.assoc append_Cons append_is_Nil_conv fst_conv list.distinct(1) snd_conv)
  next
    case 2
    then have "t = ?w" "rest = ?r" using "1.prems" by auto
    with ne show ?thesis by simp
  qed
qed

lemma lex_token_shorter:
  assumes "word_char ch" "lex_token (ch # s) = (t, rest)"
  shows "length rest < Suc (length s)"
proof -
  have "ch # s = t @ rest" "t \<noteq> []" using lex_token_split [OF assms(2)] assms(1) by auto
  then show ?thesis by (metis length_Cons length_append length_greater_0_conv less_add_same_cancel2)
qed

function tokens :: "string \<Rightarrow> string list" where
  "tokens [] = []"
| "tokens (ch # s) =
     (if word_char ch then (case lex_token (ch # s) of (t, rest) \<Rightarrow> t # tokens rest) else tokens s)"
  by pat_completeness auto
termination
  by (relation "measure length") (auto dest: lex_token_shorter [OF _ sym])

section \<open>The vector\<close>

record sparse_vector =
  sv_indices :: "int list"
  sv_values :: "real list"

definition counter :: "string list \<Rightarrow> (string, nat) dict" where
  "counter xs = foldl (\<lambda>d x. dset x (dget_default d x 0 + 1) d) [] xs"

definition term_index :: "(string \<Rightarrow> nat) \<Rightarrow> string \<Rightarrow> int" where
  "term_index digest32 t = int (digest32 t mod 2 ^ 31)"

definition hashed_counts :: "(string \<Rightarrow> nat) \<Rightarrow> (string, nat) dict \<Rightarrow> (int, nat) dict" where
  "hashed_counts digest32 counts =
     foldl (\<lambda>d (t, n). dset (term_index digest32 t) (dget_default d (term_index digest32 t) 0 + n) d) [] counts"

definition MAX_SPARSE_TERMS :: int where "MAX_SPARSE_TERMS = 512"
definition MAX_SPARSE_TEXT_CHARS :: nat where "MAX_SPARSE_TEXT_CHARS = 20000"

definition sparse_lexical_vector ::
  "(string \<Rightarrow> string) \<Rightarrow> (string \<Rightarrow> nat) \<Rightarrow> int \<Rightarrow> string \<Rightarrow> py_exn + sparse_vector" where
  "sparse_lexical_vector casefold digest32 max_terms body =
     (if max_terms < 1 then Inl ValueError
      else
        (let counts = counter (map casefold (tokens (take MAX_SPARSE_TEXT_CHARS body))) in
         if counts = [] then Inr \<lparr>sv_indices = [], sv_values = []\<rparr>
         else
           (let weighted = map (\<lambda>(i, n). (i, 1 + ln (1 + real n))) (hashed_counts digest32 counts);
                weighted = take (nat max_terms) (sort_key (\<lambda>(i, v). (- v, i)) weighted);
                total = sqrt (sum_list (map (\<lambda>(i, v). v * v) weighted));
                norm = (if total = 0 then 1 else total);
                weighted = sort_key fst weighted in
            Inr \<lparr>sv_indices = map fst weighted, sv_values = map (\<lambda>(i, v). v / norm) weighted\<rparr>)))"

section \<open>Shape of the vector\<close>

lemma distinct_foldl_dset:
  "distinct (dkeys d) \<Longrightarrow> distinct (dkeys (foldl (\<lambda>d x. dset (k x) (v d x) d) d xs))"
  by (induction xs arbitrary: d) auto

lemma hashed_counts_fold:
  "hashed_counts h counts =
     foldl (\<lambda>d x. dset (term_index h (fst x)) (dget_default d (term_index h (fst x)) 0 + snd x) d) [] counts"
  unfolding hashed_counts_def by (rule arg_cong [where f = "\<lambda>f. foldl f [] counts"]) (auto simp: fun_eq_iff)

lemma hashed_distinct: "distinct (dkeys (hashed_counts h counts))"
  unfolding hashed_counts_fold by (rule distinct_foldl_dset) simp

lemma keys_foldl_dset:
  "set (dkeys (foldl (\<lambda>d x. dset (k x) (v d x) d) d xs)) = set (dkeys d) \<union> k ` set xs"
  by (induction xs arbitrary: d) (auto simp: dom_update)

lemma hashed_keys: "set (dkeys (hashed_counts h counts)) = term_index h ` fst ` set counts"
  unfolding hashed_counts_fold keys_foldl_dset by (simp add: image_image)

lemma term_index_range: "0 \<le> term_index h t \<and> term_index h t < 2 ^ 31"
  by (simp add: term_index_def)

lemma sum_squares_nonneg: "0 \<le> sum_list (map (\<lambda>(i, v :: real). v * v) ws)"
  by (rule sum_list_nonneg) auto

text \<open>Dividing positive weights by the root of the sum of their squares.\<close>

lemma normalised_weights:
  fixes ws :: "(int \<times> real) list"
  assumes pos: "\<And>i v. (i, v) \<in> set ws \<Longrightarrow> 0 < v"
  defines "tot \<equiv> sqrt (sum_list (map (\<lambda>(i, v). v * v) ws))"
  assumes n: "n = (if tot = 0 then 1 else tot)"
  shows "(\<forall>x\<in>set (map (\<lambda>(i, v). v / n) ws). 0 < x)
    \<and> (ws = [] \<or> sum_list (map (\<lambda>x. x * x) (map (\<lambda>(i, v). v / n) ws)) = 1)"
proof (cases ws)
  case (Cons p q)
  have "0 < snd p" using pos [of "fst p" "snd p"] Cons by simp
  then have "0 < snd p * snd p" by simp
  with sum_squares_nonneg [of q] have "0 < sum_list (map (\<lambda>(i, v). v * v) ws)"
    using Cons by (simp add: case_prod_beta)
  then have t: "0 < tot" "sum_list (map (\<lambda>(i, v). v * v) ws) = tot * tot"
    unfolding tot_def by simp_all
  have "map (\<lambda>x. x * x) (map (\<lambda>(i, v). v / n) ws) = map (\<lambda>p. (case p of (i, v) \<Rightarrow> v * v) * (1 / (n * n))) ws"
    by (auto simp: case_prod_beta)
  then have "sum_list (map (\<lambda>x. x * x) (map (\<lambda>(i, v). v / n) ws)) = tot * tot * (1 / (n * n))"
    by (simp only: sum_list_mult_const t)
  then have "sum_list (map (\<lambda>x. x * x) (map (\<lambda>(i, v). v / n) ws)) = 1" using t n by simp
  with pos n t show ?thesis by auto
qed simp



end
