(* ===== verification/Vector_Store.thy ===== *)
theory Vector_Store
  imports Rank_Fusion Sparse_Retrieval
begin

text \<open>
  The interface of the chunk stores of the vector service,
  \<open>backend/vector_db/app/db/interfaces.py\<close>, as a record of operations, the promises the
  service relies on as a locale, and the in-memory implementation,
  \<open>db/implementations/in_memory.py\<close>.  A chunk and its payload are dictionaries of
  JSON-like values; the numpy routines are arguments, floats are reals.
\<close>

section \<open>Equality of values and payload filters\<close>

fun py_num :: "pyval \<Rightarrow> real option" where
  "py_num (PBool b) = Some (if b then 1 else 0)"
| "py_num (PInt i) = Some (of_int i)"
| "py_num (PFloat x) = Some x"
| "py_num _ = None"

text \<open>\<open>a == b\<close>: numbers compare by value, dictionaries without regard to order.\<close>

fun py_eq :: "pyval \<Rightarrow> pyval \<Rightarrow> bool"
  and py_list_eq :: "pyval list \<Rightarrow> pyval list \<Rightarrow> bool"
  and py_items_eq :: "(string \<times> pyval) list \<Rightarrow> (string \<times> pyval) list \<Rightarrow> bool" where
  "py_eq (PList xs) v = (case v of PList ys \<Rightarrow> py_list_eq xs ys | _ \<Rightarrow> False)"
| "py_eq (PDict d) v = (case v of PDict e \<Rightarrow> length d = length e \<and> py_items_eq d e | _ \<Rightarrow> False)"
| "py_eq u v = (case (py_num u, py_num v) of (Some x, Some y) \<Rightarrow> x = y | _ \<Rightarrow> u = v)"
| "py_list_eq [] ys = (ys = [])"
| "py_list_eq (x # xs) ys = (case ys of [] \<Rightarrow> False | y # ys' \<Rightarrow> py_eq x y \<and> py_list_eq xs ys')"
| "py_items_eq [] e = True"
| "py_items_eq ((k, v) # d) e =
     ((case dget e k of Some w \<Rightarrow> py_eq v w | None \<Rightarrow> False) \<and> py_items_eq d e)"

lemma py_eq_PStr [simp]: "py_eq v (PStr s) \<longleftrightarrow> v = PStr s"
  by (cases v) auto

definition match_value :: "pyval \<Rightarrow> pyval \<Rightarrow> bool" where
  "match_value w v = (case v of PList vs \<Rightarrow> list_ex (py_eq w) vs | _ \<Rightarrow> py_eq w v)"

definition matches_filters :: "claims \<Rightarrow> claims \<Rightarrow> bool" where
  "matches_filters payload filters =
     list_all (\<lambda>(k, v). case dget payload k of None \<Rightarrow> False | Some w \<Rightarrow> match_value w v) filters"

lemma matches_filters_dget:
  "matches_filters p f \<Longrightarrow> dget f k = Some v \<Longrightarrow> \<exists>w. dget p k = Some w \<and> match_value w v"
  unfolding matches_filters_def list_all_iff
  by (drule (1) bspec [OF _ map_of_SomeD]) (simp split: option.splits)

text \<open>What a chunk needs to be returned by any search.\<close>

definition retrievable :: "claims \<Rightarrow> bool" where
  "retrievable p \<longleftrightarrow> truthy (claim p ''retrieval_allowed'') \<and> \<not> py_eq (claim p ''review_status'') (PStr ''removed'')"

definition SCOPE_FIELDS :: "string list" where
  "SCOPE_FIELDS = [''tenant_id'', ''owner_user_id'', ''owner_admin_id'']"

text \<open>The payload agrees with every scope field that the filters set to a non-empty string.\<close>

definition in_scope :: "claims \<Rightarrow> claims \<Rightarrow> bool" where
  "in_scope f p = list_all (\<lambda>k. case dget f k of
     Some (PStr s) \<Rightarrow> s = [] \<or> dget p k = Some (PStr s) | _ \<Rightarrow> True) SCOPE_FIELDS"

lemma matches_in_scope:
  assumes "matches_filters p f" shows "in_scope f p"
  using matches_filters_dget [OF assms]
  by (fastforce simp: in_scope_def list_all_iff match_value_def split: option.split pyval.split)

definition same_scope :: "claims \<Rightarrow> claims \<Rightarrow> bool" where
  "same_scope a b = list_all (\<lambda>k. dget a k = dget b k) SCOPE_FIELDS"

section \<open>The interface\<close>

record 's vstore =
  vs_collection :: string
  vs_initialize :: "'s \<Rightarrow> (py_exn + string) \<times> 's"
  vs_upsert :: "'s \<Rightarrow> claims list \<Rightarrow> (py_exn + nat) \<times> 's"
  vs_search :: "'s \<Rightarrow> real list \<Rightarrow> int \<Rightarrow> claims \<Rightarrow> bool \<Rightarrow> bool \<Rightarrow> py_exn + hit list"
  vs_sparse :: "'s \<Rightarrow> sparse_vector \<Rightarrow> int \<Rightarrow> claims \<Rightarrow> bool \<Rightarrow> py_exn + hit list"
  vs_delete :: "'s \<Rightarrow> claims \<Rightarrow> (py_exn + nat) \<times> 's"
  vs_lookup :: "'s \<Rightarrow> string \<Rightarrow> string list \<Rightarrow> claims \<Rightarrow> (py_exn + string list \<times> string list) option"
  vs_count :: "'s \<Rightarrow> py_exn + nat"

definition MAX_VERIFY_IDS :: nat where "MAX_VERIFY_IDS = 1000"
definition VERIFIABLE_ID_FIELDS :: "string set" where "VERIFIABLE_ID_FIELDS = {''chunk_id'', ''file_id''}"

definition verify_targets :: "string \<Rightarrow> string list \<Rightarrow> py_exn + string list" where
  "verify_targets field values =
     (if field \<notin> VERIFIABLE_ID_FIELDS then Inl ValueError
      else let wanted = remdups (filter (\<lambda>v. strip v \<noteq> []) values) in
        if length wanted > MAX_VERIFY_IDS then Inl ValueError else Inr wanted)"

text \<open>
  What the service relies on, for reading and for writing; a lookup that never returns is
  \<open>None\<close>.  \<open>stored s k p\<close>: the store holds payload \<open>p\<close> at point \<open>k\<close>;
  \<open>chunk_key\<close> is the point a chunk is written to, which keeps apart the chunks of any two
  different tenants that are \<open>plain\<close>.
\<close>

locale store_reads =
  fixes vs :: "'s vstore"
    and stored :: "'s \<Rightarrow> string \<Rightarrow> claims \<Rightarrow> bool"
    and inv :: "'s \<Rightarrow> bool"
    and name_of :: "pyval \<Rightarrow> string"
  assumes search_safe:
      "\<And>s q k f ip iv hits h. inv s \<Longrightarrow> vs_search vs s q k f ip iv = Inr hits \<Longrightarrow> h \<in> set hits \<Longrightarrow>
        \<exists>p. stored s (h_id h) p \<and> retrievable p \<and> in_scope f p \<and> h_payload h = (if ip then Some p else None)"
    and sparse_safe:
      "\<And>s q k f ip hits h. inv s \<Longrightarrow> vs_sparse vs s q k f ip = Inr hits \<Longrightarrow> h \<in> set hits \<Longrightarrow>
        \<exists>p. stored s (h_id h) p \<and> retrievable p \<and> in_scope f p \<and> h_payload h = (if ip then Some p else None)"
    and lookup_safe:
      "\<And>s field vals f present retr. inv s \<Longrightarrow> vs_lookup vs s field vals f = Some (Inr (present, retr)) \<Longrightarrow>
        (\<forall>v\<in>set present. v \<in> set vals \<and> (\<exists>k p. stored s k p \<and> in_scope f p \<and> name_of (claim p field) = v))
        \<and> (\<forall>v\<in>set retr. v \<in> set vals \<and> (\<exists>k p. stored s k p \<and> in_scope f p \<and> retrievable p \<and> name_of (claim p field) = v))"
    and upsert_inv: "\<And>s cs r s'. inv s \<Longrightarrow> vs_upsert vs s cs = (r, s') \<Longrightarrow> inv s'"
    and delete_inv: "\<And>s f r s'. inv s \<Longrightarrow> vs_delete vs s f = (r, s') \<Longrightarrow> inv s'"
    and initialize_inv: "\<And>s r s'. inv s \<Longrightarrow> vs_initialize vs s = (r, s') \<Longrightarrow> inv s'"

locale vector_store = store_reads vs stored inv name_of
  for vs :: "'s vstore" and stored inv name_of +
  fixes chunk_key :: "claims \<Rightarrow> string"
    and plain :: "string \<Rightarrow> bool"
  assumes upsert_stored:
      "\<And>s cs r s' k p. inv s \<Longrightarrow> vs_upsert vs s cs = (r, s') \<Longrightarrow> stored s' k p \<Longrightarrow>
        stored s k p \<or> (\<exists>ch\<in>set cs. k = chunk_key ch \<and> same_scope ch p)"
    and upsert_kept:
      "\<And>s cs r s' k p. inv s \<Longrightarrow> vs_upsert vs s cs = (r, s') \<Longrightarrow> stored s k p \<Longrightarrow>
        \<forall>ch\<in>set cs. chunk_key ch \<noteq> k \<Longrightarrow> stored s' k p"
    and delete_only: "\<And>s f r s' k p. inv s \<Longrightarrow> vs_delete vs s f = (r, s') \<Longrightarrow> stored s' k p \<Longrightarrow> stored s k p"
    and delete_scope:
      "\<And>s f r s' k p. inv s \<Longrightarrow> vs_delete vs s f = (r, s') \<Longrightarrow> stored s k p \<Longrightarrow> \<not> in_scope f p \<Longrightarrow> stored s' k p"
    and initialize_same: "\<And>s r s'. inv s \<Longrightarrow> vs_initialize vs s = (r, s') \<Longrightarrow> stored s' = stored s"
    and stored_key: "\<And>s k p. inv s \<Longrightarrow> stored s k p \<Longrightarrow> k = chunk_key p"
    and keys_apart:
      "\<And>p q a b. dget p ''tenant_id'' = Some (PStr a) \<Longrightarrow> dget q ''tenant_id'' = Some (PStr b) \<Longrightarrow>
        plain a \<Longrightarrow> plain b \<Longrightarrow> a \<noteq> b \<Longrightarrow> chunk_key p \<noteq> chunk_key q"

section \<open>The in-memory store\<close>

record numpy =
  np_asarray :: "pyval \<Rightarrow> py_exn + real list"
  np_norm :: "real list \<Rightarrow> real"
  np_dot :: "real list \<Rightarrow> real list \<Rightarrow> py_exn + real"

text \<open>The string routines that are not modelled: \<open>casefold\<close> and the digest of a term.\<close>

record lexis =
  lx_casefold :: "string \<Rightarrow> string"
  lx_digest32 :: "string \<Rightarrow> nat"

record mem_entry =
  me_embedding :: "real list"
  me_sparse :: sparse_vector
  me_payload :: claims

type_synonym mem_store = "(string, mem_entry) dict"

definition mem_key :: "codec \<Rightarrow> claims \<Rightarrow> string" where
  "mem_key c ch = py_str c (claim ch ''tenant_id'') @ '':'' @ py_str c (claim ch ''chunk_id'')"

definition mem_put :: "codec \<Rightarrow> numpy \<Rightarrow> lexis \<Rightarrow> mem_store \<Rightarrow> claims \<Rightarrow> py_exn + mem_store" where
  "mem_put c np lx st ch =
     (if \<not> truthy (claim ch ''chunk_id'') then Inl ValueError
      else if claim ch ''embedding'' = PNone then Inl ValueError
      else if \<not> truthy (claim ch ''tenant_id'') \<or> \<not> truthy (claim ch ''owner_user_id'')
          \<or> \<not> truthy (claim ch ''owner_admin_id'') then Inl ValueError
      else
        bindE (np_asarray np (claim ch ''embedding'')) (\<lambda>e.
        bindE (sparse_lexical_vector (lx_casefold lx) (lx_digest32 lx) MAX_SPARSE_TERMS
                 (py_str c (dget_default ch ''text'' (PStr [])))) (\<lambda>sp.
        Inr (dset (mem_key c ch)
               \<lparr>me_embedding = e, me_sparse = sp, me_payload = filter (\<lambda>(k, v). k \<noteq> ''embedding'') ch\<rparr> st))))"

fun mem_put_all :: "codec \<Rightarrow> numpy \<Rightarrow> lexis \<Rightarrow> claims list \<Rightarrow> mem_store \<Rightarrow> (py_exn + unit) \<times> mem_store" where
  "mem_put_all c np lx [] st = (Inr (), st)"
| "mem_put_all c np lx (ch # chs) st =
     (case mem_put c np lx st ch of
        Inl e \<Rightarrow> (Inl e, st)
      | Inr st' \<Rightarrow> mem_put_all c np lx chs st')"

definition mem_upsert_chunks :: "codec \<Rightarrow> numpy \<Rightarrow> lexis \<Rightarrow> mem_store \<Rightarrow> claims list \<Rightarrow> (py_exn + nat) \<times> mem_store" where
  "mem_upsert_chunks c np lx st chunks =
     (if chunks = [] then (Inr 0, st)
      else case mem_put_all c np lx chunks st of
        (Inl e, st') \<Rightarrow> (Inl e, st')
      | (Inr _, st') \<Rightarrow> (Inr (length chunks), st'))"

definition cosine_similarity :: "numpy \<Rightarrow> real list \<Rightarrow> real list \<Rightarrow> py_exn + real" where
  "cosine_similarity np u v =
     (if np_norm np u = 0 \<or> np_norm np v = 0 then Inr 0
      else bindE (np_dot np u v) (\<lambda>d. Inr (d / (np_norm np u * np_norm np v))))"

text \<open>A loop that skips items, collects the others and stops at the first exception.\<close>

fun collectE :: "('a \<Rightarrow> 'e + 'b option) \<Rightarrow> 'a list \<Rightarrow> 'e + 'b list" where
  "collectE f [] = Inr []"
| "collectE f (x # xs) = bindE (f x) (\<lambda>y. bindE (collectE f xs) (\<lambda>ys.
     Inr (case y of None \<Rightarrow> ys | Some b \<Rightarrow> b # ys)))"

lemma collectE_set: "collectE f xs = Inr ys \<Longrightarrow> y \<in> set ys \<Longrightarrow> \<exists>x\<in>set xs. f x = Inr (Some y)"
  by (induction xs arbitrary: ys) (auto simp: bindE_Inr split: option.splits)

definition mem_skipped :: "claims \<Rightarrow> claims \<Rightarrow> bool" where
  "mem_skipped payload filters \<longleftrightarrow>
     \<not> truthy (claim payload ''retrieval_allowed'')
     \<or> py_eq (claim payload ''review_status'') (PStr ''removed'')
     \<or> filters \<noteq> [] \<and> \<not> matches_filters payload filters"

definition mem_dense_item ::
  "numpy \<Rightarrow> real list \<Rightarrow> claims \<Rightarrow> bool \<Rightarrow> bool \<Rightarrow> string \<times> mem_entry \<Rightarrow> py_exn + hit option" where
  "mem_dense_item np query filters include_payload include_vector = (\<lambda>(chunk_id, entry).
     if mem_skipped (me_payload entry) filters then Inr None
     else bindE (cosine_similarity np query (me_embedding entry)) (\<lambda>score.
       Inr (Some \<lparr>h_id = chunk_id, h_score = score,
         h_payload = (if include_payload then Some (me_payload entry) else None),
         h_vector = (if include_vector then Some (me_embedding entry) else None)\<rparr>)))"

definition mem_search_chunks ::
  "numpy \<Rightarrow> mem_store \<Rightarrow> real list \<Rightarrow> int \<Rightarrow> claims \<Rightarrow> bool \<Rightarrow> bool \<Rightarrow> py_exn + hit list" where
  "mem_search_chunks np st query top_k filters include_payload include_vector =
     bindE (collectE (mem_dense_item np query filters include_payload include_vector) st) (\<lambda>results.
     Inr (py_upto top_k (sort_key_desc h_score results)))"

definition zip_dict :: "'k list \<Rightarrow> 'v list \<Rightarrow> ('k, 'v) dict" where
  "zip_dict ks vs = foldl (\<lambda>d (k, v). dset k v d) [] (zip ks vs)"

definition mem_sparse_item ::
  "(int, real) dict \<Rightarrow> claims \<Rightarrow> bool \<Rightarrow> string \<times> mem_entry \<Rightarrow> py_exn + hit option" where
  "mem_sparse_item query filters include_payload = (\<lambda>(point_id, entry).
     if mem_skipped (me_payload entry) filters then Inr None
     else
       (let document = zip_dict (sv_indices (me_sparse entry)) (sv_values (me_sparse entry));
            score = sum_list (map (\<lambda>(i, v). v * dget_default document i 0) query) in
        if score \<le> 0 then Inr None
        else Inr (Some \<lparr>h_id = point_id, h_score = score,
          h_payload = (if include_payload then Some (me_payload entry) else None), h_vector = None\<rparr>)))"

definition mem_search_sparse ::
  "mem_store \<Rightarrow> sparse_vector \<Rightarrow> int \<Rightarrow> claims \<Rightarrow> bool \<Rightarrow> py_exn + hit list" where
  "mem_search_sparse st query_sparse top_k filters include_payload =
     (let query = zip_dict (sv_indices query_sparse) (sv_values query_sparse) in
      if query = [] then Inr []
      else bindE (collectE (mem_sparse_item query filters include_payload) st) (\<lambda>results.
        Inr (py_upto top_k (sort_key (\<lambda>h. (- h_score h, h_id h)) results))))"

definition matches_delete_filters :: "claims \<Rightarrow> pyval \<Rightarrow> pyval \<Rightarrow> bool" where
  "matches_delete_filters payload file_id document_id =
     (if truthy file_id \<and> \<not> py_eq (claim payload ''file_id'') file_id then False
      else if truthy document_id \<and> \<not> py_eq (claim payload ''document_id'') document_id then False
      else True)"

definition mem_delete_match :: "claims \<Rightarrow> claims \<Rightarrow> bool" where
  "mem_delete_match filters payload \<longleftrightarrow>
     matches_delete_filters payload (claim filters ''file_id'') (claim filters ''document_id'')
     \<and> matches_filters payload (filter (\<lambda>(k, v). k \<notin> {''file_id'', ''document_id''}) filters)"

definition mem_delete_chunks :: "mem_store \<Rightarrow> claims \<Rightarrow> (py_exn + nat) \<times> mem_store" where
  "mem_delete_chunks st filters =
     (if \<not> truthy (claim filters ''file_id'') \<and> \<not> truthy (claim filters ''document_id'')
      then (Inl ValueError, st)
      else
        (let to_delete = map fst (filter (\<lambda>(cid, entry). mem_delete_match filters (me_payload entry)) st) in
         (Inr (length to_delete), foldl (\<lambda>st cid. ddel cid st) st to_delete)))"

definition mem_named :: "codec \<Rightarrow> string \<Rightarrow> string list \<Rightarrow> claims \<Rightarrow> mem_entry \<Rightarrow> bool" where
  "mem_named c field wanted scope entry \<longleftrightarrow>
     (let v = claim (me_payload entry) field in
      v \<noteq> PNone \<and> py_str c v \<in> set wanted
      \<and> (scope = [] \<or> matches_filters (me_payload entry) scope))"

definition mem_lookup_ids ::
  "codec \<Rightarrow> mem_store \<Rightarrow> string \<Rightarrow> string list \<Rightarrow> claims \<Rightarrow> py_exn + string list \<times> string list" where
  "mem_lookup_ids c st field values filters =
     bindE (verify_targets field values) (\<lambda>wanted.
     if wanted = [] then Inr ([], [])
     else
       (let scope = filter (\<lambda>(k, v). v \<noteq> PNone) filters;
            found = filter (mem_named c field wanted scope) (map snd st);
            name = (\<lambda>entry. py_str c (claim (me_payload entry) field)) in
        Inr (sort (remdups (map name found)),
             sort (remdups (map name (filter (\<lambda>entry. retrievable (me_payload entry)) found))))))"

definition mem_vstore :: "codec \<Rightarrow> numpy \<Rightarrow> lexis \<Rightarrow> string \<Rightarrow> mem_store vstore" where
  "mem_vstore c np lx name =
     \<lparr>vs_collection = name, vs_initialize = (\<lambda>st. (Inr name, st)), vs_upsert = mem_upsert_chunks c np lx,
      vs_search = mem_search_chunks np, vs_sparse = mem_search_sparse, vs_delete = mem_delete_chunks,
      vs_lookup = (\<lambda>st field values filters. Some (mem_lookup_ids c st field values filters)), vs_count = (\<lambda>st. Inr (length st))\<rparr>"

section \<open>The in-memory store keeps the promises\<close>

definition mem_stored :: "mem_store \<Rightarrow> string \<Rightarrow> claims \<Rightarrow> bool" where
  "mem_stored st k p \<longleftrightarrow> (\<exists>e. dget st k = Some e \<and> me_payload e = p)"

definition mem_inv :: "codec \<Rightarrow> mem_store \<Rightarrow> bool" where
  "mem_inv c st \<longleftrightarrow> distinct (dkeys st) \<and> (\<forall>k e. dget st k = Some e \<longrightarrow> k = mem_key c (me_payload e))"

definition plain_id :: "string \<Rightarrow> bool" where
  "plain_id t \<longleftrightarrow> CHR '':'' \<notin> set t"

lemma set_py_upto: "set (py_upto i xs) \<subseteq> set xs"
  by (auto simp: py_upto_def dest: in_set_takeD)

lemma dget_without: "dget (filter (\<lambda>(k, v). k \<noteq> x) d) k = (if k = x then None else dget d k)"
  by (induction d) auto

lemma in_scope_none [simp]: "in_scope [] p"
  by (simp add: in_scope_def list_all_iff)

lemma not_skipped:
  assumes "\<not> mem_skipped p f" shows "retrievable p \<and> in_scope f p"
proof -
  have "f = [] \<or> matches_filters p f" using assms by (auto simp: mem_skipped_def)
  then have "in_scope f p" using matches_in_scope by auto
  with assms show ?thesis by (simp add: mem_skipped_def retrievable_def)
qed

lemma mem_search_hits:
  assumes "mem_inv c st" "mem_search_chunks np st q k f ip iv = Inr hits" "h \<in> set hits"
  shows "\<exists>p. mem_stored st (h_id h) p \<and> retrievable p \<and> in_scope f p \<and> h_payload h = (if ip then Some p else None)"
proof -
  obtain rs where c: "collectE (mem_dense_item np q f ip iv) st = Inr rs" and "h \<in> set rs"
    using assms(2,3) set_py_upto by (fastforce simp: mem_search_chunks_def bindE_Inr)
  from collectE_set [OF this] obtain i e where m: "(i, e) \<in> set st"
    and x: "mem_dense_item np q f ip iv (i, e) = Inr (Some h)" by auto
  have "dget st i = Some e" using m assms(1) by (simp add: mem_inv_def)
  moreover have "\<not> mem_skipped (me_payload e) f" "h_id h = i" "h_payload h = (if ip then Some (me_payload e) else None)"
    using x by (auto simp: mem_dense_item_def bindE_Inr split: if_splits)
  ultimately show ?thesis using not_skipped by (auto simp: mem_stored_def)
qed

lemma mem_sparse_hits:
  assumes "mem_inv c st" "mem_search_sparse st q k f ip = Inr hits" "h \<in> set hits"
  shows "\<exists>p. mem_stored st (h_id h) p \<and> retrievable p \<and> in_scope f p \<and> h_payload h = (if ip then Some p else None)"
proof -
  define qd where "qd = zip_dict (sv_indices q) (sv_values q)"
  obtain rs where c: "collectE (mem_sparse_item qd f ip) st = Inr rs" and "h \<in> set rs"
    using assms(2,3) set_py_upto by (fastforce simp: mem_search_sparse_def bindE_Inr Let_def qd_def split: if_splits)
  from collectE_set [OF this] obtain i e where m: "(i, e) \<in> set st"
    and x: "mem_sparse_item qd f ip (i, e) = Inr (Some h)" by auto
  have "dget st i = Some e" using m assms(1) by (simp add: mem_inv_def)
  moreover have "\<not> mem_skipped (me_payload e) f" "h_id h = i" "h_payload h = (if ip then Some (me_payload e) else None)"
    using x by (auto simp: mem_sparse_item_def Let_def split: if_splits)
  ultimately show ?thesis using not_skipped by (auto simp: mem_stored_def)
qed

lemma mem_put_entry:
  assumes "mem_put c np lx st ch = Inr st'"
  shows "\<exists>e. st' = dset (mem_key c ch) e st \<and> me_payload e = filter (\<lambda>(k, v). k \<noteq> ''embedding'') ch"
  using assms by (auto simp: mem_put_def bindE_Inr split: if_splits)

lemma mem_key_payload: "mem_key c (filter (\<lambda>(k, v). k \<noteq> ''embedding'') ch) = mem_key c ch"
  by (simp add: mem_key_def claim_def dget_without)

lemma same_scope_payload: "same_scope ch (filter (\<lambda>(k, v). k \<noteq> ''embedding'') ch)"
  by (simp add: same_scope_def SCOPE_FIELDS_def dget_without)

lemma mem_put_inv:
  assumes "mem_put c np lx st ch = Inr st'" "mem_inv c st" shows "mem_inv c st'"
proof -
  obtain e where e: "st' = dset (mem_key c ch) e st" "me_payload e = filter (\<lambda>(k, v). k \<noteq> ''embedding'') ch"
    using mem_put_entry [OF assms(1)] by auto
  then have "mem_key c (me_payload e) = mem_key c ch" by (simp add: mem_key_payload)
  with assms(2) show ?thesis unfolding e(1) mem_inv_def by auto
qed

lemma mem_put_all_inv: "mem_put_all c np lx chs st = (r, st') \<Longrightarrow> mem_inv c st \<Longrightarrow> mem_inv c st'"
  by (induction chs arbitrary: st) (auto split: sum.splits dest: mem_put_inv)

lemma mem_put_all_stored:
  "mem_put_all c np lx chs st = (r, st') \<Longrightarrow> mem_stored st' k p \<Longrightarrow>
     mem_stored st k p \<or> (\<exists>ch\<in>set chs. k = mem_key c ch \<and> same_scope ch p)"
proof (induction chs arbitrary: st)
  case (Cons ch chs)
  show ?case
  proof (cases "mem_put c np lx st ch")
    case (Inr st1)
    obtain e where e: "st1 = dset (mem_key c ch) e st" "me_payload e = filter (\<lambda>(k, v). k \<noteq> ''embedding'') ch"
      using mem_put_entry [OF Inr] by auto
    have "mem_stored st1 k p \<or> (\<exists>ch\<in>set chs. k = mem_key c ch \<and> same_scope ch p)"
      using Cons Inr by simp
    moreover have "mem_stored st1 k p \<Longrightarrow> mem_stored st k p \<or> k = mem_key c ch \<and> same_scope ch p"
      using e same_scope_payload [of ch] by (auto simp: mem_stored_def split: if_splits)
    ultimately show ?thesis by auto
  qed (use Cons in auto)
qed simp

lemma mem_put_all_kept:
  "mem_put_all c np lx chs st = (r, st') \<Longrightarrow> mem_stored st k p \<Longrightarrow> \<forall>ch\<in>set chs. mem_key c ch \<noteq> k \<Longrightarrow>
     mem_stored st' k p"
proof (induction chs arbitrary: st)
  case (Cons ch chs)
  show ?case
  proof (cases "mem_put c np lx st ch")
    case (Inr st1)
    then have "mem_stored st1 k p" using mem_put_entry [OF Inr] Cons.prems by (auto simp: mem_stored_def)
    with Cons Inr show ?thesis by simp
  qed (use Cons in auto)
qed simp

lemma mem_upsert_run:
  assumes "mem_upsert_chunks c np lx st chunks = (r, st')"
  obtains r' where "mem_put_all c np lx chunks st = (r', st')"
  using assms by (auto simp: mem_upsert_chunks_def split: if_splits prod.splits sum.splits)

lemma dget_foldl_ddel: "dget (foldl (\<lambda>st cid. ddel cid st) st ks) k = (if k \<in> set ks then None else dget st k)"
  by (induction ks arbitrary: st) auto

lemma distinct_foldl_ddel: "distinct (dkeys st) \<Longrightarrow> distinct (dkeys (foldl (\<lambda>st cid. ddel cid st) st ks))"
  by (induction ks arbitrary: st) auto

lemma mem_delete_dget:
  assumes "mem_delete_chunks st f = (r, st')" "distinct (dkeys st)"
  shows "dget st' k = dget st k
    \<or> dget st' k = None \<and> (\<exists>e. dget st k = Some e \<and> mem_delete_match f (me_payload e))"
  using assms by (auto simp: mem_delete_chunks_def Let_def dget_foldl_ddel split: if_splits) blast+

lemma mem_delete_distinct: "mem_delete_chunks st f = (r, st') \<Longrightarrow> distinct (dkeys st) \<Longrightarrow> distinct (dkeys st')"
  by (auto simp: mem_delete_chunks_def Let_def distinct_foldl_ddel split: if_splits)

lemma mem_delete_inv:
  assumes "mem_delete_chunks st f = (r, st')" "mem_inv c st" shows "mem_inv c st'"
proof -
  have d: "distinct (dkeys st)" using assms(2) by (simp add: mem_inv_def)
  have "dget st k = Some e" if "dget st' k = Some e" for k e
    using mem_delete_dget [OF assms(1) d, of k] that by auto
  with mem_delete_distinct [OF assms(1) d] assms(2) show ?thesis unfolding mem_inv_def by blast
qed

lemma delete_match_in_scope:
  assumes "mem_delete_match f p" shows "in_scope f p"
proof -
  let ?g = "filter (\<lambda>(k, v). k \<notin> {''file_id'', ''document_id''}) f"
  have "in_scope ?g p" using assms by (intro matches_in_scope) (simp add: mem_delete_match_def)
  moreover have "dget ?g k = dget f k" if "k \<in> set SCOPE_FIELDS" for k
    using that by (induction f) (auto simp: SCOPE_FIELDS_def)
  ultimately show ?thesis by (simp add: in_scope_def list_all_iff)
qed

lemma mem_delete_kept:
  assumes "mem_delete_chunks st f = (r, st')" "mem_inv c st" "mem_stored st k p" "\<not> in_scope f p"
  shows "mem_stored st' k p"
proof -
  obtain e where e: "dget st k = Some e" "me_payload e = p" using assms(3) by (auto simp: mem_stored_def)
  have d: "distinct (dkeys st)" using assms(2) by (simp add: mem_inv_def)
  have "\<not> mem_delete_match f (me_payload e)" using assms(4) e(2) delete_match_in_scope by blast
  then have "dget st' k = Some e" using mem_delete_dget [OF assms(1) d, of k] unfolding e(1) by auto
  with e(2) show ?thesis by (auto simp: mem_stored_def)
qed

lemma mem_key_apart:
  assumes "dget p ''tenant_id'' = Some (PStr a)" "dget q ''tenant_id'' = Some (PStr b)"
    "plain_id a" "plain_id b" "a \<noteq> b"
  shows "mem_key c p \<noteq> mem_key c q"
proof
  assume "mem_key c p = mem_key c q"
  then have e: "a @ '':'' @ py_str c (claim p ''chunk_id'') = b @ '':'' @ py_str c (claim q ''chunk_id'')"
    using assms(1,2) by (simp add: mem_key_def claim_def py_str_def)
  have "takeWhile (\<lambda>x. x \<noteq> CHR '':'') (a @ '':'' @ x) = a" if "plain_id a" for a x
    using that by (subst takeWhile_append2) (auto simp: plain_id_def)
  from this [OF assms(3)] this [OF assms(4)] e show False using assms(5) by metis
qed

lemma dget_not_none: "dget f k = Some v \<Longrightarrow> v \<noteq> PNone \<Longrightarrow> dget (filter (\<lambda>(k, v). v \<noteq> PNone) f) k = Some v"
  by (induction f) (auto split: if_splits)

lemma in_scope_not_none: "in_scope (filter (\<lambda>(k, v). v \<noteq> PNone) f) p \<Longrightarrow> in_scope f p"
  using dget_not_none [of f] by (fastforce simp: in_scope_def list_all_iff split: option.split pyval.split)

lemma verify_targets_subset: "verify_targets field vals = Inr wanted \<Longrightarrow> set wanted \<subseteq> set vals"
  by (auto simp: verify_targets_def Let_def split: if_splits)

lemma mem_named_safe:
  assumes "mem_named c field wanted (filter (\<lambda>(k, v). v \<noteq> PNone) f) e"
  shows "py_str c (claim (me_payload e) field) \<in> set wanted" "in_scope f (me_payload e)"
proof -
  let ?g = "filter (\<lambda>(k, v). v \<noteq> PNone) f"
  show "py_str c (claim (me_payload e) field) \<in> set wanted" using assms by (simp add: mem_named_def Let_def)
  have "?g = [] \<or> matches_filters (me_payload e) ?g" using assms unfolding mem_named_def Let_def by blast
  then have "in_scope ?g (me_payload e)" using matches_in_scope by auto
  then show "in_scope f (me_payload e)" by (rule in_scope_not_none)
qed

lemma mem_lookup_named:
  assumes l: "mem_lookup_ids c st field vals f = Inr (present, retr)" and d: "distinct (dkeys st)"
  shows "(\<forall>v\<in>set present. v \<in> set vals \<and> (\<exists>k p. mem_stored st k p \<and> in_scope f p \<and> py_str c (claim p field) = v))
    \<and> (\<forall>v\<in>set retr. v \<in> set vals \<and> (\<exists>k p. mem_stored st k p \<and> in_scope f p \<and> retrievable p \<and> py_str c (claim p field) = v))"
proof -
  obtain wanted where w: "verify_targets field vals = Inr wanted" using l by (auto simp: mem_lookup_ids_def bindE_Inr)
  let ?N = "mem_named c field wanted (filter (\<lambda>(k, v). v \<noteq> PNone) f)"
  have st: "\<exists>k. mem_stored st k (me_payload e)" if "e \<in> set (map snd st)" for e
    using that d unfolding mem_stored_def by force
  have pr: "set present \<subseteq> (\<lambda>e. py_str c (claim (me_payload e) field)) ` {e \<in> set (map snd st). ?N e}"
    "set retr \<subseteq> (\<lambda>e. py_str c (claim (me_payload e) field)) ` {e \<in> set (map snd st). ?N e \<and> retrievable (me_payload e)}"
    using l unfolding mem_lookup_ids_def w bindE_simps Let_def by (auto split: if_splits)
  have ok: "py_str c (claim (me_payload e) field) \<in> set vals \<and> (\<exists>k. mem_stored st k (me_payload e)) \<and> in_scope f (me_payload e)"
    if "e \<in> set (map snd st)" "?N e" for e
    using st [OF that(1)] mem_named_safe [OF that(2)] verify_targets_subset [OF w] by (intro conjI) (rule subsetD, assumption+)
  show ?thesis
  proof (intro conjI ballI)
    fix v assume "v \<in> set present"
    then obtain e where "v = py_str c (claim (me_payload e) field)" "e \<in> set (map snd st)" "?N e" using pr(1) by blast
    with ok show "v \<in> set vals" "\<exists>k p. mem_stored st k p \<and> in_scope f p \<and> py_str c (claim p field) = v" by blast+
  next
    fix v assume "v \<in> set retr"
    then obtain e where "v = py_str c (claim (me_payload e) field)" "e \<in> set (map snd st)" "?N e" "retrievable (me_payload e)"
      using pr(2) by blast
    with ok show "v \<in> set vals" "\<exists>k p. mem_stored st k p \<and> in_scope f p \<and> retrievable p \<and> py_str c (claim p field) = v"
      by blast+
  qed
qed

interpretation mem_reads: store_reads "mem_vstore c np lx name" mem_stored "mem_inv c" "py_str c"
  for c np lx name
proof
  show "\<exists>p. mem_stored s (h_id h) p \<and> retrievable p \<and> in_scope f p \<and> h_payload h = (if ip then Some p else None)"
    if "mem_inv c s" "vs_search (mem_vstore c np lx name) s q k f ip iv = Inr hits" "h \<in> set hits" for s q k f ip iv hits h
    using that(1) _ that(3) by (rule mem_search_hits) (use that(2) in \<open>simp add: mem_vstore_def\<close>)
  show "\<exists>p. mem_stored s (h_id h) p \<and> retrievable p \<and> in_scope f p \<and> h_payload h = (if ip then Some p else None)"
    if "mem_inv c s" "vs_sparse (mem_vstore c np lx name) s q k f ip = Inr hits" "h \<in> set hits" for s q k f ip hits h
    using that(1) _ that(3) by (rule mem_sparse_hits) (use that(2) in \<open>simp add: mem_vstore_def\<close>)
  show "(\<forall>v\<in>set present. v \<in> set vals \<and> (\<exists>k p. mem_stored s k p \<and> in_scope f p \<and> py_str c (claim p field) = v))
      \<and> (\<forall>v\<in>set retr. v \<in> set vals \<and> (\<exists>k p. mem_stored s k p \<and> in_scope f p \<and> retrievable p \<and> py_str c (claim p field) = v))"
    if "mem_inv c s" "vs_lookup (mem_vstore c np lx name) s field vals f = Some (Inr (present, retr))" for s field vals f present retr
    by (rule mem_lookup_named) (use that in \<open>simp_all add: mem_vstore_def mem_inv_def\<close>)
  show "mem_inv c s'" if "mem_inv c s" "vs_upsert (mem_vstore c np lx name) s cs = (r, s')" for s cs r s'
    using that by (auto simp: mem_vstore_def elim!: mem_upsert_run intro: mem_put_all_inv)
  show "mem_inv c s'" if "mem_inv c s" "vs_delete (mem_vstore c np lx name) s f = (r, s')" for s f r s'
    using that by (auto simp: mem_vstore_def intro: mem_delete_inv)
qed (simp add: mem_vstore_def)

interpretation mem: vector_store "mem_vstore c np lx name" mem_stored "mem_inv c" "py_str c" "mem_key c" plain_id
  for c np lx name
proof
  show "mem_stored s k p \<or> (\<exists>ch\<in>set cs. k = mem_key c ch \<and> same_scope ch p)"
    if "mem_inv c s" "vs_upsert (mem_vstore c np lx name) s cs = (r, s')" "mem_stored s' k p" for s cs r s' k p
    using that by (auto simp: mem_vstore_def elim!: mem_upsert_run dest: mem_put_all_stored)
  show "mem_stored s' k p"
    if "mem_inv c s" "vs_upsert (mem_vstore c np lx name) s cs = (r, s')" "mem_stored s k p"
      "\<forall>ch\<in>set cs. mem_key c ch \<noteq> k" for s cs r s' k p
    using that by (auto simp: mem_vstore_def elim!: mem_upsert_run dest: mem_put_all_kept)
  show "mem_stored s k p" if "mem_inv c s" "vs_delete (mem_vstore c np lx name) s f = (r, s')" "mem_stored s' k p" for s f r s' k p
    using that mem_delete_dget [of s f r s' k] by (auto simp: mem_vstore_def mem_inv_def mem_stored_def)
  show "mem_stored s' k p"
    if "mem_inv c s" "vs_delete (mem_vstore c np lx name) s f = (r, s')" "mem_stored s k p" "\<not> in_scope f p" for s f r s' k p
    using that by (auto simp: mem_vstore_def intro: mem_delete_kept)
  show "k = mem_key c p" if "mem_inv c s" "mem_stored s k p" for s k p
    using that unfolding mem_inv_def mem_stored_def by blast
qed (auto simp: mem_vstore_def mem_key_apart)

end
