(* ===== verification/Vector_Service.thy ===== *)
theory Vector_Service
  imports Vector_Store
begin

text \<open>
  The operations of \<open>backend/vector_db/app/services/vector_service.py\<close> over any store of
  the interface: identity scope, ownership of written chunks, upsert with its review
  outcomes, dense and hybrid search, deletion, verification of ids and the metrics.  The
  lemmas about scope and isolation are proved once for every store that keeps the promises
  of the interface.
\<close>

section \<open>Errors, settings, identity\<close>

datatype vec_exn = EAuth auth_error | EInvalid | EStore | EValidation | EPy py_exn | ERuntime

text \<open>The handlers \<open>except AuthError / except ValueError / except Exception\<close> of every operation.\<close>

fun vec_wrap :: "vec_exn \<Rightarrow> vec_exn" where
  "vec_wrap (EAuth e) = EAuth e"
| "vec_wrap (EPy ValueError) = EInvalid"
| "vec_wrap _ = EStore"

definition mapInl :: "('a \<Rightarrow> 'b) \<Rightarrow> 'a + 'c \<Rightarrow> 'b + 'c" where
  "mapInl f x = (case x of Inl e \<Rightarrow> Inl (f e) | Inr y \<Rightarrow> Inr y)"

lemma mapInl_Inr [simp]: "mapInl f x = Inr y \<longleftrightarrow> x = Inr y"
  by (simp add: mapInl_def split: sum.split)

record vec_env =
  ve_codec :: codec
  ve_numpy :: numpy
  ve_auth_required :: string
  ve_context :: claims
  ve_closed :: bool

definition vec_identity :: "vec_env \<Rightarrow> vec_exn + auth_identity option" where
  "vec_identity env = mapInl EAuth (identity_from_context (ve_codec env)
     (py_lower (ve_auth_required env) \<in> {''1'', ''true'', ''yes''}) (ve_context env))"

definition scoped_filters :: "vec_env \<Rightarrow> claims \<Rightarrow> vec_exn + claims" where
  "scoped_filters env filters =
     bindE (vec_identity env) (\<lambda>identity.
     Inr (case identity of
       None \<Rightarrow> filters
     | Some i \<Rightarrow>
         (let scoped = dset ''tenant_id'' (PStr (id_tenant i)) filters in
          if is_admin i then ddel ''owner_user_id'' (dset ''owner_admin_id'' (PStr (id_user i)) scoped)
          else if id_role i \<noteq> ROLE_SERVICE
          then ddel ''owner_admin_id'' (dset ''owner_user_id'' (PStr (id_user i)) scoped)
          else scoped)))"

definition owned_chunk :: "auth_identity \<Rightarrow> claims \<Rightarrow> vec_exn + claims" where
  "owned_chunk i source =
     (let supplied = claim source ''tenant_id'' in
      if truthy supplied \<and> \<not> py_eq supplied (PStr (id_tenant i)) then Inl EInvalid
      else
        (let chunk = dset ''tenant_id'' (PStr (id_tenant i)) source in
         if is_admin i then
           (let oa = claim chunk ''owner_admin_id'' in
            if \<not> (oa = PNone \<or> py_eq oa (PStr (id_user i))) then Inl EInvalid
            else
              (let chunk = dset ''owner_admin_id'' (PStr (id_user i)) chunk in
               Inr (case dget chunk ''owner_user_id'' of
                      None \<Rightarrow> dset ''owner_user_id'' (PStr (id_user i)) chunk | Some _ \<Rightarrow> chunk)))
         else if id_role i = ROLE_SERVICE then
           (if \<not> truthy (claim chunk ''owner_user_id'') \<or> \<not> truthy (claim chunk ''owner_admin_id'')
            then Inl EInvalid else Inr chunk)
         else
           Inr (dset ''owner_admin_id'' (PStr (case id_admin i of Some a \<Rightarrow> if a = [] then id_user i else a | None \<Rightarrow> id_user i))
                 (dset ''owner_user_id'' (PStr (id_user i)) chunk))))"

fun mapE :: "('a \<Rightarrow> 'e + 'b) \<Rightarrow> 'a list \<Rightarrow> 'e + 'b list" where
  "mapE f [] = Inr []"
| "mapE f (x # xs) = bindE (f x) (\<lambda>y. bindE (mapE f xs) (\<lambda>ys. Inr (y # ys)))"

lemma mapE_Inr: "mapE f xs = Inr ys \<longleftrightarrow> list_all2 (\<lambda>x y. f x = Inr y) xs ys"
  by (induction xs arbitrary: ys) (auto simp: bindE_Inr list_all2_Cons1)

definition owned_chunks :: "vec_env \<Rightarrow> claims list \<Rightarrow> vec_exn + claims list" where
  "owned_chunks env chunks =
     bindE (vec_identity env) (\<lambda>identity.
     case identity of None \<Rightarrow> Inr chunks | Some i \<Rightarrow> mapE (owned_chunk i) chunks)"

definition privileged :: "auth_identity option \<Rightarrow> bool" where
  "privileged identity = (case identity of None \<Rightarrow> True | Some i \<Rightarrow> is_admin i \<or> id_role i = ROLE_SERVICE)"

definition require_admin_for_review :: "vec_env \<Rightarrow> string \<Rightarrow> vec_exn + unit" where
  "require_admin_for_review env review_outcome =
     bindE (vec_identity env) (\<lambda>identity.
     if review_outcome \<noteq> ''none'' \<and> identity \<noteq> None \<and> \<not> privileged identity then Inl EInvalid else Inr ())"

section \<open>Operations\<close>

definition vec_delete_chunks :: "vec_env \<Rightarrow> 's vstore \<Rightarrow> 's \<Rightarrow> claims \<Rightarrow> (vec_exn + nat) \<times> 's" where
  "vec_delete_chunks env vs s filters =
     (case vec_identity env of
        Inl e \<Rightarrow> (Inl e, s)
      | Inr identity \<Rightarrow>
          if identity \<noteq> None \<and> \<not> privileged identity then (Inl EInvalid, s)
          else
            case scoped_filters env filters of
              Inl e \<Rightarrow> (Inl (vec_wrap e), s)
            | Inr f \<Rightarrow> (case vs_delete vs s f of (r, s') \<Rightarrow> (mapInl (vec_wrap \<circ> EPy) r, s')))"

record upsert_result =
  ur_collection :: string
  ur_upserted :: nat
  ur_deleted :: nat
  ur_document_id :: pyval
  ur_file_id :: pyval
  ur_review_outcome :: string

definition set_review :: "string \<Rightarrow> claims list \<Rightarrow> claims list" where
  "set_review status = map (dset ''review_status'' (PStr status))"

text \<open>The part of \<open>upsert_chunks\<close> after the review branch.\<close>

definition vec_store_chunks ::
  "'s vstore \<Rightarrow> 's \<Rightarrow> claims list \<Rightarrow> string \<Rightarrow> nat \<Rightarrow> (vec_exn + upsert_result) \<times> 's" where
  "vec_store_chunks vs s prepared review_outcome deleted =
     (case vs_upsert vs s prepared of
        (Inl e, s') \<Rightarrow> (Inl (vec_wrap (EPy e)), s')
      | (Inr n, s') \<Rightarrow>
          (Inr \<lparr>ur_collection = vs_collection vs, ur_upserted = n, ur_deleted = deleted,
                ur_document_id = claim (hd prepared) ''document_id'',
                ur_file_id = claim (hd prepared) ''file_id'', ur_review_outcome = review_outcome\<rparr>, s'))"

definition vec_upsert_chunks ::
  "vec_env \<Rightarrow> 's vstore \<Rightarrow> 's \<Rightarrow> claims list \<Rightarrow> string \<Rightarrow> claims \<Rightarrow> (vec_exn + upsert_result) \<times> 's" where
  "vec_upsert_chunks env vs s chunks review_outcome target_filters =
     (if chunks = [] then (Inl EInvalid, s)
      else
        case bindE (require_admin_for_review env review_outcome) (\<lambda>_. owned_chunks env chunks) of
          Inl e \<Rightarrow> (Inl e, s)
        | Inr prepared \<Rightarrow>
            if review_outcome = ''accept_as_is''
            then vec_store_chunks vs s (set_review ''accepted_with_risk'' prepared) review_outcome 0
            else if review_outcome = ''remove_problematic_text'' then
              (if target_filters = [] then (Inl EInvalid, s)
               else
                 case vec_delete_chunks env vs s target_filters of
                   (Inl e, s') \<Rightarrow> (Inl e, s')
                 | (Inr n, s') \<Rightarrow> vec_store_chunks vs s' (set_review ''sanitized'' prepared) review_outcome n)
            else if review_outcome \<noteq> ''none'' then (Inl EInvalid, s)
            else vec_store_chunks vs s prepared review_outcome 0)"

datatype search_results = DenseHits "hit list" | HybridHits "fused_hit list"

fun result_hits :: "search_results \<Rightarrow> (string \<times> claims option) list" where
  "result_hits (DenseHits hs) = map (\<lambda>h. (h_id h, h_payload h)) hs"
| "result_hits (HybridHits hs) = map (\<lambda>h. (h_id h, h_payload h)) hs"

record search_args =
  sa_query_vector :: "real list"
  sa_top_k :: int
  sa_filters :: claims
  sa_include_payload :: bool
  sa_include_vector :: bool
  sa_query_sparse :: "sparse_vector option"
  sa_strategy :: string
  sa_dense_k :: int
  sa_sparse_k :: int
  sa_rrf_k :: int

definition search_hybrid_arms ::
  "vec_env \<Rightarrow> 's vstore \<Rightarrow> 's \<Rightarrow> real list \<Rightarrow> sparse_vector \<Rightarrow> search_args \<Rightarrow> claims \<Rightarrow> vec_exn + hit list \<times> hit list" where
  "search_hybrid_arms env vs s query sparse a filters =
     (if ve_closed env then Inl ERuntime
      else
        (let dense = vs_search vs s query (sa_dense_k a) filters (sa_include_payload a) (sa_include_vector a);
             lexical = vs_sparse vs s sparse (sa_sparse_k a) filters (sa_include_payload a) in
         bindE (mapInl (\<lambda>_. ERuntime) dense) (\<lambda>d.
         bindE (mapInl (\<lambda>_. ERuntime) lexical) (\<lambda>l. Inr (d, l)))))"

definition vec_search_chunks :: "vec_env \<Rightarrow> 's vstore \<Rightarrow> 's \<Rightarrow> search_args \<Rightarrow> vec_exn + search_results" where
  "vec_search_chunks env vs s a =
     (if sa_query_vector a = [] then Inl EInvalid
      else mapInl vec_wrap (
        bindE (mapInl EPy (np_asarray (ve_numpy env) (PList (map PFloat (sa_query_vector a))))) (\<lambda>query.
        bindE (scoped_filters env (sa_filters a)) (\<lambda>filters.
        if sa_strategy a = ''hybrid'' then
          (case sa_query_sparse a of
             None \<Rightarrow> Inl EInvalid
           | Some sparse \<Rightarrow>
               bindE (search_hybrid_arms env vs s query sparse a filters) (\<lambda>(d, l).
               bindE (mapInl EPy (reciprocal_rank_fusion (ve_codec env) d l (sa_top_k a) (sa_rrf_k a))) (\<lambda>r.
               Inr (HybridHits r))))
        else if sa_strategy a = ''dense'' then
          bindE (mapInl EPy (vs_search vs s query (sa_top_k a) filters (sa_include_payload a) (sa_include_vector a)))
            (\<lambda>r. Inr (DenseHits r))
        else Inl EInvalid))))"

record verified =
  vf_present :: "string list"
  vf_retrievable :: "string list"
  vf_missing :: "string list"

definition verify_field :: "'s vstore \<Rightarrow> 's \<Rightarrow> string \<Rightarrow> string list \<Rightarrow> claims \<Rightarrow> (vec_exn + verified) option" where
  "verify_field vs s field values scope =
     (if values = [] then Some (Inr \<lparr>vf_present = [], vf_retrievable = [], vf_missing = []\<rparr>)
      else
        map_option (\<lambda>found. bindE (mapInl (vec_wrap \<circ> EPy) found) (\<lambda>(present, retr).
          Inr \<lparr>vf_present = sort (remdups present), vf_retrievable = sort (remdups retr),
               vf_missing = sort (remdups (filter (\<lambda>v. v \<notin> set present) values))\<rparr>))
          (vs_lookup vs s field values scope))"

definition vec_verify_chunk_ids ::
  "vec_env \<Rightarrow> 's vstore \<Rightarrow> 's \<Rightarrow> string list \<Rightarrow> string list \<Rightarrow> (vec_exn + verified \<times> verified) option" where
  "vec_verify_chunk_ids env vs s chunk_ids file_ids =
     (let chunk_ids = filter (\<lambda>v. strip v \<noteq> []) chunk_ids; file_ids = filter (\<lambda>v. strip v \<noteq> []) file_ids in
      if chunk_ids = [] \<and> file_ids = [] then Some (Inl EInvalid)
      else
        case scoped_filters env [] of
          Inl e \<Rightarrow> Some (Inl e)
        | Inr scope \<Rightarrow>
            (case verify_field vs s ''chunk_id'' chunk_ids scope of
               None \<Rightarrow> None
             | Some (Inl e) \<Rightarrow> Some (Inl e)
             | Some (Inr vc) \<Rightarrow>
                 map_option (\<lambda>r. bindE r (\<lambda>vf. Inr (vc, vf))) (verify_field vs s ''file_id'' file_ids scope)))"

definition vec_collection_metrics :: "vec_env \<Rightarrow> 's vstore \<Rightarrow> 's \<Rightarrow> vec_exn + string \<times> nat" where
  "vec_collection_metrics env vs s =
     bindE (vec_identity env) (\<lambda>identity.
     if identity \<noteq> None \<and> \<not> privileged identity then Inl EInvalid
     else bindE (mapInl (\<lambda>_. EStore) (vs_count vs s)) (\<lambda>n. Inr (vs_collection vs, n)))"

text \<open>The operations that change the store, as requests.\<close>

datatype vec_write =
    WUpsert "claims list" string claims
  | WDelete claims
  | WInitialize

fun vec_write_step :: "'s vstore \<Rightarrow> vec_env \<times> vec_write \<Rightarrow> 's \<Rightarrow> 's" where
  "vec_write_step vs (env, WUpsert chunks outcome target) s = snd (vec_upsert_chunks env vs s chunks outcome target)"
| "vec_write_step vs (env, WDelete filters) s = snd (vec_delete_chunks env vs s filters)"
| "vec_write_step vs (env, WInitialize) s = snd (vs_initialize vs s)"

definition vec_writes :: "'s vstore \<Rightarrow> (vec_env \<times> vec_write) list \<Rightarrow> 's \<Rightarrow> 's" where
  "vec_writes vs = fold (vec_write_step vs)"

section \<open>Scope\<close>

text \<open>The chunks a caller may see.\<close>

definition visible_to :: "auth_identity \<Rightarrow> claims \<Rightarrow> bool" where
  "visible_to i p \<longleftrightarrow> dget p ''tenant_id'' = Some (PStr (id_tenant i))
     \<and> (if is_admin i then dget p ''owner_admin_id'' = Some (PStr (id_user i))
        else id_role i = ROLE_SERVICE \<or> dget p ''owner_user_id'' = Some (PStr (id_user i)))"

lemma vec_identity_nonempty:
  assumes "vec_identity env = Inr (Some i)" shows "id_tenant i \<noteq> []" "id_user i \<noteq> []"
  using assms
  by (auto simp: vec_identity_def identity_from_context_def identity_from_mapping_def identity_check_def bindE_Inr
      split: if_splits)

lemma scoped_in_scope:
  assumes "vec_identity env = Inr (Some i)" "scoped_filters env f = Inr g" "in_scope g p"
  shows "visible_to i p"
  using assms vec_identity_nonempty [OF assms(1)]
  by (auto simp: scoped_filters_def in_scope_def SCOPE_FIELDS_def visible_to_def Let_def split: if_splits)

lemma scoped_filters_ok: "vec_identity env = Inr i \<Longrightarrow> \<exists>g. scoped_filters env f = Inr g"
  by (simp add: scoped_filters_def)

lemma owned_chunk_tenant: "owned_chunk i ch = Inr ch' \<Longrightarrow> dget ch' ''tenant_id'' = Some (PStr (id_tenant i))"
  by (auto simp: owned_chunk_def Let_def split: if_splits option.splits)

lemma owned_chunks_tenant:
  assumes "vec_identity env = Inr (Some i)" "owned_chunks env chs = Inr chs'" "ch \<in> set chs'"
  shows "dget ch ''tenant_id'' = Some (PStr (id_tenant i))"
  using assms by (auto simp: owned_chunks_def mapE_Inr in_set_conv_nth list_all2_conv_all_nth intro: owned_chunk_tenant)

lemma set_review_tenant: "ch \<in> set (set_review st chs) \<Longrightarrow> \<exists>ch'\<in>set chs. dget ch ''tenant_id'' = dget ch' ''tenant_id''"
  by (auto simp: set_review_def)

context store_reads
begin

text \<open>Whatever the strategy and the caller's own filters, a hit is a chunk the caller may see.\<close>

lemma search_visible:
  assumes inv: "inv s" and i: "vec_identity env = Inr (Some i)"
    and r: "vec_search_chunks env vs s a = Inr res" and h: "(k, pl) \<in> set (result_hits res)"
  shows "\<exists>p. stored s k p \<and> retrievable p \<and> visible_to i p \<and> pl = (if sa_include_payload a then Some p else None)"
proof -
  obtain q f where f: "scoped_filters env (sa_filters a) = Inr f"
    and res: "(\<exists>sp d l fh. search_hybrid_arms env vs s q sp a f = Inr (d, l)
          \<and> reciprocal_rank_fusion (ve_codec env) d l (sa_top_k a) (sa_rrf_k a) = Inr fh \<and> res = HybridHits fh)
      \<or> (\<exists>hs. vs_search vs s q (sa_top_k a) f (sa_include_payload a) (sa_include_vector a) = Inr hs \<and> res = DenseHits hs)"
    using r by (auto simp: vec_search_chunks_def bindE_Inr split: if_splits option.splits) blast
  let ?ok = "\<lambda>h :: hit. \<exists>p. stored s (h_id h) p \<and> retrievable p \<and> in_scope f p \<and> h_payload h = (if sa_include_payload a then Some p else None)"
  have "\<exists>h. ?ok h \<and> h_id h = k \<and> h_payload h = pl"
    using res
  proof (elim disjE exE conjE)
    fix sp d l fh
    assume arms: "search_hybrid_arms env vs s q sp a f = Inr (d, l)"
      and fu: "reciprocal_rank_fusion (ve_codec env) d l (sa_top_k a) (sa_rrf_k a) = Inr fh" and "res = HybridHits fh"
    then obtain x where x: "x \<in> set fh" "h_id x = k" "h_payload x = pl" using h by auto
    from fusion_from_arms [OF fu x(1)] obtain y where y: "y \<in> set (d @ l)" "h_id x = h_id y" "h_payload x = h_payload y" by blast
    have "vs_search vs s q (sa_dense_k a) f (sa_include_payload a) (sa_include_vector a) = Inr d"
      "vs_sparse vs s sp (sa_sparse_k a) f (sa_include_payload a) = Inr l"
      using arms by (auto simp: search_hybrid_arms_def bindE_Inr Let_def split: if_splits)
    then have "?ok y" using search_safe [OF inv] sparse_safe [OF inv] y(1) by fastforce
    with x y show ?thesis by metis
  next
    fix hs assume "vs_search vs s q (sa_top_k a) f (sa_include_payload a) (sa_include_vector a) = Inr hs" "res = DenseHits hs"
    with h search_safe [OF inv] show ?thesis by fastforce
  qed
  with scoped_in_scope [OF i f] show ?thesis by blast
qed

text \<open>A verification only speaks about the ids that were sent and the chunks the caller may see.\<close>

lemma verify_field_safe:
  assumes "inv s" "vec_identity env = Inr (Some i)" "scoped_filters env [] = Inr scope"
    and "verify_field vs s field vals scope = Some (Inr v)"
  shows "set (vf_present v) \<union> set (vf_missing v) = set vals \<and> set (vf_present v) \<inter> set (vf_missing v) = {}
    \<and> (\<forall>x\<in>set (vf_present v). \<exists>k p. stored s k p \<and> visible_to i p \<and> name_of (claim p field) = x)
    \<and> (\<forall>x\<in>set (vf_retrievable v). x \<in> set vals \<and> (\<exists>k p. stored s k p \<and> visible_to i p \<and> retrievable p \<and> name_of (claim p field) = x))"
proof (cases "vals = []")
  case False
  then obtain present retr where l: "vs_lookup vs s field vals scope = Some (Inr (present, retr))"
    and v: "v = \<lparr>vf_present = sort (remdups present), vf_retrievable = sort (remdups retr),
               vf_missing = sort (remdups (filter (\<lambda>v. v \<notin> set present) vals))\<rparr>"
    using assms(4) by (auto simp: verify_field_def bindE_Inr)
  note vis = scoped_in_scope [OF assms(2,3)]
  show ?thesis using lookup_safe [OF assms(1) l] vis unfolding v by simp blast
qed (use assms(4) in \<open>auto simp: verify_field_def\<close>)

lemma delete_keeps_inv: "inv s \<Longrightarrow> inv (snd (vec_delete_chunks env vs s f))"
  by (auto simp: vec_delete_chunks_def split: sum.splits prod.splits intro: delete_inv)

lemma store_keeps_inv: "inv s \<Longrightarrow> inv (snd (vec_store_chunks vs s chs ro n))"
  by (auto simp: vec_store_chunks_def split: sum.splits prod.splits intro: upsert_inv)

lemma upsert_keeps_inv:
  assumes "inv s" shows "inv (snd (vec_upsert_chunks env vs s chs ro tf))"
proof -
  obtain r1 s1 where d: "vec_delete_chunks env vs s tf = (r1, s1)" by fastforce
  with delete_keeps_inv [OF assms] have "inv s1" by (metis snd_conv)
  with assms show ?thesis
    unfolding vec_upsert_chunks_def d by (auto split: sum.split simp: store_keeps_inv)
qed

text \<open>The invariant holds after any writes, whoever the callers are.\<close>

lemma writes_keep_inv: "inv s \<Longrightarrow> inv (vec_writes vs ws s)"
proof (induction ws arbitrary: s)
  case (Cons w ws)
  obtain env x where w: "w = (env, x)" by fastforce
  have "inv (vec_write_step vs w s)"
    unfolding w using upsert_keeps_inv delete_keeps_inv initialize_inv [OF Cons.prems prod.collapse [symmetric]] Cons.prems
    by (cases x) auto
  with Cons.IH show ?case by (simp add: vec_writes_def)
qed (simp add: vec_writes_def)

end

context vector_store
begin

lemma delete_invisible:
  assumes "inv s" "vec_identity env = Inr (Some i)" "vec_delete_chunks env vs s f = (r, s')"
  shows "inv s'" "stored s' k p \<Longrightarrow> stored s k p" "stored s k p \<Longrightarrow> \<not> visible_to i p \<Longrightarrow> stored s' k p"
proof -
  have c: "s' = s \<or> (\<exists>g r'. scoped_filters env f = Inr g \<and> vs_delete vs s g = (r', s'))"
    using assms(2,3) by (auto simp: vec_delete_chunks_def split: if_splits sum.splits prod.splits)
  show "inv s'" using c assms(1) delete_inv by blast
  show "stored s k p" if "stored s' k p" using c assms(1) delete_only that by blast
  show "stored s' k p" if "stored s k p" "\<not> visible_to i p"
    using c assms(1) delete_scope that scoped_in_scope [OF assms(2)] by blast
qed

lemma store_chunks_tenant:
  assumes "inv s" "vec_store_chunks vs s prepared ro n = (r, s')"
    and own: "\<And>ch. ch \<in> set prepared \<Longrightarrow> dget ch ''tenant_id'' = Some (PStr a)"
    and p: "dget p ''tenant_id'' = Some (PStr b)" "plain a" "plain b" "a \<noteq> b"
  shows "inv s' \<and> (stored s' k p \<longleftrightarrow> stored s k p)"
proof -
  obtain r' where u: "vs_upsert vs s prepared = (r', s')"
    using assms(2) by (auto simp: vec_store_chunks_def split: prod.splits sum.splits)
  have "\<not> same_scope ch p" if "ch \<in> set prepared" for ch
    using own [OF that] p by (auto simp: same_scope_def SCOPE_FIELDS_def)
  moreover have "stored s k p \<Longrightarrow> \<forall>ch\<in>set prepared. chunk_key ch \<noteq> k"
    using stored_key [OF assms(1)] keys_apart [OF own p(1,2,3,4)] by blast
  ultimately show ?thesis
    using upsert_inv [OF assms(1) u] upsert_stored [OF assms(1) u] upsert_kept [OF assms(1) u] by blast
qed

lemma delete_tenant:
  assumes "inv s" "vec_identity env = Inr (Some i)" "vec_delete_chunks env vs s f = (r, s')"
    and "dget p ''tenant_id'' = Some (PStr b)" "id_tenant i \<noteq> b"
  shows "inv s' \<and> (stored s' k p \<longleftrightarrow> stored s k p)"
proof -
  have "\<not> visible_to i p" using assms(4,5) by (auto simp: visible_to_def)
  with delete_invisible [OF assms(1-3)] show ?thesis by blast
qed

lemma upsert_tenant:
  assumes inv: "inv s" and i: "vec_identity env = Inr (Some i)"
    and u: "vec_upsert_chunks env vs s chunks ro tf = (r, s')"
    and p: "dget p ''tenant_id'' = Some (PStr b)" "plain (id_tenant i)" "plain b" "id_tenant i \<noteq> b"
  shows "inv s' \<and> (stored s' k p \<longleftrightarrow> stored s k p)"
proof -
  have own: "dget ch ''tenant_id'' = Some (PStr (id_tenant i))"
    if "owned_chunks env chunks = Inr prepared" "ch \<in> set prepared \<or> ch \<in> set (set_review st prepared)" for prepared st ch
    using that owned_chunks_tenant [OF i that(1)] set_review_tenant by metis
  have store: "inv s' \<and> (stored s' k p \<longleftrightarrow> stored s k p)"
    if "owned_chunks env chunks = Inr prepared" "ch = prepared \<or> (\<exists>st. ch = set_review st prepared)"
      "vec_store_chunks vs s1 ch ro n = (r, s')" "inv s1" "stored s1 k p \<longleftrightarrow> stored s k p" for prepared ch n s1
  proof -
    have "\<And>x. x \<in> set ch \<Longrightarrow> dget x ''tenant_id'' = Some (PStr (id_tenant i))" using own [OF that(1)] that(2) by blast
    from store_chunks_tenant [OF that(4,3) this p] that(5) show ?thesis by blast
  qed
  have del: "inv s1 \<and> (stored s1 k p \<longleftrightarrow> stored s k p)" if "vec_delete_chunks env vs s tf = (r1, s1)" for r1 s1
    using delete_tenant [OF inv i that p(1,4)] .
  show ?thesis
  proof (cases "bindE (require_admin_for_review env ro) (\<lambda>_. owned_chunks env chunks)")
    case (Inr prepared)
    then have o: "owned_chunks env chunks = Inr prepared" by (simp add: bindE_Inr)
    obtain r1 s1 where d: "vec_delete_chunks env vs s tf = (r1, s1)" by fastforce
    show ?thesis using u inv store [OF o] del [OF d] unfolding vec_upsert_chunks_def Inr d
      by (cases r1) (auto split: if_splits)
  qed (use u inv in \<open>auto simp: vec_upsert_chunks_def split: if_splits\<close>)
qed

lemma write_tenant:
  assumes "inv s" "vec_identity env = Inr (Some i)"
    and "dget p ''tenant_id'' = Some (PStr b)" "plain (id_tenant i)" "plain b" "id_tenant i \<noteq> b"
  shows "inv (vec_write_step vs (env, w) s) \<and> (stored (vec_write_step vs (env, w) s) k p \<longleftrightarrow> stored s k p)"
proof (cases w)
  case (WUpsert chunks ro tf)
  with upsert_tenant [OF assms(1,2) _ assms(3-6)] show ?thesis by (simp add: prod_eq_iff)
next
  case (WDelete f)
  with delete_tenant [OF assms(1,2) _ assms(3,6), of f] show ?thesis by (simp add: prod_eq_iff)
next
  case WInitialize
  with initialize_same [OF assms(1)] initialize_inv [OF assms(1)] show ?thesis by (simp add: prod_eq_iff)
qed

text \<open>Any sequence of writes by callers of other tenants leaves a tenant's chunks as they are.\<close>

lemma writes_tenant:
  assumes "inv s" and p: "dget p ''tenant_id'' = Some (PStr b)" "plain b"
    and "\<forall>(env, w)\<in>set ws. \<exists>i. vec_identity env = Inr (Some i) \<and> plain (id_tenant i) \<and> id_tenant i \<noteq> b"
  shows "inv (vec_writes vs ws s) \<and> (stored (vec_writes vs ws s) k p \<longleftrightarrow> stored s k p)"
  using assms(1,4)
proof (induction ws arbitrary: s)
  case (Cons w ws)
  obtain env x where w: "w = (env, x)" by fastforce
  with Cons.prems obtain i where "vec_identity env = Inr (Some i)" "plain (id_tenant i)" "id_tenant i \<noteq> b" by auto
  from write_tenant [OF Cons.prems(1) this(1) p(1) this(2) p(2) this(3), of x k] w Cons show ?case
    by (simp add: vec_writes_def)
qed (simp add: vec_writes_def)

end

end
