(* ===== verification/Qdrant_Store.thy ===== *)
theory Qdrant_Store
  imports Vector_Store
begin

text \<open>
  \<open>backend/vector_db/app/db/implementations/qdrant.py\<close>: validation of written chunks, the
  filters sent with searches, deletions and lookups, and the operations over the client.
  The client library and its server are an argument, a record of operations on a server
  state, with the documented behaviour that the store relies on stated as \<open>qclient_ok\<close>;
  UUID version 5 and numpy are arguments as well.
\<close>

section \<open>Filters and points\<close>

datatype qmatch = MValue pyval | MAny "pyval list"

type_synonym qcond = "string \<times> qmatch"

record qfilter =
  qf_must :: "qcond list"
  qf_must_not :: "qcond list"

record qpoint =
  qp_id :: string
  qp_dense :: "real list"
  qp_sparse :: sparse_vector
  qp_payload :: claims

record scored_point =
  sp_id :: string
  sp_score :: real
  sp_payload :: "claims option"
  sp_vector :: "real list option"

text \<open>The calls on the collection.  A query says which vector it uses by its type.\<close>

record 'q qclient =
  qc_collections :: "'q \<Rightarrow> py_exn + string list"
  qc_create_collection :: "'q \<Rightarrow> string \<Rightarrow> int \<Rightarrow> (py_exn + unit) \<times> 'q"
  qc_has_dense :: "'q \<Rightarrow> py_exn + bool"
  qc_has_sparse :: "'q \<Rightarrow> py_exn + bool"
  qc_payload_index :: "'q \<Rightarrow> string \<Rightarrow> (py_exn + unit) \<times> 'q"
  qc_upsert :: "'q \<Rightarrow> qpoint list \<Rightarrow> (py_exn + unit) \<times> 'q"
  qc_query :: "'q \<Rightarrow> real list + sparse_vector \<Rightarrow> int \<Rightarrow> qfilter \<Rightarrow> bool \<Rightarrow> bool \<Rightarrow> py_exn + scored_point list"
  qc_count :: "'q \<Rightarrow> qfilter option \<Rightarrow> py_exn + nat"
  qc_points_count :: "'q \<Rightarrow> py_exn + nat"
  qc_delete :: "'q \<Rightarrow> qfilter \<Rightarrow> (py_exn + unit) \<times> 'q"
  qc_scroll :: "'q \<Rightarrow> qfilter \<Rightarrow> string option \<Rightarrow> nat \<Rightarrow> string list \<Rightarrow> py_exn + (string \<times> claims) list \<times> string option"

record 'q qdrant =
  qd_client :: "'q qclient"
  qd_name :: string
  qd_vector_size :: int
  qd_codec :: codec
  qd_numpy :: numpy
  qd_lexis :: lexis
  qd_uuid5 :: "string \<Rightarrow> string"

section \<open>Validation of a chunk\<close>

definition require_string :: "claims \<Rightarrow> string \<Rightarrow> py_exn + string" where
  "require_string chunk key = (case claim chunk key of
     PStr s \<Rightarrow> if s = [] then Inl ValueError else Inr s | _ \<Rightarrow> Inl ValueError)"

definition normalize_embedding :: "'q qdrant \<Rightarrow> pyval \<Rightarrow> py_exn + real list" where
  "normalize_embedding Q embedding =
     bindE (np_asarray (qd_numpy Q) embedding) (\<lambda>vector.
     if int (length vector) \<noteq> qd_vector_size Q then Inl ValueError else Inr vector)"

text \<open>\<open>int(v)\<close>: a string is digits, single underscores between them, a sign and white space around.\<close>

fun int_digits :: "int \<Rightarrow> bool \<Rightarrow> string \<Rightarrow> int option" where
  "int_digits n ready [] = (if ready then Some n else None)"
| "int_digits n ready (ch # s) =
     (if 48 \<le> (of_char ch :: nat) \<and> (of_char ch :: nat) \<le> 57 then int_digits (10 * n + (of_char ch - 48)) True s
      else if ch = CHR ''_'' \<and> ready then int_digits n False s
      else None)"

definition int_of_string :: "string \<Rightarrow> py_exn + int" where
  "int_of_string s = (let t = strip s;
      r = (case t of
             ch # u \<Rightarrow> (if ch = CHR ''-'' then map_option uminus (int_digits 0 False u)
                       else if ch = CHR ''+'' then int_digits 0 False u
                       else int_digits 0 False t)
           | [] \<Rightarrow> None) in
      case r of Some n \<Rightarrow> Inr n | None \<Rightarrow> Inl ValueError)"

definition int_of_val :: "pyval \<Rightarrow> py_exn + int" where
  "int_of_val v = (case v of
     PInt i \<Rightarrow> Inr i | PBool b \<Rightarrow> Inr (if b then 1 else 0) | PFloat x \<Rightarrow> Inr (py_int x)
   | PStr s \<Rightarrow> int_of_string s | _ \<Rightarrow> Inl TypeError)"

definition ALLOWED_REVIEW_STATUSES :: "string set" where
  "ALLOWED_REVIEW_STATUSES = {''clean'', ''accepted_with_risk'', ''sanitized'', ''removed''}"

definition SAFE_REVIEW_STATUSES :: "string set" where
  "SAFE_REVIEW_STATUSES = {''clean'', ''accepted_with_risk'', ''sanitized''}"

text \<open>\<open>v in frozenset\<close> of strings; a list or a dictionary is not hashable.\<close>

definition in_names :: "pyval \<Rightarrow> string set \<Rightarrow> py_exn + bool" where
  "in_names v names = (case v of PStr s \<Rightarrow> Inr (s \<in> names) | PList _ \<Rightarrow> Inl TypeError | PDict _ \<Rightarrow> Inl TypeError | _ \<Rightarrow> Inr False)"

fun is_str :: "pyval \<Rightarrow> bool" where
  "is_str (PStr _) = True"
| "is_str _ = False"

definition text_preview_of :: "claims \<Rightarrow> string \<Rightarrow> string" where
  "text_preview_of chunk body = (case claim chunk ''text_preview'' of
     PStr s \<Rightarrow> if s = [] then take 250 body else s | _ \<Rightarrow> take 250 body)"

definition build_payload :: "claims \<Rightarrow> py_exn + claims" where
  "build_payload chunk =
     bindE (require_string chunk ''file_id'') (\<lambda>file_id.
     bindE (require_string chunk ''tenant_id'') (\<lambda>tenant_id.
     bindE (require_string chunk ''owner_user_id'') (\<lambda>owner_user_id.
     bindE (require_string chunk ''owner_admin_id'') (\<lambda>owner_admin_id.
     bindE (require_string chunk ''document_id'') (\<lambda>document_id.
     bindE (require_string chunk ''chunk_id'') (\<lambda>chunk_id.
     bindE (require_string chunk ''source_name'') (\<lambda>source_name.
     bindE (case claim chunk ''text'' of PStr s \<Rightarrow> Inr s | _ \<Rightarrow> Inl ValueError) (\<lambda>body.
     bindE (case claim chunk ''retrieval_allowed'' of PBool b \<Rightarrow> Inr b | _ \<Rightarrow> Inl ValueError) (\<lambda>retrieval_allowed.
     bindE (in_names (claim chunk ''review_status'') ALLOWED_REVIEW_STATUSES) (\<lambda>known.
     if \<not> known then Inl ValueError else
     bindE (let flags = claim chunk ''issue_flags'' in
            if \<not> truthy flags then Inr (PList [])
            else case flags of PList fs \<Rightarrow> if list_all is_str fs then Inr flags else Inl ValueError | _ \<Rightarrow> Inl ValueError) (\<lambda>issue_flags.
     bindE (require_string chunk ''created_at'') (\<lambda>created_at.
     bindE (int_of_val (dget_default chunk ''chunk_index'' (PInt 0))) (\<lambda>chunk_index.
     bindE (int_of_val (claim chunk ''chunk_version'')) (\<lambda>chunk_version.
     Inr [(''tenant_id'', PStr tenant_id), (''owner_user_id'', PStr owner_user_id),
          (''owner_admin_id'', PStr owner_admin_id), (''file_id'', PStr file_id),
          (''document_id'', PStr document_id), (''chunk_id'', PStr chunk_id),
          (''chunk_index'', PInt chunk_index), (''chunk_version'', PInt chunk_version),
          (''text'', PStr body), (''text_preview'', PStr (text_preview_of chunk body)),
          (''source_name'', PStr source_name), (''page'', claim chunk ''page''),
          (''section'', claim chunk ''section''), (''retrieval_allowed'', PBool retrieval_allowed),
          (''review_status'', claim chunk ''review_status''), (''issue_flags'', issue_flags),
          (''created_at'', PStr created_at)]))))))))))))))"

definition qd_key :: "'q qdrant \<Rightarrow> claims \<Rightarrow> string" where
  "qd_key Q p = qd_uuid5 Q (py_str (qd_codec Q) (claim p ''tenant_id'') @ '':'' @ py_str (qd_codec Q) (claim p ''chunk_id''))"

definition qd_point :: "'q qdrant \<Rightarrow> claims \<Rightarrow> py_exn + qpoint" where
  "qd_point Q chunk =
     bindE (build_payload chunk) (\<lambda>payload.
     bindE (normalize_embedding Q (dget_default chunk ''embedding'' (PList []))) (\<lambda>embedding.
     bindE (sparse_lexical_vector (lx_casefold (qd_lexis Q)) (lx_digest32 (qd_lexis Q)) MAX_SPARSE_TERMS
              (py_str (qd_codec Q) (claim payload ''text''))) (\<lambda>sparse.
     Inr \<lparr>qp_id = qd_key Q payload, qp_dense = embedding, qp_sparse = sparse, qp_payload = payload\<rparr>)))"

fun qd_points :: "'q qdrant \<Rightarrow> claims list \<Rightarrow> py_exn + qpoint list" where
  "qd_points Q [] = Inr []"
| "qd_points Q (ch # chs) = bindE (qd_point Q ch) (\<lambda>p. bindE (qd_points Q chs) (\<lambda>ps. Inr (p # ps)))"

definition qd_upsert_chunks :: "'q qdrant \<Rightarrow> 'q \<Rightarrow> claims list \<Rightarrow> (py_exn + nat) \<times> 'q" where
  "qd_upsert_chunks Q q chunks =
     (if chunks = [] then (Inr 0, q)
      else case qd_points Q chunks of
        Inl e \<Rightarrow> (Inl e, q)
      | Inr points \<Rightarrow>
          (case qc_upsert (qd_client Q) q points of
             (Inl e, q') \<Rightarrow> (Inl e, q')
           | (Inr _, q') \<Rightarrow> (Inr (length points), q')))"

section \<open>Filters\<close>

definition ALLOWED_CALLER_FILTERS :: "string set" where
  "ALLOWED_CALLER_FILTERS = {''tenant_id'', ''owner_user_id'', ''owner_admin_id'', ''file_id'', ''document_id'',
     ''chunk_version'', ''review_status'', ''page'', ''section''}"

fun safe_statuses :: "pyval list \<Rightarrow> py_exn + pyval list" where
  "safe_statuses [] = Inr []"
| "safe_statuses (v # vs) = bindE (in_names v SAFE_REVIEW_STATUSES) (\<lambda>b.
     bindE (safe_statuses vs) (\<lambda>ws. Inr (if b then v # ws else ws)))"

definition normalize_match_value :: "string \<Rightarrow> pyval \<Rightarrow> py_exn + qmatch option" where
  "normalize_match_value key v =
     (if v = PNone then Inr None
      else if key = ''review_status'' then
        (case v of
           PList vs \<Rightarrow> bindE (safe_statuses vs) (\<lambda>safe. Inr (if safe \<noteq> [] then Some (MAny safe) else None))
         | _ \<Rightarrow> bindE (in_names v SAFE_REVIEW_STATUSES) (\<lambda>b. Inr (if b then Some (MValue v) else None)))
      else
        (case v of
           PList vs \<Rightarrow> (let filtered = filter (\<lambda>w. w \<noteq> PNone) vs in
             Inr (if filtered \<noteq> [] then Some (MAny filtered) else None))
         | _ \<Rightarrow> Inr (Some (MValue v))))"

fun caller_conditions :: "claims \<Rightarrow> py_exn + qcond list" where
  "caller_conditions [] = Inr []"
| "caller_conditions ((key, v) # filters) =
     (if key \<notin> ALLOWED_CALLER_FILTERS then caller_conditions filters
      else bindE (normalize_match_value key v) (\<lambda>m.
        bindE (caller_conditions filters) (\<lambda>cs.
        Inr (case m of None \<Rightarrow> cs | Some m \<Rightarrow> (key, m) # cs))))"

definition build_search_filter :: "claims \<Rightarrow> py_exn + qfilter" where
  "build_search_filter filters =
     bindE (caller_conditions filters) (\<lambda>cs.
     Inr \<lparr>qf_must = (''retrieval_allowed'', MValue (PBool True)) # cs,
          qf_must_not = [(''review_status'', MValue (PStr ''removed''))]\<rparr>)"

definition build_delete_filter :: "claims \<Rightarrow> py_exn + qfilter" where
  "build_delete_filter filters =
     (let cond = (\<lambda>field. if truthy (claim filters field) then [(field, MValue (claim filters field))] else []) in
      if \<not> truthy (claim filters ''file_id'') \<and> \<not> truthy (claim filters ''document_id'') then Inl ValueError
      else Inr \<lparr>qf_must = cond ''file_id'' @ cond ''document_id'' @ cond ''tenant_id'' @ cond ''owner_user_id''
                  @ cond ''owner_admin_id'', qf_must_not = []\<rparr>)"

section \<open>Operations\<close>

definition qd_hit :: "bool \<Rightarrow> bool \<Rightarrow> scored_point \<Rightarrow> hit" where
  "qd_hit include_payload include_vector r =
     \<lparr>h_id = sp_id r, h_score = sp_score r,
      h_payload = (if include_payload then Some (case sp_payload r of Some p \<Rightarrow> p | None \<Rightarrow> []) else None),
      h_vector = (if include_vector then sp_vector r else None)\<rparr>"

definition qd_search_chunks ::
  "'q qdrant \<Rightarrow> 'q \<Rightarrow> real list \<Rightarrow> int \<Rightarrow> claims \<Rightarrow> bool \<Rightarrow> bool \<Rightarrow> py_exn + hit list" where
  "qd_search_chunks Q q query top_k filters include_payload include_vector =
     (if int (length query) \<noteq> qd_vector_size Q then Inl ValueError
      else
        bindE (build_search_filter filters) (\<lambda>f.
        bindE (qc_query (qd_client Q) q (Inl query) top_k f include_payload include_vector) (\<lambda>rs.
        Inr (map (qd_hit include_payload include_vector) rs))))"

definition qd_search_sparse ::
  "'q qdrant \<Rightarrow> 'q \<Rightarrow> sparse_vector \<Rightarrow> int \<Rightarrow> claims \<Rightarrow> bool \<Rightarrow> py_exn + hit list" where
  "qd_search_sparse Q q query top_k filters include_payload =
     (if sv_indices query = [] then Inr []
      else if length (sv_indices query) \<noteq> length (sv_values query) then Inl ValueError
      else
        bindE (build_search_filter filters) (\<lambda>f.
        bindE (qc_query (qd_client Q) q (Inr query) top_k f include_payload False) (\<lambda>rs.
        Inr (map (qd_hit include_payload False) rs))))"

definition qd_delete_chunks :: "'q qdrant \<Rightarrow> 'q \<Rightarrow> claims \<Rightarrow> (py_exn + nat) \<times> 'q" where
  "qd_delete_chunks Q q filters =
     (case bindE (build_delete_filter filters) (\<lambda>f. bindE (qc_count (qd_client Q) q (Some f)) (\<lambda>n. Inr (f, n))) of
        Inl e \<Rightarrow> (Inl e, q)
      | Inr (f, n) \<Rightarrow>
          if n = 0 then (Inr 0, q)
          else (case qc_delete (qd_client Q) q f of
                  (Inl e, q') \<Rightarrow> (Inl e, q')
                | (Inr _, q') \<Rightarrow> (Inr n, q')))"

definition lookup_conditions :: "string \<Rightarrow> string list \<Rightarrow> claims \<Rightarrow> qcond list" where
  "lookup_conditions field wanted filters =
     (field, MAny (map PStr (sort wanted)))
     # map (\<lambda>(k, v). (k, MValue v)) (filter (\<lambda>(k, v). k \<in> ALLOWED_CALLER_FILTERS \<and> v \<noteq> PNone) filters)"

text \<open>One page: the names it adds to \<open>present\<close> and to \<open>retrievable\<close>.\<close>

definition page_names :: "codec \<Rightarrow> string \<Rightarrow> string list \<Rightarrow> (string \<times> claims) list \<Rightarrow> string list \<times> string list" where
  "page_names c field wanted records =
     (let found = filter (\<lambda>p. claim p field \<noteq> PNone \<and> py_str c (claim p field) \<in> set wanted) (map snd records);
          name = (\<lambda>p. py_str c (claim p field)) in
      (map name found, map name (filter retrievable found)))"

partial_function (option) qd_scroll ::
  "'q qdrant \<Rightarrow> 'q \<Rightarrow> qfilter \<Rightarrow> string \<Rightarrow> string list \<Rightarrow> string option \<Rightarrow> string list \<Rightarrow> string list
   \<Rightarrow> (py_exn + string list \<times> string list) option" where
  "qd_scroll Q q f field wanted offset present retr =
     (case qc_scroll (qd_client Q) q f offset 256 [field, ''retrieval_allowed'', ''review_status''] of
        Inl e \<Rightarrow> Some (Inl e)
      | Inr (records, next_offset) \<Rightarrow>
          (case next_offset of
             None \<Rightarrow> Some (Inr (present @ fst (page_names (qd_codec Q) field wanted records),
                              retr @ snd (page_names (qd_codec Q) field wanted records)))
           | Some off \<Rightarrow> qd_scroll Q q f field wanted (Some off)
               (present @ fst (page_names (qd_codec Q) field wanted records))
               (retr @ snd (page_names (qd_codec Q) field wanted records))))"

definition qd_lookup_ids ::
  "'q qdrant \<Rightarrow> 'q \<Rightarrow> string \<Rightarrow> string list \<Rightarrow> claims \<Rightarrow> (py_exn + string list \<times> string list) option" where
  "qd_lookup_ids Q q field values filters =
     (case verify_targets field values of
        Inl e \<Rightarrow> Some (Inl e)
      | Inr wanted \<Rightarrow>
          if wanted = [] then Some (Inr ([], []))
          else
            map_option (\<lambda>r. bindE r (\<lambda>(present, retr). Inr (sort (remdups present), sort (remdups retr))))
              (qd_scroll Q q \<lparr>qf_must = lookup_conditions field wanted filters, qf_must_not = []\<rparr> field wanted None [] []))"

definition qd_count :: "'q qdrant \<Rightarrow> 'q \<Rightarrow> py_exn + nat" where
  "qd_count Q q = (case qc_count (qd_client Q) q None of
     Inr n \<Rightarrow> Inr n
   | Inl e \<Rightarrow> (case qc_points_count (qd_client Q) q of Inr n \<Rightarrow> Inr n | Inl _ \<Rightarrow> Inl e))"

definition INDEXED_FIELDS :: "string list" where
  "INDEXED_FIELDS = [''tenant_id'', ''owner_user_id'', ''owner_admin_id'', ''file_id'', ''document_id'', ''chunk_id'',
     ''chunk_version'', ''retrieval_allowed'', ''review_status'']"

fun ensure_payload_indexes :: "'q qdrant \<Rightarrow> string list \<Rightarrow> 'q \<Rightarrow> (py_exn + unit) \<times> 'q" where
  "ensure_payload_indexes Q [] q = (Inr (), q)"
| "ensure_payload_indexes Q (field # rest) q =
     (case qc_payload_index (qd_client Q) q field of
        (Inl e, q') \<Rightarrow> (Inl e, q')
      | (Inr _, q') \<Rightarrow> ensure_payload_indexes Q rest q')"

definition qd_ready :: "'q qdrant \<Rightarrow> 'q \<Rightarrow> (py_exn + unit) \<times> 'q" where
  "qd_ready Q q =
     (case qc_collections (qd_client Q) q of
        Inl e \<Rightarrow> (Inl e, q)
      | Inr existing \<Rightarrow>
          if qd_name Q \<notin> set existing then qc_create_collection (qd_client Q) q (qd_name Q) (qd_vector_size Q)
          else
            (bindE (qc_has_dense (qd_client Q) q) (\<lambda>d.
             bindE (qc_has_sparse (qd_client Q) q) (\<lambda>s.
             if d \<and> s then Inr () else Inl RuntimeError)), q))"

definition qd_initialize_collection :: "'q qdrant \<Rightarrow> 'q \<Rightarrow> (py_exn + string) \<times> 'q" where
  "qd_initialize_collection Q q =
     (case qd_ready Q q of
        (Inl e, q1) \<Rightarrow> (Inl e, q1)
      | (Inr _, q1) \<Rightarrow>
          (case ensure_payload_indexes Q INDEXED_FIELDS q1 of
             (Inl e, q2) \<Rightarrow> (Inl e, q2)
           | (Inr _, q2) \<Rightarrow> (Inr (qd_name Q), q2)))"

definition qd_vstore :: "'q qdrant \<Rightarrow> 'q vstore" where
  "qd_vstore Q =
     \<lparr>vs_collection = qd_name Q, vs_initialize = qd_initialize_collection Q, vs_upsert = qd_upsert_chunks Q,
      vs_search = qd_search_chunks Q, vs_sparse = qd_search_sparse Q, vs_delete = qd_delete_chunks Q,
      vs_lookup = qd_lookup_ids Q, vs_count = qd_count Q\<rparr>"

section \<open>The documented behaviour of the server\<close>

text \<open>
  \<open>pts q\<close> is the payload of every point, \<open>m p cond\<close> whether a payload meets a condition.
  A condition on a value holds of a scalar field exactly when the field has that value; a
  query returns points that meet the filter, with their payload when it is asked for; an
  upsert or a deletion that fails may have been carried out in part; a page of a scroll
  holds points that meet the filter with the requested fields; creating a collection that
  does not exist or a payload index does not change points.
\<close>

fun scalar :: "pyval \<Rightarrow> bool" where
  "scalar (PStr _) = True"
| "scalar (PBool _) = True"
| "scalar (PInt _) = True"
| "scalar _ = False"

definition meets :: "(claims \<Rightarrow> qcond \<Rightarrow> bool) \<Rightarrow> qfilter \<Rightarrow> claims \<Rightarrow> bool" where
  "meets m f p \<longleftrightarrow> list_all (m p) (qf_must f) \<and> \<not> list_ex (m p) (qf_must_not f)"

definition match_ok :: "(claims \<Rightarrow> qcond \<Rightarrow> bool) \<Rightarrow> bool" where
  "match_ok m \<longleftrightarrow> (\<forall>p k v w. dget p k = Some w \<longrightarrow> scalar w \<longrightarrow> (m p (k, MValue v) \<longleftrightarrow> w = v))"

definition query_ok :: "'q qclient \<Rightarrow> ('q \<Rightarrow> string \<Rightarrow> claims option) \<Rightarrow> (claims \<Rightarrow> qcond \<Rightarrow> bool) \<Rightarrow> bool" where
  "query_ok C pts m \<longleftrightarrow> (\<forall>q x n f wp wv rs r. qc_query C q x n f wp wv = Inr rs \<longrightarrow> r \<in> set rs \<longrightarrow>
     (\<exists>p. pts q (sp_id r) = Some p \<and> meets m f p \<and> (wp \<longrightarrow> sp_payload r = Some p)))"

definition upsert_ok :: "'q qclient \<Rightarrow> ('q \<Rightarrow> string \<Rightarrow> claims option) \<Rightarrow> bool" where
  "upsert_ok C pts \<longleftrightarrow> (\<forall>q ps r q' k. qc_upsert C q ps = (r, q') \<longrightarrow>
     pts q' k = pts q k \<or> (\<exists>p\<in>set ps. qp_id p = k \<and> pts q' k = Some (qp_payload p)))"

definition delete_ok :: "'q qclient \<Rightarrow> ('q \<Rightarrow> string \<Rightarrow> claims option) \<Rightarrow> (claims \<Rightarrow> qcond \<Rightarrow> bool) \<Rightarrow> bool" where
  "delete_ok C pts m \<longleftrightarrow> (\<forall>q f r q' k. qc_delete C q f = (r, q') \<longrightarrow>
     pts q' k = pts q k \<or> pts q' k = None \<and> (\<exists>p. pts q k = Some p \<and> meets m f p))"

definition scroll_ok :: "'q qclient \<Rightarrow> ('q \<Rightarrow> string \<Rightarrow> claims option) \<Rightarrow> (claims \<Rightarrow> qcond \<Rightarrow> bool) \<Rightarrow> bool" where
  "scroll_ok C pts m \<longleftrightarrow> (\<forall>q f off n fields records next k pl.
     qc_scroll C q f off n fields = Inr (records, next) \<longrightarrow> (k, pl) \<in> set records \<longrightarrow>
     (\<exists>p. pts q k = Some p \<and> meets m f p \<and> (\<forall>x\<in>set fields. claim pl x = claim p x)))"

definition schema_ok :: "'q qclient \<Rightarrow> ('q \<Rightarrow> string \<Rightarrow> claims option) \<Rightarrow> bool" where
  "schema_ok C pts \<longleftrightarrow> (\<forall>q n d r q' names. qc_collections C q = Inr names \<longrightarrow> n \<notin> set names \<longrightarrow>
       qc_create_collection C q n d = (r, q') \<longrightarrow> pts q' = pts q)
     \<and> (\<forall>q x r q'. qc_payload_index C q x = (r, q') \<longrightarrow> pts q' = pts q)"

definition qclient_ok :: "'q qclient \<Rightarrow> ('q \<Rightarrow> string \<Rightarrow> claims option) \<Rightarrow> (claims \<Rightarrow> qcond \<Rightarrow> bool) \<Rightarrow> bool" where
  "qclient_ok C pts m \<longleftrightarrow> match_ok m \<and> query_ok C pts m \<and> upsert_ok C pts \<and> delete_ok C pts m \<and> scroll_ok C pts m
     \<and> schema_ok C pts"

section \<open>The Qdrant store keeps the promises\<close>

definition qd_stored :: "('q \<Rightarrow> string \<Rightarrow> claims option) \<Rightarrow> 'q \<Rightarrow> string \<Rightarrow> claims \<Rightarrow> bool" where
  "qd_stored pts q k p \<longleftrightarrow> pts q k = Some p"

text \<open>Every point was written by the store: its fields have the types that validation asks for.\<close>

definition qd_payload_ok :: "claims \<Rightarrow> bool" where
  "qd_payload_ok p \<longleftrightarrow> (\<forall>k\<in>set SCOPE_FIELDS. \<exists>s. dget p k = Some (PStr s))
     \<and> (\<exists>b. dget p ''retrieval_allowed'' = Some (PBool b)) \<and> (\<exists>s. dget p ''review_status'' = Some (PStr s))"

definition qd_inv :: "'q qdrant \<Rightarrow> ('q \<Rightarrow> string \<Rightarrow> claims option) \<Rightarrow> 'q \<Rightarrow> bool" where
  "qd_inv Q pts q \<longleftrightarrow> (\<forall>k p. pts q k = Some p \<longrightarrow> k = qd_key Q p \<and> qd_payload_ok p)"

lemma require_string_Inr: "require_string ch k = Inr s \<longleftrightarrow> claim ch k = PStr s \<and> s \<noteq> []"
  by (auto simp: require_string_def split: pyval.splits if_splits)

lemma claim_PStr: "claim p k = PStr s \<longleftrightarrow> dget p k = Some (PStr s)"
  by (auto simp: claim_def split: option.splits)

lemma in_names_True: "in_names v N = Inr b \<Longrightarrow> b \<Longrightarrow> \<exists>s\<in>N. v = PStr s"
  by (auto simp: in_names_def split: pyval.splits)

lemma build_payload_fields:
  assumes "build_payload ch = Inr p"
  shows "\<exists>tn ou oa ci b s. claim ch ''tenant_id'' = PStr tn \<and> claim ch ''owner_user_id'' = PStr ou
    \<and> claim ch ''owner_admin_id'' = PStr oa \<and> claim ch ''chunk_id'' = PStr ci
    \<and> dget p ''tenant_id'' = Some (PStr tn) \<and> dget p ''owner_user_id'' = Some (PStr ou)
    \<and> dget p ''owner_admin_id'' = Some (PStr oa) \<and> dget p ''chunk_id'' = Some (PStr ci)
    \<and> dget p ''retrieval_allowed'' = Some (PBool b) \<and> dget p ''review_status'' = Some (PStr s)"
  using assms unfolding build_payload_def bindE_Inr require_string_Inr
  by (auto simp: bindE_Inr require_string_Inr split: if_splits dest!: in_names_True)

lemma build_payload_shape:
  assumes "build_payload ch = Inr p"
  shows "qd_payload_ok p" "same_scope ch p" "claim p ''chunk_id'' = claim ch ''chunk_id''"
    "claim p ''tenant_id'' = claim ch ''tenant_id''"
  using build_payload_fields [OF assms]
  by (auto simp: qd_payload_ok_def same_scope_def SCOPE_FIELDS_def claim_PStr) (auto simp: claim_def)

lemma qd_points_payload:
  "qd_points Q chs = Inr ps \<Longrightarrow> p \<in> set ps \<Longrightarrow>
     \<exists>ch\<in>set chs. build_payload ch = Inr (qp_payload p) \<and> qp_id p = qd_key Q ch \<and> qp_id p = qd_key Q (qp_payload p)"
  by (induction chs arbitrary: ps)
    (auto simp: bindE_Inr qd_point_def qd_key_def build_payload_shape(3,4))

lemma qd_upsert_pts:
  assumes ok: "upsert_ok (qd_client Q) pts" and u: "qd_upsert_chunks Q q chs = (r, q')"
  shows "pts q' k = pts q k \<or> (\<exists>ch\<in>set chs. \<exists>p. pts q' k = Some p \<and> build_payload ch = Inr p \<and> k = qd_key Q ch \<and> k = qd_key Q p)"
proof -
  consider "q' = q" | ps r' where "qd_points Q chs = Inr ps" "qc_upsert (qd_client Q) q ps = (r', q')"
    using u by (auto simp: qd_upsert_chunks_def split: if_splits sum.splits prod.splits)
  then show ?thesis
  proof cases
    case 2
    from ok 2(2) have "pts q' k = pts q k \<or> (\<exists>p\<in>set ps. qp_id p = k \<and> pts q' k = Some (qp_payload p))"
      unfolding upsert_ok_def by blast
    with qd_points_payload [OF 2(1)] show ?thesis by metis
  qed simp
qed

lemma qd_upsert_inv:
  assumes "upsert_ok (qd_client Q) pts" "qd_upsert_chunks Q q chs = (r, q')" "qd_inv Q pts q"
  shows "qd_inv Q pts q'"
  unfolding qd_inv_def
proof (intro allI impI)
  fix k p assume p: "pts q' k = Some p"
  from qd_upsert_pts [OF assms(1,2), of k] p consider "pts q k = Some p"
    | ch where "build_payload ch = Inr p" "k = qd_key Q p" by auto
  then show "k = qd_key Q p \<and> qd_payload_ok p"
    using assms(3) build_payload_shape(1) by cases (auto simp: qd_inv_def)
qed

lemma qd_upsert_stored:
  assumes "upsert_ok (qd_client Q) pts" "qd_upsert_chunks Q q chs = (r, q')" "qd_stored pts q' k p"
  shows "qd_stored pts q k p \<or> (\<exists>ch\<in>set chs. k = qd_key Q ch \<and> same_scope ch p)"
proof -
  from qd_upsert_pts [OF assms(1,2), of k] assms(3) consider "pts q k = Some p"
    | ch where "ch \<in> set chs" "build_payload ch = Inr p" "k = qd_key Q ch" by (auto simp: qd_stored_def)
  then show ?thesis using build_payload_shape(2) by cases (auto simp: qd_stored_def)
qed

lemma scope_field_match:
  "k \<in> set SCOPE_FIELDS \<Longrightarrow> k \<in> ALLOWED_CALLER_FILTERS \<and> normalize_match_value k (PStr s) = Inr (Some (MValue (PStr s)))"
  by (auto simp: SCOPE_FIELDS_def ALLOWED_CALLER_FILTERS_def normalize_match_value_def)

lemma caller_condition:
  assumes "k \<in> set SCOPE_FIELDS"
  shows "caller_conditions f = Inr cs \<Longrightarrow> (k, PStr s) \<in> set f \<Longrightarrow> (k, MValue (PStr s)) \<in> set cs"
proof (induction f arbitrary: cs)
  case (Cons x f)
  obtain key v where x: "x = (key, v)" by fastforce
  show ?case
  proof (cases "x = (k, PStr s)")
    case True
    with Cons.prems scope_field_match [OF assms, of s] show ?thesis by (auto simp: bindE_Inr)
  next
    case False
    with Cons.prems have m: "(k, PStr s) \<in> set f" by auto
    show ?thesis
    proof (cases "key \<in> ALLOWED_CALLER_FILTERS")
      case True
      then have "\<exists>cs'. caller_conditions f = Inr cs' \<and> set cs' \<subseteq> set cs"
        using Cons.prems(1) unfolding x caller_conditions.simps by (auto simp: bindE_Inr split: option.splits)
      with Cons.IH m show ?thesis by blast
    qed (use Cons m x in auto)
  qed
qed simp

text \<open>A condition on a scope field, met by a point that the store wrote.\<close>

lemma met_in_scope:
  assumes "match_ok m" "qd_payload_ok p"
    and "\<And>k s. k \<in> set SCOPE_FIELDS \<Longrightarrow> dget f k = Some (PStr s) \<Longrightarrow> s \<noteq> [] \<Longrightarrow> m p (k, MValue (PStr s))"
  shows "in_scope f p"
proof -
  have "s = [] \<or> dget p k = Some (PStr s)" if k: "k \<in> set SCOPE_FIELDS" "dget f k = Some (PStr s)" for k s
  proof -
    obtain s' where "dget p k = Some (PStr s')" using assms(2) k(1) by (auto simp: qd_payload_ok_def)
    with assms(1) assms(3) [OF k] show ?thesis by (auto simp: match_ok_def)
  qed
  then show ?thesis by (auto simp: in_scope_def list_all_iff split: option.split pyval.split)
qed

lemma search_filter_met:
  assumes "match_ok m" "build_search_filter f = Inr g" "meets m g p" "qd_payload_ok p"
  shows "retrievable p \<and> in_scope f p"
proof
  obtain cs where cs: "caller_conditions f = Inr cs"
    and g: "g = \<lparr>qf_must = (''retrieval_allowed'', MValue (PBool True)) # cs, qf_must_not = [(''review_status'', MValue (PStr ''removed''))]\<rparr>"
    using assms(2) by (auto simp: build_search_filter_def bindE_Inr)
  obtain b s where b: "dget p ''retrieval_allowed'' = Some (PBool b)" "dget p ''review_status'' = Some (PStr s)"
    using assms(4) by (auto simp: qd_payload_ok_def)
  have m: "m p (''retrieval_allowed'', MValue (PBool True))" "\<not> m p (''review_status'', MValue (PStr ''removed''))"
    "\<forall>x\<in>set cs. m p x" using assms(3) g by (auto simp: meets_def list_all_iff)
  with b assms(1) have "b" "s \<noteq> ''removed''" by (auto simp: match_ok_def)
  with b show "retrievable p" by (simp add: retrievable_def claim_def)
  show "in_scope f p"
  proof (rule met_in_scope [OF assms(1,4)])
    fix k s assume k: "k \<in> set SCOPE_FIELDS" and "dget f k = Some (PStr s)"
    then have "(k, PStr s) \<in> set f" by (simp add: map_of_SomeD)
    from bspec [OF m(3) caller_condition [OF k cs this]] show "m p (k, MValue (PStr s))" .
  qed
qed

lemma delete_filter_must:
  assumes "build_delete_filter f = Inr g"
  shows "qf_must g = concat (map (\<lambda>k. if truthy (claim f k) then [(k, MValue (claim f k))] else [])
    [''file_id'', ''document_id'', ''tenant_id'', ''owner_user_id'', ''owner_admin_id''])"
proof (cases "\<not> truthy (claim f ''file_id'') \<and> \<not> truthy (claim f ''document_id'')")
  case False
  with assms have "g = \<lparr>qf_must = concat (map (\<lambda>k. if truthy (claim f k) then [(k, MValue (claim f k))] else [])
      [''file_id'', ''document_id'', ''tenant_id'', ''owner_user_id'', ''owner_admin_id'']), qf_must_not = []\<rparr>"
    unfolding build_delete_filter_def Let_def if_not_P [OF False] by (simp only: sum.inject list.map concat.simps append_Nil2)
  then show ?thesis by simp
qed (use assms in \<open>simp add: build_delete_filter_def Let_def\<close>)

lemma delete_filter_met:
  assumes "match_ok m" "build_delete_filter f = Inr g" "meets m g p" "qd_payload_ok p"
  shows "in_scope f p"
proof (rule met_in_scope [OF assms(1,4)])
  fix k s assume k: "k \<in> set SCOPE_FIELDS" "dget f k = Some (PStr s)" "s \<noteq> []"
  then have "(k, MValue (PStr s)) \<in> set (if truthy (claim f k) then [(k, MValue (claim f k))] else [])"
    by (simp add: claim_def)
  moreover have "k \<in> set [''file_id'', ''document_id'', ''tenant_id'', ''owner_user_id'', ''owner_admin_id'']"
    using k(1) by (auto simp: SCOPE_FIELDS_def)
  ultimately have "(k, MValue (PStr s)) \<in> set (qf_must g)"
    unfolding delete_filter_must [OF assms(2)] set_concat set_map by blast
  with assms(3) show "m p (k, MValue (PStr s))" by (simp add: meets_def list_all_iff)
qed

lemma lookup_filter_met:
  assumes "match_ok m" "meets m \<lparr>qf_must = lookup_conditions field wanted f, qf_must_not = []\<rparr> p" "qd_payload_ok p"
  shows "in_scope f p"
proof (rule met_in_scope [OF assms(1,3)])
  fix k s assume k: "k \<in> set SCOPE_FIELDS" "dget f k = Some (PStr s)"
  then have "(k, PStr s) \<in> set f" "k \<in> ALLOWED_CALLER_FILTERS"
    by (auto simp: map_of_SomeD SCOPE_FIELDS_def ALLOWED_CALLER_FILTERS_def)
  then have "(k, MValue (PStr s)) \<in> set (lookup_conditions field wanted f)"
    unfolding lookup_conditions_def by (auto intro!: image_eqI [of _ _ "(k, PStr s)"])
  with assms(2) show "m p (k, MValue (PStr s))" by (auto simp: meets_def list_all_iff)
qed

lemma qd_hits:
  assumes ok: "qclient_ok (qd_client Q) pts m" and inv: "qd_inv Q pts q"
    and f: "build_search_filter f = Inr g" and r: "qc_query (qd_client Q) q x n g ip iv = Inr rs" and h: "h \<in> set (map (qd_hit ip iv) rs)"
  shows "\<exists>p. qd_stored pts q (h_id h) p \<and> retrievable p \<and> in_scope f p \<and> h_payload h = (if ip then Some p else None)"
proof -
  obtain r where h: "h = qd_hit ip iv r" and "r \<in> set rs" using h by auto
  with ok r obtain p where p: "pts q (sp_id r) = Some p" "meets m g p" "ip \<longrightarrow> sp_payload r = Some p"
    unfolding qclient_ok_def query_ok_def by blast
  with inv have "qd_payload_ok p" by (auto simp: qd_inv_def)
  with ok f p search_filter_met [of m f g p] have "retrievable p \<and> in_scope f p" by (auto simp: qclient_ok_def)
  with p h show ?thesis by (auto simp: qd_stored_def qd_hit_def)
qed

lemma qd_search_hits:
  assumes "qclient_ok (qd_client Q) pts m" "qd_inv Q pts s" "qd_search_chunks Q s q k f ip iv = Inr hits" "h \<in> set hits"
  shows "\<exists>p. qd_stored pts s (h_id h) p \<and> retrievable p \<and> in_scope f p \<and> h_payload h = (if ip then Some p else None)"
proof -
  obtain g rs where "build_search_filter f = Inr g" "qc_query (qd_client Q) s (Inl q) k g ip iv = Inr rs"
    and "hits = map (qd_hit ip iv) rs"
    using assms(3) by (auto simp: qd_search_chunks_def bindE_Inr split: if_split_asm)
  from qd_hits [OF assms(1,2) this(1,2) assms(4) [unfolded this(3)]] show ?thesis .
qed

lemma qd_sparse_hits:
  assumes "qclient_ok (qd_client Q) pts m" "qd_inv Q pts s" "qd_search_sparse Q s q k f ip = Inr hits" "h \<in> set hits"
  shows "\<exists>p. qd_stored pts s (h_id h) p \<and> retrievable p \<and> in_scope f p \<and> h_payload h = (if ip then Some p else None)"
proof -
  obtain g rs where "build_search_filter f = Inr g" "qc_query (qd_client Q) s (Inr q) k g ip False = Inr rs"
    and "hits = map (qd_hit ip False) rs"
    using assms(3,4) by (auto simp: qd_search_sparse_def bindE_Inr split: if_split_asm)
  from qd_hits [OF assms(1,2) this(1,2) assms(4) [unfolded this(3)]] show ?thesis .
qed

lemma page_names_safe:
  assumes "scroll_ok C pts m" "qc_scroll C q f off n [field, ''retrieval_allowed'', ''review_status''] = Inr (records, next)"
  shows "(\<forall>v\<in>set (fst (page_names c field wanted records)). v \<in> set wanted \<and>
      (\<exists>k p. pts q k = Some p \<and> meets m f p \<and> py_str c (claim p field) = v))
    \<and> (\<forall>v\<in>set (snd (page_names c field wanted records)). v \<in> set wanted \<and>
      (\<exists>k p. pts q k = Some p \<and> meets m f p \<and> retrievable p \<and> py_str c (claim p field) = v))"
proof -
  have rec: "\<exists>k p. pts q k = Some p \<and> meets m f p \<and> claim p field = claim pl field \<and> (retrievable pl \<longrightarrow> retrievable p)"
    if pl: "pl \<in> set (map snd records)" for pl
  proof -
    obtain x where "x \<in> set records" "pl = snd x" using pl by auto
    then have "(fst x, pl) \<in> set records" by simp
    with assms obtain p where "pts q (fst x) = Some p" "meets m f p"
      "\<forall>x\<in>set [field, ''retrieval_allowed'', ''review_status'']. claim pl x = claim p x" unfolding scroll_ok_def by blast
    then show ?thesis by (auto simp: retrievable_def)
  qed
  show ?thesis
  proof (intro conjI ballI)
    fix v assume "v \<in> set (fst (page_names c field wanted records))"
    then obtain pl where pl: "pl \<in> set (map snd records)" "v = py_str c (claim pl field)" "v \<in> set wanted"
      by (auto simp: page_names_def Let_def)
    from pl(2,3) rec [OF pl(1)]
    show "v \<in> set wanted" "\<exists>k p. pts q k = Some p \<and> meets m f p \<and> py_str c (claim p field) = v" by metis+
  next
    fix v assume "v \<in> set (snd (page_names c field wanted records))"
    then obtain pl where pl: "pl \<in> set (map snd records)" "v = py_str c (claim pl field)" "v \<in> set wanted" "retrievable pl"
      by (auto simp: page_names_def Let_def)
    from pl(2-4) rec [OF pl(1)]
    show "v \<in> set wanted" "\<exists>k p. pts q k = Some p \<and> meets m f p \<and> retrievable p \<and> py_str c (claim p field) = v" by metis+
  qed
qed

lemma qd_scroll_safe:
  assumes ok: "scroll_ok (qd_client Q) pts m" and run: "qd_scroll Q q f field wanted off [] [] = Some (Inr (pr, rt))"
  shows "(\<forall>v\<in>set pr. v \<in> set wanted \<and> (\<exists>k p. pts q k = Some p \<and> meets m f p \<and> py_str (qd_codec Q) (claim p field) = v))
    \<and> (\<forall>v\<in>set rt. v \<in> set wanted \<and> (\<exists>k p. pts q k = Some p \<and> meets m f p \<and> retrievable p \<and> py_str (qd_codec Q) (claim p field) = v))"
proof -
  define G where "G = {v. v \<in> set wanted \<and> (\<exists>k p. pts q k = Some p \<and> meets m f p \<and> py_str (qd_codec Q) (claim p field) = v)}"
  define H where "H = {v. v \<in> set wanted \<and> (\<exists>k p. pts q k = Some p \<and> meets m f p \<and> retrievable p \<and> py_str (qd_codec Q) (claim p field) = v)}"
  let ?N = "page_names (qd_codec Q) field wanted"
  have page: "set (fst (?N records)) \<subseteq> G" "set (snd (?N records)) \<subseteq> H"
    if "qc_scroll (qd_client Q) q f off' 256 [field, ''retrieval_allowed'', ''review_status''] = Inr (records, nx)" for off' records nx
    using page_names_safe [OF ok that, of "qd_codec Q" wanted] unfolding G_def H_def by blast+
  let ?P = "\<lambda>Q' q' f' field' wanted' (off' :: string option) pr0 rt0 (r :: py_exn + string list \<times> string list). Q' = Q \<and> q' = q \<and> f' = f \<and> field' = field \<and> wanted' = wanted \<longrightarrow>
    (\<forall>pr rt. r = Inr (pr, rt) \<longrightarrow> set pr \<subseteq> set pr0 \<union> G \<and> set rt \<subseteq> set rt0 \<union> H)"
  have "?P Q q f field wanted off [] [] (Inr (pr, rt))"
  proof (rule qd_scroll.raw_induct [where P = ?P, OF _ run], intro impI allI, elim conjE, goal_cases)
    case (1 scroll Q' q' f' field' wanted' off' pr0 rt0 r pr rt)
    note IH = 1(1) and b = 1(2) and r = 1(3) and e = 1(4-8)
    from b e r obtain records nx where s: "qc_scroll (qd_client Q) q f off' 256 [field, ''retrieval_allowed'', ''review_status''] = Inr (records, nx)"
      by (cases "qc_scroll (qd_client Q) q f off' 256 [field, ''retrieval_allowed'', ''review_status'']") auto
    show ?case
    proof (cases nx)
      case None
      with b e r s page [OF s] show ?thesis by auto
    next
      case (Some o')
      with b e s have "scroll Q q f field wanted (Some o') (pr0 @ fst (?N records)) (rt0 @ snd (?N records)) = Some r" by simp
      from IH [OF this] r page [OF s] show ?thesis by auto
    qed
  qed
  then show ?thesis unfolding G_def H_def by auto
qed

text \<open>The scroll loop ends when the offsets of its pages do.\<close>

definition pages_end :: "'q qclient \<Rightarrow> 'q \<Rightarrow> (string option \<Rightarrow> nat) \<Rightarrow> bool" where
  "pages_end C q rank \<longleftrightarrow> (\<forall>f off n fields records off'.
     qc_scroll C q f off n fields = Inr (records, Some off') \<longrightarrow> rank (Some off') < rank off)"

lemma qd_scroll_returns:
  assumes "pages_end (qd_client Q) q rank"
  shows "\<exists>r. qd_scroll Q q f field wanted off pr rt = Some r"
proof (induction "rank off" arbitrary: off pr rt rule: less_induct)
  case less
  let ?s = "qc_scroll (qd_client Q) q f off 256 [field, ''retrieval_allowed'', ''review_status'']"
  show ?case
  proof (cases ?s)
    case (Inr x)
    obtain records nx where x: "x = (records, nx)" by fastforce
    show ?thesis
    proof (cases nx)
      case (Some o')
      then have "rank (Some o') < rank off" using Inr x assms unfolding pages_end_def by blast
      from less [OF this] show ?thesis by (subst qd_scroll.simps) (simp add: Inr x Some)
    qed (subst qd_scroll.simps, simp add: Inr x)
  qed (subst qd_scroll.simps, simp)
qed

lemma qd_lookup_returns:
  assumes "pages_end (qd_client Q) q rank"
  shows "\<exists>r. qd_lookup_ids Q q field vals f = Some r"
  using qd_scroll_returns [OF assms] unfolding qd_lookup_ids_def by (auto split: sum.split)

lemma ensure_indexes_pts:
  assumes "schema_ok (qd_client Q) pts"
  shows "ensure_payload_indexes Q xs q = (r, q') \<Longrightarrow> pts q' = pts q"
proof (induction xs arbitrary: q)
  case (Cons x xs)
  obtain r1 q1 where i: "qc_payload_index (qd_client Q) q x = (r1, q1)" by fastforce
  with assms have "pts q1 = pts q" unfolding schema_ok_def by blast
  with Cons i show ?case by (auto split: sum.splits)
qed simp

lemma qd_initialize_pts:
  assumes ok: "schema_ok (qd_client Q) pts" and i: "qd_initialize_collection Q q = (r, q')"
  shows "pts q' = pts q"
proof -
  obtain r1 q1 where r: "qd_ready Q q = (r1, q1)" by fastforce
  then have "pts q1 = pts q" using ok unfolding schema_ok_def by (auto simp: qd_ready_def split: sum.splits if_splits)
  with i r show ?thesis
    by (auto simp: qd_initialize_collection_def split: sum.splits prod.splits dest: ensure_indexes_pts [OF ok])
qed

lemma qd_delete_pts:
  assumes "delete_ok (qd_client Q) pts m" "qd_delete_chunks Q q f = (r, q')"
  shows "pts q' k = pts q k \<or> pts q' k = None \<and> (\<exists>g p. build_delete_filter f = Inr g \<and> pts q k = Some p \<and> meets m g p)"
proof -
  consider "q' = q" | g r' where "build_delete_filter f = Inr g" "qc_delete (qd_client Q) q g = (r', q')"
    using assms(2) by (auto simp: qd_delete_chunks_def bindE_Inr split: if_splits sum.splits prod.splits)
  then show ?thesis using assms(1) unfolding delete_ok_def by cases blast+
qed

lemma qd_delete_inv:
  assumes "delete_ok (qd_client Q) pts m" "qd_delete_chunks Q q f = (r, q')" "qd_inv Q pts q"
  shows "qd_inv Q pts q'"
  unfolding qd_inv_def
proof (intro allI impI)
  fix k p assume "pts q' k = Some p"
  with qd_delete_pts [OF assms(1,2), of k] have "pts q k = Some p" by auto
  with assms(3) show "k = qd_key Q p \<and> qd_payload_ok p" by (simp add: qd_inv_def)
qed

lemma qd_key_apart:
  assumes "inj (qd_uuid5 Q)" "dget p ''tenant_id'' = Some (PStr a)" "dget q ''tenant_id'' = Some (PStr b)"
    "plain_id a" "plain_id b" "a \<noteq> b"
  shows "qd_key Q p \<noteq> qd_key Q q"
  using mem_key_apart [OF assms(2-6)] injD [OF assms(1)] unfolding qd_key_def mem_key_def by blast

lemma qd_lookup_safe:
  assumes ok: "qclient_ok (qd_client Q) pts m" and inv: "qd_inv Q pts q"
    and l: "qd_lookup_ids Q q field vals f = Some (Inr (present, retr))"
  shows "(\<forall>v\<in>set present. v \<in> set vals \<and> (\<exists>k p. qd_stored pts q k p \<and> in_scope f p \<and> py_str (qd_codec Q) (claim p field) = v))
    \<and> (\<forall>v\<in>set retr. v \<in> set vals \<and> (\<exists>k p. qd_stored pts q k p \<and> in_scope f p \<and> retrievable p \<and> py_str (qd_codec Q) (claim p field) = v))"
proof -
  obtain wanted where w: "verify_targets field vals = Inr wanted" using l by (auto simp: qd_lookup_ids_def split: sum.splits)
  show ?thesis
  proof (cases "wanted = []")
    case False
    let ?F = "\<lparr>qf_must = lookup_conditions field wanted f, qf_must_not = []\<rparr>"
    obtain pr rt where s: "qd_scroll Q q ?F field wanted None [] [] = Some (Inr (pr, rt))" "set present = set pr" "set retr = set rt"
      using l False by (auto simp: qd_lookup_ids_def w bindE_Inr)
    have sc: "in_scope f p" if "pts q k = Some p" "meets m ?F p" for k p
      using that ok inv lookup_filter_met [of m field wanted f p] by (auto simp: qclient_ok_def qd_inv_def)
    have "scroll_ok (qd_client Q) pts m" using ok by (simp add: qclient_ok_def)
    from qd_scroll_safe [OF this s(1)] sc verify_targets_subset [OF w] show ?thesis
      unfolding s(2,3) qd_stored_def by blast
  qed (use l w in \<open>simp add: qd_lookup_ids_def\<close>)
qed

text \<open>For any server with the documented behaviour.\<close>

lemma qdrant_store_reads:
  assumes ok: "qclient_ok (qd_client Q) pts m"
  shows "store_reads (qd_vstore Q) (qd_stored pts) (qd_inv Q pts) (py_str (qd_codec Q))"
proof
  have up: "upsert_ok (qd_client Q) pts" and del: "delete_ok (qd_client Q) pts m" and sch: "schema_ok (qd_client Q) pts"
    using ok by (simp_all add: qclient_ok_def)
  show "qd_inv Q pts s'" if "qd_inv Q pts s" "vs_upsert (qd_vstore Q) s cs = (r, s')" for s cs r s'
    by (rule qd_upsert_inv [OF up _ that(1)]) (use that(2) in \<open>simp add: qd_vstore_def\<close>)
  show "qd_inv Q pts s'" if "qd_inv Q pts s" "vs_delete (qd_vstore Q) s f = (r, s')" for s f r s'
    by (rule qd_delete_inv [OF del _ that(1)]) (use that(2) in \<open>simp add: qd_vstore_def\<close>)
  show "qd_inv Q pts s'" if "qd_inv Q pts s" "vs_initialize (qd_vstore Q) s = (r, s')" for s r s'
    using that qd_initialize_pts [OF sch, of s r s'] unfolding qd_inv_def qd_vstore_def by simp
  show "\<exists>p. qd_stored pts s (h_id h) p \<and> retrievable p \<and> in_scope f p \<and> h_payload h = (if ip then Some p else None)"
    if "qd_inv Q pts s" "vs_search (qd_vstore Q) s q k f ip iv = Inr hits" "h \<in> set hits" for s q k f ip iv hits h
    by (rule qd_search_hits [OF ok that(1) _ that(3)]) (use that(2) in \<open>simp add: qd_vstore_def\<close>)
  show "\<exists>p. qd_stored pts s (h_id h) p \<and> retrievable p \<and> in_scope f p \<and> h_payload h = (if ip then Some p else None)"
    if "qd_inv Q pts s" "vs_sparse (qd_vstore Q) s q k f ip = Inr hits" "h \<in> set hits" for s q k f ip hits h
    by (rule qd_sparse_hits [OF ok that(1) _ that(3)]) (use that(2) in \<open>simp add: qd_vstore_def\<close>)
  show "(\<forall>v\<in>set present. v \<in> set vals \<and> (\<exists>k p. qd_stored pts s k p \<and> in_scope f p \<and> py_str (qd_codec Q) (claim p field) = v))
      \<and> (\<forall>v\<in>set retr. v \<in> set vals \<and> (\<exists>k p. qd_stored pts s k p \<and> in_scope f p \<and> retrievable p \<and> py_str (qd_codec Q) (claim p field) = v))"
    if "qd_inv Q pts s" "vs_lookup (qd_vstore Q) s field vals f = Some (Inr (present, retr))" for s field vals f present retr
    by (rule qd_lookup_safe [OF ok that(1)]) (use that(2) in \<open>simp add: qd_vstore_def\<close>)
qed

text \<open>When also the identifiers of points do not collide.\<close>

lemma qdrant_vector_store:
  assumes ok: "qclient_ok (qd_client Q) pts m" and inj: "inj (qd_uuid5 Q)"
  shows "vector_store (qd_vstore Q) (qd_stored pts) (qd_inv Q pts) (py_str (qd_codec Q)) (qd_key Q) plain_id"
proof (intro vector_store.intro qdrant_store_reads [OF ok] vector_store_axioms.intro)
  note oks = ok [unfolded qclient_ok_def]
  have up: "upsert_ok (qd_client Q) pts" and del: "delete_ok (qd_client Q) pts m" and sch: "schema_ok (qd_client Q) pts"
    and mat: "match_ok m" using oks by auto
  show "qd_stored pts s k p \<or> (\<exists>ch\<in>set cs. k = qd_key Q ch \<and> same_scope ch p)"
    if "qd_inv Q pts s" "vs_upsert (qd_vstore Q) s cs = (r, s')" "qd_stored pts s' k p" for s cs r s' k p
    by (rule qd_upsert_stored [OF up _ that(3)]) (use that(2) in \<open>simp add: qd_vstore_def\<close>)
  show "qd_stored pts s' k p"
    if "qd_inv Q pts s" "vs_upsert (qd_vstore Q) s cs = (r, s')" "qd_stored pts s k p" "\<forall>ch\<in>set cs. qd_key Q ch \<noteq> k" for s cs r s' k p
    using that qd_upsert_pts [OF up, of s cs r s' k] unfolding qd_stored_def qd_vstore_def by auto
  show "qd_stored pts s k p" if "qd_inv Q pts s" "vs_delete (qd_vstore Q) s f = (r, s')" "qd_stored pts s' k p" for s f r s' k p
    using that qd_delete_pts [OF del, of s f r s' k] unfolding qd_stored_def qd_vstore_def by auto
  show "qd_stored pts s' k p"
    if "qd_inv Q pts s" "vs_delete (qd_vstore Q) s f = (r, s')" "qd_stored pts s k p" "\<not> in_scope f p" for s f r s' k p
    using that qd_delete_pts [OF del, of s f r s' k] delete_filter_met [OF mat, of f _ p]
    unfolding qd_stored_def qd_vstore_def qd_inv_def by auto
  show "qd_stored pts s' = qd_stored pts s" if "qd_inv Q pts s" "vs_initialize (qd_vstore Q) s = (r, s')" for s r s'
    using that qd_initialize_pts [OF sch, of s r s'] unfolding qd_stored_def qd_vstore_def by (auto simp: fun_eq_iff)
  show "k = qd_key Q p" if "qd_inv Q pts s" "qd_stored pts s k p" for s k p
    using that by (simp add: qd_inv_def qd_stored_def)
  show "qd_key Q p \<noteq> qd_key Q q"
    if "dget p ''tenant_id'' = Some (PStr a)" "dget q ''tenant_id'' = Some (PStr b)" "plain_id a" "plain_id b" "a \<noteq> b" for p q a b
    using qd_key_apart [OF inj that] .
qed

end
