(* ===== verification/Vector_Isolation.thy ===== *)
theory Vector_Isolation
  imports Vector_Service Qdrant_Store
begin

text \<open>
  Tenant isolation of the vector service, for the Qdrant store over any server with the
  documented behaviour and for the in-memory store, with a small server for the witnesses.
\<close>

section \<open>A small server\<close>

type_synonym demo_points = "(string, claims) dict"

definition demo_match :: "claims \<Rightarrow> qcond \<Rightarrow> bool" where
  "demo_match p = (\<lambda>(k, mt). case mt of MValue v \<Rightarrow> dget p k = Some v | MAny vs \<Rightarrow> list_ex (\<lambda>v. dget p k = Some v) vs)"

definition demo_meets :: "qfilter \<Rightarrow> demo_points \<Rightarrow> string \<times> claims \<Rightarrow> bool" where
  "demo_meets f q = (\<lambda>(k, p). dget q k = Some p \<and> meets demo_match f p)"

definition demo_client :: "demo_points qclient" where
  "demo_client = \<lparr>qc_collections = (\<lambda>q. Inr [''c'']), qc_create_collection = (\<lambda>q n d. (Inr (), q)),
     qc_has_dense = (\<lambda>q. Inr True), qc_has_sparse = (\<lambda>q. Inr True), qc_payload_index = (\<lambda>q x. (Inr (), q)),
     qc_upsert = (\<lambda>q ps. (Inr (), foldl (\<lambda>q p. dset (qp_id p) (qp_payload p) q) q ps)),
     qc_query = (\<lambda>q x n f wp wv. Inr (map (\<lambda>(k, p). \<lparr>sp_id = k, sp_score = 1,
       sp_payload = (if wp then Some p else None), sp_vector = None\<rparr>) (py_upto n (filter (demo_meets f q) q)))),
     qc_count = (\<lambda>q f. Inr (length (case f of None \<Rightarrow> q | Some f \<Rightarrow> filter (demo_meets f q) q))),
     qc_points_count = (\<lambda>q. Inr (length q)),
     qc_delete = (\<lambda>q f. (Inr (), filter (\<lambda>(k, _). case dget q k of Some p \<Rightarrow> \<not> meets demo_match f p | None \<Rightarrow> False) q)),
     qc_scroll = (\<lambda>q f off n fs. Inr (filter (demo_meets f q) q, None))\<rparr>"

definition demo_qdrant :: "demo_points qdrant" where
  "demo_qdrant = \<lparr>qd_client = demo_client, qd_name = ''c'', qd_vector_size = 1, qd_codec = sample_codec [],
     qd_numpy = \<lparr>np_asarray = (\<lambda>v. Inr [1]), np_norm = (\<lambda>v. 1), np_dot = (\<lambda>u v. Inr 1)\<rparr>,
     qd_lexis = \<lparr>lx_casefold = (\<lambda>s. s), lx_digest32 = length\<rparr>, qd_uuid5 = (\<lambda>s. s)\<rparr>"

lemma dget_filter_key: "dget (filter (\<lambda>(k, _). P k) d) k = (if P k then dget d k else None)"
  by (induction d) auto

lemma demo_upsert_dget:
  "dget (foldl (\<lambda>q p. dset (qp_id p) (qp_payload p) q) q ps) k = dget q k
   \<or> (\<exists>p\<in>set ps. qp_id p = k \<and> dget (foldl (\<lambda>q p. dset (qp_id p) (qp_payload p) q) q ps) k = Some (qp_payload p))"
proof (induction ps arbitrary: q)
  case (Cons p ps)
  from Cons [of "dset (qp_id p) (qp_payload p) q"] show ?case by (cases "qp_id p = k") auto
qed simp

lemma demo_client_ok: "qclient_ok demo_client dget demo_match"
proof -
  have "match_ok demo_match" by (auto simp: match_ok_def demo_match_def)
  moreover have "query_ok demo_client dget demo_match"
    unfolding query_ok_def by (auto simp: demo_client_def demo_meets_def dest!: subsetD [OF set_py_upto])
  moreover have "upsert_ok demo_client dget"
    unfolding upsert_ok_def by (simp add: demo_client_def) (intro allI demo_upsert_dget)
  moreover have "delete_ok demo_client dget demo_match"
    unfolding delete_ok_def by (auto simp: demo_client_def dget_filter_key split: option.splits)
  moreover have "scroll_ok demo_client dget demo_match"
    unfolding scroll_ok_def by (auto simp: demo_client_def demo_meets_def)
  moreover have "schema_ok demo_client dget" by (simp add: schema_ok_def demo_client_def)
  ultimately show ?thesis by (simp add: qclient_ok_def)
qed

definition demo_chunk :: "string \<Rightarrow> string \<Rightarrow> claims" where
  "demo_chunk tenant user = [(''tenant_id'', PStr tenant), (''owner_user_id'', PStr user), (''owner_admin_id'', PStr ''a1''),
     (''file_id'', PStr ''f1''), (''chunk_id'', PStr ''c1''), (''retrieval_allowed'', PBool True), (''review_status'', PStr ''clean'')]"

definition demo_state :: demo_points where
  "demo_state = [(''t1:c1'', demo_chunk ''t1'' ''u1''), (''t2:c1'', demo_chunk ''t2'' ''u2'')]"

definition demo_env :: "string \<Rightarrow> string \<Rightarrow> string \<Rightarrow> vec_env" where
  "demo_env tenant user role = \<lparr>ve_codec = sample_codec [], ve_numpy = qd_numpy demo_qdrant, ve_auth_required = ''true'',
     ve_context = [(''tenant_id'', PStr tenant), (''user_id'', PStr user), (''role'', PStr role)], ve_closed = False\<rparr>"

definition demo_search :: search_args where
  "demo_search = \<lparr>sa_query_vector = [1], sa_top_k = 5, sa_filters = [(''tenant_id'', PStr ''t2'')], sa_include_payload = True,
     sa_include_vector = False, sa_query_sparse = None, sa_strategy = ''dense'', sa_dense_k = 5, sa_sparse_k = 5, sa_rrf_k = 60\<rparr>"

lemma demo_identity:
  assumes "tenant \<noteq> []" "user \<noteq> []" "role \<in> VALID_ROLES"
  shows "vec_identity (demo_env tenant user role)
    = Inr (Some \<lparr>id_tenant = tenant, id_user = user, id_role = role, id_email = None, id_admin = None, id_session = None\<rparr>)"
proof -
  have "role \<noteq> []" using assms(3) by (auto simp: VALID_ROLES_def ROLE_ADMIN_def ROLE_USER_def ROLE_SERVICE_def)
  with assms show ?thesis
    by (simp add: vec_identity_def demo_env_def identity_from_context_def identity_from_mapping_def identity_check_def
        claim_def str_or_empty_def str_or_none_def py_str_def mapInl_def)
qed

lemma demo_state_inv: "qd_inv demo_qdrant dget demo_state"
  by (auto simp: qd_inv_def demo_state_def demo_chunk_def qd_key_def demo_qdrant_def py_str_def claim_def
      qd_payload_ok_def SCOPE_FIELDS_def split: if_splits)

lemma demo_qdrant_ok: "qclient_ok (qd_client demo_qdrant) dget demo_match"
  using demo_client_ok by (simp add: demo_qdrant_def)

section \<open>Searches\<close>

text \<open>
  C2.  A search never leaves the caller's scope.  From a well-formed collection, after any
  writes by any callers, a dense or hybrid search by an authenticated caller, whatever
  filters the caller sends, returns only chunks of the collection that are allowed for
  retrieval, not removed, of the caller's tenant, and owned by the caller: as administrator
  for an administrator, as user for a user (a service sees its whole tenant).
\<close>

theorem search_stays_in_scope:
  assumes "qclient_ok (qd_client Q) pts m" "qd_inv Q pts q0" "q = vec_writes (qd_vstore Q) ws q0"
    and "vec_identity env = Inr (Some i)" "vec_search_chunks env (qd_vstore Q) q a = Inr res"
    and "(k, payload) \<in> set (result_hits res)"
  shows "\<exists>p. pts q k = Some p \<and> retrievable p \<and> visible_to i p \<and> payload = (if sa_include_payload a then Some p else None)"
proof -
  note qd = qdrant_store_reads [OF assms(1)]
  have "qd_inv Q pts q" unfolding assms(3) by (rule store_reads.writes_keep_inv [OF qd assms(2)])
  from store_reads.search_visible [OF qd this assms(4-6)] show ?thesis by (simp add: qd_stored_def)
qed

lemma demo_search_result:
  "vec_search_chunks (demo_env ''t1'' ''u1'' ''user'') (qd_vstore demo_qdrant) demo_state demo_search
     = Inr (DenseHits [\<lparr>h_id = ''t1:c1'', h_score = 1, h_payload = Some (demo_chunk ''t1'' ''u1''), h_vector = None\<rparr>])"
proof -
  let ?env = "demo_env ''t1'' ''u1'' ''user''"
  have i: "vec_identity ?env = Inr (Some \<lparr>id_tenant = ''t1'', id_user = ''u1'', id_role = ''user'', id_email = None,
      id_admin = None, id_session = None\<rparr>)" by (rule demo_identity) (simp_all add: VALID_ROLES_def ROLE_USER_def)
  have f: "scoped_filters ?env [(''tenant_id'', PStr ''t2'')] = Inr [(''tenant_id'', PStr ''t1''), (''owner_user_id'', PStr ''u1'')]"
    by (simp add: scoped_filters_def i is_admin_def ROLE_ADMIN_def ROLE_SERVICE_def)
  have g: "build_search_filter [(''tenant_id'', PStr ''t1''), (''owner_user_id'', PStr ''u1'')]
      = Inr \<lparr>qf_must = [(''retrieval_allowed'', MValue (PBool True)), (''tenant_id'', MValue (PStr ''t1'')),
               (''owner_user_id'', MValue (PStr ''u1''))], qf_must_not = [(''review_status'', MValue (PStr ''removed''))]\<rparr>"
    by (simp add: build_search_filter_def ALLOWED_CALLER_FILTERS_def normalize_match_value_def)
  let ?g = "\<lparr>qf_must = [(''retrieval_allowed'', MValue (PBool True)), (''tenant_id'', MValue (PStr ''t1'')),
      (''owner_user_id'', MValue (PStr ''u1''))], qf_must_not = [(''review_status'', MValue (PStr ''removed''))]\<rparr>"
  have d: "filter (demo_meets ?g demo_state) demo_state = [(''t1:c1'', demo_chunk ''t1'' ''u1'')]"
    by (simp add: demo_state_def demo_meets_def meets_def demo_match_def) (simp add: demo_chunk_def)
  have s: "qd_search_chunks demo_qdrant demo_state [1] 5 [(''tenant_id'', PStr ''t1''), (''owner_user_id'', PStr ''u1'')] True False
      = Inr [\<lparr>h_id = ''t1:c1'', h_score = 1, h_payload = Some (demo_chunk ''t1'' ''u1''), h_vector = None\<rparr>]"
    unfolding qd_search_chunks_def g bindE_simps demo_qdrant_def qdrant.simps demo_client_def qclient.simps d
    by (simp add: qd_hit_def py_upto_def py_norm_def)
  have n: "np_asarray (ve_numpy ?env) v = Inr [1]" for v by (simp add: demo_env_def demo_qdrant_def)
  show ?thesis
    unfolding vec_search_chunks_def demo_search_def search_args.simps n f
    by (simp add: mapInl_def qd_vstore_def s)
qed

theorem search_stays_in_scope_witness:
  "\<exists>p. dget demo_state ''t1:c1'' = Some p \<and> retrievable p
    \<and> visible_to \<lparr>id_tenant = ''t1'', id_user = ''u1'', id_role = ''user'', id_email = None, id_admin = None, id_session = None\<rparr> p"
  using search_stays_in_scope [OF demo_qdrant_ok demo_state_inv _ _ demo_search_result, of "[]" _ "''t1:c1''"]
    demo_identity [of "''t1''" "''u1''" "''user''"]
  by (auto simp: vec_writes_def VALID_ROLES_def ROLE_USER_def demo_search_def)

section \<open>Writes\<close>



section \<open>Verification of ids\<close>

text \<open>The names that a field has among the chunks a caller may see, and may retrieve.\<close>

definition visible_names :: "codec \<Rightarrow> mem_store \<Rightarrow> auth_identity \<Rightarrow> string \<Rightarrow> string set" where
  "visible_names c st i field = {py_str c (claim p field) | k p. mem_stored st k p \<and> visible_to i p \<and> claim p field \<noteq> PNone}"

definition retrievable_names :: "codec \<Rightarrow> mem_store \<Rightarrow> auth_identity \<Rightarrow> string \<Rightarrow> string set" where
  "retrievable_names c st i field =
     {py_str c (claim p field) | k p. mem_stored st k p \<and> visible_to i p \<and> retrievable p \<and> claim p field \<noteq> PNone}"

definition verified_exactly :: "codec \<Rightarrow> mem_store \<Rightarrow> auth_identity \<Rightarrow> string \<Rightarrow> string list \<Rightarrow> verified \<Rightarrow> bool" where
  "verified_exactly c st i field vals v \<longleftrightarrow>
     set (vf_present v) = set vals \<inter> visible_names c st i field
     \<and> set (vf_retrievable v) = set vals \<inter> retrievable_names c st i field
     \<and> set (vf_missing v) = set vals - visible_names c st i field"

lemma scope_matches:
  assumes "vec_identity env = Inr (Some i)" "scoped_filters env [] = Inr f"
  shows "matches_filters p (filter (\<lambda>(k, v). v \<noteq> PNone) f) \<longleftrightarrow> visible_to i p"
    and "filter (\<lambda>(k, v). v \<noteq> PNone) f \<noteq> []"
  using assms
  by (auto simp: scoped_filters_def matches_filters_def visible_to_def match_value_def Let_def split: option.splits if_splits)

lemma mem_payloads:
  assumes "mem_inv c st" shows "me_payload ` set (map snd st) = {p. \<exists>k. mem_stored st k p}"
proof -
  have "(\<exists>k. dget st k = Some e) \<longleftrightarrow> e \<in> set (map snd st)" for e
    using assms unfolding mem_inv_def by force
  then show ?thesis unfolding mem_stored_def by blast
qed

lemma verify_field_exact:
  assumes inv: "mem_inv c st" and i: "vec_identity env = Inr (Some i)" and f: "scoped_filters env [] = Inr f"
    and fld: "field \<in> VERIFIABLE_ID_FIELDS" and ok: "\<forall>v\<in>set vals. strip v \<noteq> []" "card (set vals) \<le> MAX_VERIFY_IDS"
  shows "\<exists>v. verify_field (mem_vstore c np lx name) st field vals f = Some (Inr v) \<and> verified_exactly c st i field vals v"
proof (cases "vals = []")
  case False
  let ?g = "filter (\<lambda>(k, v). v \<noteq> PNone) f"
  let ?found = "filter (mem_named c field (remdups vals) ?g) (map snd st)"
  let ?name = "\<lambda>e. py_str c (claim (me_payload e) field)"
  have fv: "filter (\<lambda>v. strip v \<noteq> []) vals = vals" using ok(1) by simp
  have w: "verify_targets field vals = Inr (remdups vals)"
    using fld ok(2) by (simp add: verify_targets_def fv length_remdups_card_conv)
  have l: "mem_lookup_ids c st field vals f = Inr (sort (remdups (map ?name ?found)),
      sort (remdups (map ?name (filter (\<lambda>e. retrievable (me_payload e)) ?found))))"
    using False by (simp add: mem_lookup_ids_def w Let_def)
  have n: "mem_named c field (remdups vals) ?g e \<longleftrightarrow>
      claim (me_payload e) field \<noteq> PNone \<and> ?name e \<in> set vals \<and> visible_to i (me_payload e)" for e
    using scope_matches [OF i f] unfolding mem_named_def Let_def by simp
  have p: "?name ` set ?found = set vals \<inter> visible_names c st i field"
    "?name ` set (filter (\<lambda>e. retrievable (me_payload e)) ?found) = set vals \<inter> retrievable_names c st i field"
  proof -
    let ?P = "me_payload ` set (map snd st)"
    have "?name ` set ?found = (\<lambda>p. py_str c (claim p field)) ` {p \<in> ?P. claim p field \<noteq> PNone \<and> py_str c (claim p field) \<in> set vals \<and> visible_to i p}"
      unfolding set_filter n by (auto simp: image_iff)
    then show "?name ` set ?found = set vals \<inter> visible_names c st i field"
      unfolding mem_payloads [OF inv] visible_names_def by auto
    have "?name ` set (filter (\<lambda>e. retrievable (me_payload e)) ?found) = (\<lambda>p. py_str c (claim p field)) `
        {p \<in> ?P. retrievable p \<and> claim p field \<noteq> PNone \<and> py_str c (claim p field) \<in> set vals \<and> visible_to i p}"
      unfolding set_filter n by (auto simp: image_iff)
    then show "?name ` set (filter (\<lambda>e. retrievable (me_payload e)) ?found) = set vals \<inter> retrievable_names c st i field"
      unfolding mem_payloads [OF inv] retrievable_names_def by auto
  qed
  define F where "F = map ?name ?found"
  define G where "G = map ?name (filter (\<lambda>e. retrievable (me_payload e)) ?found)"
  have FG: "set F = set vals \<inter> visible_names c st i field" "set G = set vals \<inter> retrievable_names c st i field"
    unfolding F_def G_def set_map by (fact p)+
  have "verify_field (mem_vstore c np lx name) st field vals f
      = Some (Inr \<lparr>vf_present = sort (remdups (sort (remdups F))), vf_retrievable = sort (remdups (sort (remdups G))),
          vf_missing = sort (remdups (filter (\<lambda>v. v \<notin> set (sort (remdups F))) vals))\<rparr>)"
    using False by (simp add: verify_field_def mem_vstore_def l [folded F_def G_def] mapInl_def)
  then show ?thesis using FG by (auto simp: verified_exactly_def)
qed (simp add: verify_field_def verified_exactly_def)

text \<open>
  C25.  Verification of ids is exact and never reveals another tenant: with some id that is
  not blank and at most 1000 different ones per field, it returns, and for each field
  the ids reported present are exactly those sent that a chunk visible to the caller has,
  the retrievable ones exactly those a visible, retrievable chunk has, and the missing ones
  all the others, so an id of a foreign chunk reads like a deleted one.
\<close>

theorem verify_chunk_ids_exact:
  assumes "mem_inv c st" "vec_identity env = Inr (Some i)"
    and "chunks = filter (\<lambda>v. strip v \<noteq> []) chunk_ids" "files = filter (\<lambda>v. strip v \<noteq> []) file_ids"
    and "chunks \<noteq> [] \<or> files \<noteq> []" "card (set chunks) \<le> MAX_VERIFY_IDS" "card (set files) \<le> MAX_VERIFY_IDS"
  shows "\<exists>vc vf. vec_verify_chunk_ids env (mem_vstore c np lx name) st chunk_ids file_ids = Some (Inr (vc, vf))
    \<and> verified_exactly c st i ''chunk_id'' chunks vc \<and> verified_exactly c st i ''file_id'' files vf"
proof -
  obtain f where f: "scoped_filters env [] = Inr f" using scoped_filters_ok [OF assms(2)] by blast
  have "\<exists>v. verify_field (mem_vstore c np lx name) st ''chunk_id'' chunks f = Some (Inr v) \<and> verified_exactly c st i ''chunk_id'' chunks v"
    "\<exists>v. verify_field (mem_vstore c np lx name) st ''file_id'' files f = Some (Inr v) \<and> verified_exactly c st i ''file_id'' files v"
    using assms by (intro verify_field_exact [OF assms(1,2) f]; simp add: VERIFIABLE_ID_FIELDS_def)+
  then show ?thesis
    using assms(3-5) by (auto simp: vec_verify_chunk_ids_def Let_def f)
qed

theorem verify_chunk_ids_exact_witness:
  "\<exists>vc vf. vec_verify_chunk_ids (demo_env ''t1'' ''u1'' ''user'')
      (mem_vstore (sample_codec []) (qd_numpy demo_qdrant) (qd_lexis demo_qdrant) ''c'') [] [''c1''] [] = Some (Inr (vc, vf))
    \<and> set (vf_missing vc) = {''c1''}"
  using verify_chunk_ids_exact [of "sample_codec []" "[]" "demo_env ''t1'' ''u1'' ''user''" _ "[''c1'']" "[''c1'']" "[]" "[]"
      "qd_numpy demo_qdrant" "qd_lexis demo_qdrant" "''c''"]
  by (fastforce simp: demo_identity VALID_ROLES_def ROLE_USER_def mem_inv_def MAX_VERIFY_IDS_def verified_exactly_def
      visible_names_def mem_stored_def strip_def lstrip_def rstrip_def py_isspace_def)

end
