(* ===== verification/Vector_Envelope.thy ===== *)
theory Vector_Envelope
  imports Vector_Service
begin

text \<open>
  The request side of the vector service: normalisation of canonical and legacy messages
  to one envelope (\<open>backend/vector_db/app/services/base.py\<close>) and the RPC and Kafka
  dispatchers of \<open>vector_service.py\<close>.  The pydantic models are arguments: what they make of
  a message, or a validation error, and which values they accept for a string field.
\<close>

section \<open>Normalisation\<close>

record vec_config =
  vc_service_name :: string
  vc_request_topic :: string
  vc_upsert_topic :: string
  vc_delete_topic :: string

definition py_or :: "pyval \<Rightarrow> pyval \<Rightarrow> pyval" where
  "py_or a b = (if truthy a then a else b)"

definition infer_source_service :: "pyval \<Rightarrow> py_exn + string" where
  "infer_source_service reply_to =
     (if \<not> truthy reply_to then Inr ''unknown''
      else case reply_to of
        PStr s \<Rightarrow> Inr (if CHR ''.'' \<in> set s then takeWhile (\<lambda>ch. ch \<noteq> CHR ''.'') s else ''unknown'')
      | PList vs \<Rightarrow> if list_ex (\<lambda>v. py_eq v (PStr ''.'')) vs then Inl AttributeError else Inr ''unknown''
      | PDict d \<Rightarrow> if ''.'' \<in> set (dkeys d) then Inl AttributeError else Inr ''unknown''
      | _ \<Rightarrow> Inl TypeError)"

definition infer_action :: "vec_config \<Rightarrow> string \<Rightarrow> claims \<Rightarrow> pyval" where
  "infer_action cfg topic request =
     (let action = claim request ''action'' in
      if truthy action then action
      else if topic = vc_upsert_topic cfg then PStr ''upsert_chunks''
      else if topic = vc_delete_topic cfg then PStr ''delete_chunks''
      else PStr [])"

definition infer_message_type :: "pyval \<Rightarrow> pyval" where
  "infer_message_type action = (if py_eq action (PStr ''search_chunks'') then PStr ''query'' else PStr ''command'')"

definition extract_legacy_payload :: "pyval \<Rightarrow> claims \<Rightarrow> claims" where
  "extract_legacy_payload action request =
     (if py_eq action (PStr ''search_chunks'') then
        [(''query_vector'', claim request ''query_vector''), (''top_k'', dget_default request ''top_k'' (PInt 10)),
         (''filters'', dget_default request ''filters'' (PDict [])),
         (''include_payload'', dget_default request ''include_payload'' (PBool True)),
         (''include_vector'', dget_default request ''include_vector'' (PBool False))]
      else if py_eq action (PStr ''upsert_chunks'') then
        [(''review_outcome'', dget_default request ''review_outcome'' (PStr ''none'')),
         (''target_filters'', claim request ''target_filters''), (''chunks'', dget_default request ''chunks'' (PList []))]
      else if py_eq action (PStr ''delete_chunks'') then
        [(''review_outcome'', dget_default request ''review_outcome'' (PStr ''none'')),
         (''filters'', dget_default request ''filters'' (PDict []))]
      else [])"

definition delete_event_filters :: "claims \<Rightarrow> claims \<Rightarrow> claims" where
  "delete_event_filters request payload =
     (let file_id = py_or (claim payload ''file_id'') (claim request ''file_id'');
          document_id = py_or (claim payload ''document_id'') (claim request ''document_id'') in
      (if truthy file_id then [(''file_id'', file_id)] else [])
      @ (if truthy document_id then [(''document_id'', document_id)] else []))"

definition normalize_delete_topic_request :: "claims \<Rightarrow> pyval \<Rightarrow> pyval \<Rightarrow> claims \<Rightarrow> pyval \<times> pyval \<times> claims" where
  "normalize_delete_topic_request request action message_type payload =
     (let is_cleanup_event = (dget payload ''filters'' = None
            \<and> (py_eq action (PStr ''vector_db.delete.requested'')
               \<or> py_eq (claim payload ''event_type'') (PStr ''vector_db.delete.requested'')
               \<or> py_eq message_type (PStr ''event''))) in
      if \<not> is_cleanup_event then (action, message_type, payload)
      else (PStr ''delete_chunks'', PStr ''command'',
            [(''review_outcome'', PStr ''delete_file''), (''filters'', PDict (delete_event_filters request payload))]))"

text \<open>\<open>now\<close> is the time as text and \<open>fresh\<close> the generated message id.\<close>

definition build_envelope_context ::
  "vec_config \<Rightarrow> codec \<Rightarrow> string \<Rightarrow> string \<Rightarrow> string \<Rightarrow> claims \<Rightarrow> pyval \<Rightarrow> py_exn + claims" where
  "build_envelope_context cfg c now fresh topic request action =
     (let action = py_or action (infer_action cfg topic request);
          payload = (case claim request ''payload'' of PDict p \<Rightarrow> p | _ \<Rightarrow> extract_legacy_payload action request);
          message_type = py_or (claim request ''message_type'') (infer_message_type action);
          (action, message_type, payload) =
            (if topic = vc_delete_topic cfg then normalize_delete_topic_request request action message_type payload
             else (action, message_type, payload));
          message_id = py_or (claim request ''message_id'') (PStr fresh);
          correlation_id = py_or (claim request ''correlation_id'') message_id;
          request_id = py_or (claim request ''request_id'') correlation_id;
          trace_id = py_or (claim request ''trace_id'') request_id;
          reply_to = claim request ''reply_to'';
          source = claim request ''source_service'';
          timestamp = claim request ''timestamp'' in
      bindE (if truthy source then Inr source else bindE (infer_source_service reply_to) (\<lambda>s. Inr (PStr s))) (\<lambda>source_service.
      Inr [(''message_id'', message_id), (''message_type'', message_type), (''action'', action),
           (''source_service'', source_service),
           (''target_service'', py_or (claim request ''target_service'') (PStr (vc_service_name cfg))),
           (''request_id'', request_id), (''trace_id'', trace_id), (''correlation_id'', correlation_id),
           (''reply_to'', reply_to), (''stream_to'', claim request ''stream_to''),
           (''timestamp'', PStr (if timestamp = PNone then now else py_str c timestamp)),
           (''payload'', PDict payload)]))"

definition normalize_request ::
  "vec_config \<Rightarrow> codec \<Rightarrow> string \<Rightarrow> string \<Rightarrow> string \<Rightarrow> claims \<Rightarrow> vec_exn + claims" where
  "normalize_request cfg c now fresh topic request =
     bindE (mapInl EPy (build_envelope_context cfg c now fresh topic request PNone)) (\<lambda>normalized.
     if \<not> truthy (claim normalized ''action'') then Inl EInvalid else Inr normalized)"

section \<open>The RPC dispatcher\<close>

record validators =
  vd_search :: "claims \<Rightarrow> search_args option"
  vd_upsert :: "claims \<Rightarrow> (claims list \<times> string \<times> claims) option"
  vd_delete :: "claims \<Rightarrow> (claims \<times> string) option"
  vd_verify :: "claims \<Rightarrow> (string list \<times> string list) option"
  vd_initialize :: "claims \<Rightarrow> bool"
  vd_str :: "pyval \<Rightarrow> bool"

datatype rpc_payload =
    RResults search_results
  | RUpserted upsert_result
  | RDeleted nat string claims string
  | RInitialized string
  | RVerified string verified verified
  | RMetrics string nat
  | RError

record rpc_reply =
  rp_action :: pyval
  rp_target_service :: pyval
  rp_request_id :: pyval
  rp_trace_id :: pyval
  rp_correlation_id :: pyval
  rp_success :: bool
  rp_payload :: rpc_payload

definition build_rpc_success :: "claims \<Rightarrow> pyval \<Rightarrow> rpc_payload \<Rightarrow> rpc_reply" where
  "build_rpc_success normalized action payload =
     \<lparr>rp_action = action, rp_target_service = dget_default normalized ''source_service'' (PStr ''unknown''),
      rp_request_id = claim normalized ''request_id'', rp_trace_id = claim normalized ''trace_id'',
      rp_correlation_id = claim normalized ''correlation_id'', rp_success = True, rp_payload = payload\<rparr>"

definition build_rpc_error :: "string \<Rightarrow> claims \<Rightarrow> pyval \<Rightarrow> rpc_reply" where
  "build_rpc_error fresh raw action =
     \<lparr>rp_action = action, rp_target_service = dget_default raw ''source_service'' (PStr ''unknown''),
      rp_request_id = dget_default raw ''request_id'' (dget_default raw ''correlation_id'' (PStr fresh)),
      rp_trace_id = dget_default raw ''trace_id'' (dget_default raw ''request_id'' (PStr fresh)),
      rp_correlation_id = dget_default raw ''correlation_id'' (PStr fresh), rp_success = False, rp_payload = RError\<rparr>"

definition validated :: "'a option \<Rightarrow> vec_exn + 'a" where
  "validated x = (case x of Some y \<Rightarrow> Inr y | None \<Rightarrow> Inl EValidation)"

text \<open>The branches of \<open>process_request\<close>; \<open>None\<close> if the operation does not return.\<close>

definition rpc_action ::
  "validators \<Rightarrow> vec_env \<Rightarrow> 's vstore \<Rightarrow> 's \<Rightarrow> claims \<Rightarrow> pyval \<Rightarrow> ((vec_exn + rpc_payload) \<times> 's) option" where
  "rpc_action vd env vs s req action =
     (if py_eq action (PStr ''search_chunks'') then
        Some (bindE (validated (vd_search vd req)) (\<lambda>a. bindE (vec_search_chunks env vs s a) (\<lambda>r. Inr (RResults r))), s)
      else if py_eq action (PStr ''upsert_chunks'') then
        (case vd_upsert vd req of
           None \<Rightarrow> Some (Inl EValidation, s)
         | Some (chunks, outcome, target) \<Rightarrow>
             (case vec_upsert_chunks env vs s chunks outcome target of (r, s') \<Rightarrow>
                Some (bindE r (\<lambda>u. Inr (RUpserted u)), s')))
      else if py_eq action (PStr ''delete_chunks'') then
        (case vd_delete vd req of
           None \<Rightarrow> Some (Inl EValidation, s)
         | Some (filters, outcome) \<Rightarrow>
             (case vec_delete_chunks env vs s filters of (r, s') \<Rightarrow>
                Some (bindE r (\<lambda>n. Inr (RDeleted n (vs_collection vs) filters outcome)), s')))
      else if py_eq action (PStr ''initialize_collection'') then
        (case vs_initialize vs s of (r, s') \<Rightarrow> Some (bindE (mapInl EPy r) (\<lambda>n. Inr (RInitialized n)), s'))
      else if py_eq action (PStr ''verify_chunk_ids'') then
        (case vd_verify vd req of
           None \<Rightarrow> Some (Inl EValidation, s)
         | Some (chunk_ids, file_ids) \<Rightarrow>
             map_option (\<lambda>r. (bindE r (\<lambda>(vc, vf). Inr (RVerified (vs_collection vs) vc vf)), s))
               (vec_verify_chunk_ids env vs s chunk_ids file_ids))
      else if py_eq action (PStr ''get_metrics'') then
        Some (bindE (vec_collection_metrics env vs s) (\<lambda>(name, n). Inr (RMetrics name n)), s)
      else Some (Inl EInvalid, s))"

text \<open>The exceptions that the dispatchers turn into replies.\<close>

definition handled :: "vec_exn \<Rightarrow> bool" where
  "handled e \<longleftrightarrow> e \<in> {EValidation, EInvalid, EStore}"

definition process_request ::
  "vec_config \<Rightarrow> validators \<Rightarrow> string \<Rightarrow> string \<Rightarrow> vec_env \<Rightarrow> 's vstore \<Rightarrow> 's \<Rightarrow> pyval \<Rightarrow> ((vec_exn + rpc_reply) \<times> 's) option" where
  "process_request cfg vd now fresh env vs s body =
     (let raw = (case body of PDict d \<Rightarrow> d | _ \<Rightarrow> []);
          fail = (\<lambda>action e s. (if handled e then Inr (build_rpc_error fresh raw action) else Inl e, s)) in
      case normalize_request cfg (ve_codec env) now fresh (vc_request_topic cfg) raw of
        Inl e \<Rightarrow> Some (fail (dget_default raw ''action'' (PStr ''unknown'')) e s)
      | Inr req \<Rightarrow>
          (let action = claim req ''action'' in
           map_option (\<lambda>(r, s'). case r of
               Inl e \<Rightarrow> fail action e s'
             | Inr payload \<Rightarrow> (Inr (build_rpc_success req action payload), s'))
             (rpc_action vd env vs s req action)))"

section \<open>The Kafka dispatcher\<close>

text \<open>What the handlers publish: replies, completion events and stage updates for the files service.\<close>

datatype kafka_msg =
    KReply pyval pyval pyval bool rpc_payload
  | KCompleted string pyval nat nat pyval
  | KStage string pyval

definition success_reply :: "claims \<Rightarrow> string \<Rightarrow> rpc_payload \<Rightarrow> kafka_msg list" where
  "success_reply req action payload =
     (if \<not> truthy (claim req ''reply_to'') then []
      else [KReply (claim req ''reply_to'') (PStr action) (claim req ''correlation_id'') True payload])"

definition stage_updates :: "pyval \<Rightarrow> kafka_msg list" where
  "stage_updates file_id = (if \<not> truthy file_id then [] else map (\<lambda>stage. KStage stage file_id) [''semantic'', ''vector''])"

definition upsert_messages :: "claims \<Rightarrow> upsert_result \<Rightarrow> kafka_msg list" where
  "upsert_messages req u =
     success_reply req ''upsert_chunks'' (RUpserted u)
     @ [KCompleted ''success'' (PStr (ur_review_outcome u)) (ur_upserted u) (ur_deleted u) (claim req ''correlation_id'')]
     @ stage_updates (ur_file_id u)"

text \<open>The operation that a topic and an action stand for.\<close>

definition kafka_operation :: "vec_config \<Rightarrow> validators \<Rightarrow> string \<Rightarrow> claims \<Rightarrow> vec_exn + string" where
  "kafka_operation cfg vd topic req =
     (let action = claim req ''action'' in
      if topic = vc_upsert_topic cfg then Inr ''upsert_chunks''
      else if topic = vc_delete_topic cfg then Inr ''delete_chunks''
      else if topic \<noteq> vc_request_topic cfg then Inl EInvalid
      else if py_eq action (PStr ''search_chunks'') then Inr ''search_chunks''
      else if py_eq action (PStr ''upsert_chunks'') then Inr ''upsert_chunks''
      else if py_eq action (PStr ''delete_chunks'') then Inr ''delete_chunks''
      else if py_eq action (PStr ''initialize_collection'')
        then (if vd_initialize vd req then Inr ''initialize_collection'' else Inl EValidation)
      else if py_eq action (PStr ''verify_chunk_ids'') then Inr ''verify_chunk_ids''
      else Inl EInvalid)"

definition kafka_handler ::
  "validators \<Rightarrow> vec_env \<Rightarrow> 's vstore \<Rightarrow> 's \<Rightarrow> claims \<Rightarrow> string \<Rightarrow> ((vec_exn + kafka_msg list) \<times> 's) option" where
  "kafka_handler vd env vs s req action =
     map_option (\<lambda>(r, s'). (bindE r (\<lambda>payload. Inr (case payload of
         RUpserted u \<Rightarrow> upsert_messages req u
       | _ \<Rightarrow> success_reply req action payload)), s'))
       (rpc_action vd env vs s req (PStr action))"

definition error_reply :: "validators \<Rightarrow> claims \<Rightarrow> pyval \<Rightarrow> vec_exn + kafka_msg list" where
  "error_reply vd ctx action =
     (if \<not> truthy (claim ctx ''reply_to'') then Inr []
      else if list_all (vd_str vd) [action, claim ctx ''source_service'', claim ctx ''request_id'', claim ctx ''trace_id'',
             claim ctx ''correlation_id'']
      then Inr [KReply (claim ctx ''reply_to'') action (claim ctx ''correlation_id'') False RError]
      else Inl EValidation)"

definition error_completed :: "validators \<Rightarrow> claims \<Rightarrow> vec_exn + kafka_msg list" where
  "error_completed vd ctx =
     (let payload = (case claim ctx ''payload'' of PDict p \<Rightarrow> p | _ \<Rightarrow> []);
          outcome = dget_default payload ''review_outcome'' (PStr ''none'') in
      if list_all (vd_str vd) [claim ctx ''source_service'', claim ctx ''request_id'', claim ctx ''trace_id'',
           claim ctx ''correlation_id'', outcome]
      then Inr [KCompleted ''error'' outcome 0 0 (claim ctx ''correlation_id'')]
      else Inl EValidation)"

text \<open>The \<open>except\<close> branch; a validation error of its own messages escapes.\<close>

definition kafka_error ::
  "vec_config \<Rightarrow> validators \<Rightarrow> codec \<Rightarrow> string \<Rightarrow> string \<Rightarrow> string \<Rightarrow> claims \<Rightarrow> claims option \<Rightarrow> pyval \<Rightarrow> vec_exn
   \<Rightarrow> (vec_exn + unit) \<times> kafka_msg list" where
  "kafka_error cfg vd c now fresh topic raw normalized action e =
     (if \<not> handled e then (Inl e, [])
      else
        case (case normalized of
                Some req \<Rightarrow> Inr req
              | None \<Rightarrow> mapInl EPy (build_envelope_context cfg c now fresh topic raw action)) of
          Inl e' \<Rightarrow> (Inl e', [])
        | Inr ctx \<Rightarrow>
            (case error_reply vd ctx (py_or action (PStr ''unknown'')) of
               Inl e' \<Rightarrow> (Inl e', [])
             | Inr ms \<Rightarrow>
                 if py_eq action (PStr ''upsert_chunks'')
                 then (case error_completed vd ctx of Inl e' \<Rightarrow> (Inl e', ms) | Inr ms' \<Rightarrow> (Inr (), ms @ ms'))
                 else (Inr (), ms)))"

definition process_kafka_message ::
  "vec_config \<Rightarrow> validators \<Rightarrow> string \<Rightarrow> string \<Rightarrow> vec_env \<Rightarrow> 's vstore \<Rightarrow> 's \<Rightarrow> string \<Rightarrow> pyval
   \<Rightarrow> ((vec_exn + unit) \<times> kafka_msg list \<times> 's) option" where
  "process_kafka_message cfg vd now fresh env vs s topic request =
     (let raw = (case request of PDict d \<Rightarrow> d | _ \<Rightarrow> []);
          fail = kafka_error cfg vd (ve_codec env) now fresh topic raw in
      case normalize_request cfg (ve_codec env) now fresh topic raw of
        Inl e \<Rightarrow> (case fail None (dget_default raw ''action'' (PStr ''unknown'')) e of (r, ms) \<Rightarrow> Some (r, ms, s))
      | Inr req \<Rightarrow>
          (case kafka_operation cfg vd topic req of
             Inl e \<Rightarrow> (case fail (Some req) (claim req ''action'') e of (r, ms) \<Rightarrow> Some (r, ms, s))
           | Inr op \<Rightarrow>
               map_option (\<lambda>(r, s'). case r of
                   Inr ms \<Rightarrow> (Inr (), ms, s')
                 | Inl e \<Rightarrow> (case fail (Some req) (claim req ''action'') e of (r, ms) \<Rightarrow> (r, ms, s')))
                 (kafka_handler vd env vs s req op)))"

section \<open>Types of envelopes\<close>

datatype field_type = TText | TId | TOptText | TObject

fun is_text :: "pyval \<Rightarrow> bool" where
  "is_text (PStr _) = True"
| "is_text _ = False"

fun has_type :: "pyval \<Rightarrow> field_type \<Rightarrow> bool" where
  "has_type v TText = is_text v"
| "has_type v TId = (is_text v \<and> truthy v)"
| "has_type v TOptText = (v = PNone \<or> is_text v)"
| "has_type v TObject = (case v of PDict _ \<Rightarrow> True | _ \<Rightarrow> False)"

text \<open>The fields of \<open>KafkaEnvelopeBase\<close> with the payload, in the order the service builds them.\<close>

definition envelope_schema :: "(string \<times> field_type) list" where
  "envelope_schema = [(''message_id'', TId), (''message_type'', TId), (''action'', TId), (''source_service'', TText),
     (''target_service'', TText), (''request_id'', TId), (''trace_id'', TId), (''correlation_id'', TId),
     (''reply_to'', TOptText), (''stream_to'', TOptText), (''timestamp'', TText), (''payload'', TObject)]"

definition well_typed :: "claims \<Rightarrow> bool" where
  "well_typed env \<longleftrightarrow> list_all2 (\<lambda>(k, v) (k', ty). k = k' \<and> has_type v ty) env envelope_schema"

text \<open>What is asked of a message: the envelope fields that it has are strings.\<close>

definition string_fields :: "claims \<Rightarrow> bool" where
  "string_fields r \<longleftrightarrow> list_all (\<lambda>k. has_type (claim r k) TOptText)
     [''message_id'', ''message_type'', ''action'', ''source_service'', ''target_service'', ''request_id'', ''trace_id'',
      ''correlation_id'', ''reply_to'', ''stream_to'']"

lemma py_or_text: "has_type a TOptText \<Longrightarrow> has_type b ty \<Longrightarrow> ty \<in> {TText, TId} \<Longrightarrow> has_type (py_or a b) ty"
  by (cases a) (auto simp: py_or_def)

lemma infer_source_text: "has_type v TOptText \<Longrightarrow> \<exists>s. infer_source_service v = Inr s"
  by (cases v) (auto simp: infer_source_service_def)

lemma infer_action_text: "string_fields r \<Longrightarrow> is_text (infer_action cfg topic r)"
  by (cases "claim r ''action''") (auto simp: string_fields_def infer_action_def Let_def)

lemma normalize_delete_types:
  assumes "normalize_delete_topic_request r a mt p = (a', mt', p')" "is_text a" "has_type mt TId"
  shows "is_text a'" "has_type mt' TId"
  using assms by (auto simp: normalize_delete_topic_request_def Let_def split: if_splits)

lemma normalized_action:
  assumes "normalize_delete_topic_request r a mt p = (a', mt', p')" "truthy a" shows "truthy a'"
  using assms by (auto simp: normalize_delete_topic_request_def Let_def split: if_splits)

lemma build_envelope_types:
  assumes r: "string_fields r" and a: "is_text act \<or> act = PNone" and fresh: "fresh \<noteq> []"
    and e: "e = py_or act (infer_action cfg topic r)"
  shows "\<exists>env. build_envelope_context cfg c now fresh topic r act = Inr env
    \<and> (truthy e \<longrightarrow> well_typed env \<and> truthy (claim env ''action''))
    \<and> (\<not> truthy e \<and> topic \<noteq> vc_delete_topic cfg \<longrightarrow> \<not> truthy (claim env ''action''))"
proof -
  define mt where "mt = py_or (claim r ''message_type'') (infer_message_type e)"
  define pl where "pl = (case claim r ''payload'' of PDict p \<Rightarrow> p | _ \<Rightarrow> extract_legacy_payload e r)"
  obtain a' mt' p' where n: "(if topic = vc_delete_topic cfg then normalize_delete_topic_request r e mt pl else (e, mt, pl)) = (a', mt', p')"
    by (metis prod_cases3)
  have f: "\<And>k. k \<in> set [''message_id'', ''message_type'', ''action'', ''source_service'', ''target_service'', ''request_id'',
      ''trace_id'', ''correlation_id'', ''reply_to'', ''stream_to''] \<Longrightarrow> has_type (claim r k) TOptText"
    using r unfolding string_fields_def list_all_iff by (rule bspec)
  have "is_text e" using infer_action_text [OF r] a e by (auto simp: py_or_def)
  moreover have mt: "has_type mt TId"
    unfolding mt_def by (rule py_or_text [OF f]) (auto simp: infer_message_type_def)
  ultimately have ty: "is_text a'" "has_type mt' TId"
    using n normalize_delete_types [of r e mt pl a' mt' p'] by (auto split: if_splits)
  define src where "src = (if truthy (claim r ''source_service'') then Inr (claim r ''source_service'')
      else bindE (infer_source_service (claim r ''reply_to'')) (\<lambda>s. Inr (PStr s)))"
  have src: "\<exists>s. src = Inr s \<and> has_type s TText"
    using f [of "''source_service''"] infer_source_text [OF f [of "''reply_to''"]]
    by (cases "claim r ''source_service''") (auto simp: src_def)
  have ids: "has_type (py_or (claim r ''message_id'') (PStr fresh)) TId"
    using fresh by (intro py_or_text f) auto
  obtain s where s: "src = Inr s" "has_type s TText" using src by auto
  define mid where "mid = py_or (claim r ''message_id'') (PStr fresh)"
  define cid where "cid = py_or (claim r ''correlation_id'') mid"
  define rid where "rid = py_or (claim r ''request_id'') cid"
  define env where "env = [(''message_id'', mid), (''message_type'', mt'), (''action'', a'), (''source_service'', s),
      (''target_service'', py_or (claim r ''target_service'') (PStr (vc_service_name cfg))),
      (''request_id'', rid), (''trace_id'', py_or (claim r ''trace_id'') rid), (''correlation_id'', cid),
      (''reply_to'', claim r ''reply_to''), (''stream_to'', claim r ''stream_to''),
      (''timestamp'', PStr (if claim r ''timestamp'' = PNone then now else py_str c (claim r ''timestamp''))),
      (''payload'', PDict p')]"
  have b: "build_envelope_context cfg c now fresh topic r act = Inr env"
    unfolding build_envelope_context_def Let_def e [symmetric] pl_def [symmetric] mt_def [symmetric] n
      src_def [symmetric] s(1) bindE_simps env_def mid_def cid_def rid_def prod.case ..
  have mid: "has_type mid TId" using ids by (simp add: mid_def)
  have cid: "has_type cid TId" unfolding cid_def by (rule py_or_text [OF f mid]) simp_all
  have rid: "has_type rid TId" unfolding rid_def by (rule py_or_text [OF f cid]) simp_all
  have tid: "has_type (py_or (claim r ''trace_id'') rid) TId" by (rule py_or_text [OF f rid]) simp_all
  have tgt: "has_type (py_or (claim r ''target_service'') (PStr (vc_service_name cfg))) TText"
    by (rule py_or_text [OF f]) simp_all
  have act: "truthy e \<Longrightarrow> truthy a'" using n normalized_action [of r e mt pl a' mt' p'] by (auto split: if_splits)
  have "truthy a' \<Longrightarrow> well_typed env"
    using mid cid rid tid tgt ty s(2) f [of "''reply_to''"] f [of "''stream_to''"]
    unfolding well_typed_def env_def envelope_schema_def by simp
  moreover have "claim env ''action'' = a'" by (simp add: env_def claim_def)
  moreover have "\<not> truthy e \<and> topic \<noteq> vc_delete_topic cfg \<Longrightarrow> \<not> truthy a'" using n by auto
  ultimately show ?thesis using b act by auto
qed


definition default_config :: vec_config where
  "default_config = \<lparr>vc_service_name = ''vector_db'', vc_request_topic = ''vector_db.requests'',
     vc_upsert_topic = ''vector_db.upsert.requested'', vc_delete_topic = ''vector_db.delete.requested''\<rparr>"


section \<open>Completion events\<close>

lemma normalized_types:
  assumes "string_fields r" "fresh \<noteq> []" "normalize_request cfg c now fresh topic r = Inr env" "topic \<noteq> vc_delete_topic cfg"
  shows "well_typed env"
proof -
  obtain e where b: "build_envelope_context cfg c now fresh topic r PNone = Inr e"
    and t: "truthy (py_or PNone (infer_action cfg topic r)) \<longrightarrow> well_typed e"
      "\<not> truthy (py_or PNone (infer_action cfg topic r)) \<longrightarrow> \<not> truthy (claim e ''action'')"
    using build_envelope_types [OF assms(1) _ assms(2) refl, where act = PNone and cfg = cfg and topic = topic and c = c and now = now]
      assms(4) by blast
  with assms(3) show ?thesis by (auto simp: normalize_request_def mapInl_def split: if_splits)
qed

lemma well_typed_fields:
  assumes "well_typed env"
  shows "is_text (claim env ''source_service'')" "is_text (claim env ''request_id'')" "is_text (claim env ''trace_id'')"
    "is_text (claim env ''correlation_id'')"
  using assms unfolding well_typed_def envelope_schema_def
  by (auto simp: list_all2_Cons2 claim_def)

fun is_completed :: "kafka_msg \<Rightarrow> bool" where
  "is_completed (KCompleted _ _ _ _ _) = True"
| "is_completed _ = False"

lemma completed_upsert_messages:
  "filter is_completed (upsert_messages req u)
   = [KCompleted ''success'' (PStr (ur_review_outcome u)) (ur_upserted u) (ur_deleted u) (claim req ''correlation_id'')]"
  by (simp add: upsert_messages_def success_reply_def stage_updates_def)

lemma kafka_error_completed:
  assumes "well_typed req" "claim req ''action'' = PStr ''upsert_chunks''" "\<forall>s. vd_str vd (PStr s)" "handled e"
    and "claim req ''payload'' = PDict p" "dget_default p ''review_outcome'' (PStr ''none'') = PStr outcome"
  shows "\<exists>ms. kafka_error cfg vd c now fresh topic raw (Some req) (PStr ''upsert_chunks'') e = (Inr (), ms)
    \<and> filter is_completed ms = [KCompleted ''error'' (PStr outcome) 0 0 (claim req ''correlation_id'')]"
proof -
  have v: "is_text v \<Longrightarrow> vd_str vd v" for v using assms(3) by (cases v) auto
  note ok = well_typed_fields [OF assms(1), THEN v]
  have "error_completed vd req = Inr [KCompleted ''error'' (PStr outcome) 0 0 (claim req ''correlation_id'')]"
    using ok assms(3,5,6) by (simp add: error_completed_def)
  moreover have "\<exists>ms. error_reply vd req (PStr ''upsert_chunks'') = Inr ms \<and> filter is_completed ms = []"
    using ok assms(3) by (simp add: error_reply_def)
  ultimately show ?thesis using assms(4) by (auto simp: kafka_error_def py_or_def)
qed


definition refusing_validators :: validators where
  "refusing_validators = \<lparr>vd_search = (\<lambda>_. None), vd_upsert = (\<lambda>_. None), vd_delete = (\<lambda>_. None), vd_verify = (\<lambda>_. None),
     vd_initialize = (\<lambda>_. False), vd_str = is_text\<rparr>"

definition demo_service_env :: vec_env where
  "demo_service_env = \<lparr>ve_codec = sample_codec [], ve_numpy = \<lparr>np_asarray = (\<lambda>v. Inr [1]), np_norm = (\<lambda>v. 1), np_dot = (\<lambda>u v. Inr 1)\<rparr>,
     ve_auth_required = ''false'', ve_context = [], ve_closed = False\<rparr>"


end
