(* ===== verification/Gateway_Auth.thy ===== *)
theory Gateway_Auth
  imports Auth
begin

text \<open>
  \<open>backend/gateway/app/services/auth_service.py\<close>: tenants, users, opaque sessions and audit
  events of the gateway.  A MongoDB collection is its documented behaviour on a list of
  documents: \<open>find_one\<close> and \<open>update_one\<close> take the first match, an insert that violates a
  unique index of \<open>ensure_indexes\<close> fails.  Times are seconds as reals; the clock, random
  tokens, identifiers and salts are arguments, \<open>casefold\<close> and the primitives of
  \<open>shared/auth.py\<close> are those of the configuration.
\<close>

section \<open>Documents\<close>

record auth_user =
  au_id :: string
  au_tenant :: string
  au_admin :: "string option"
  au_email :: string
  au_name :: string
  au_role :: string
  au_status :: string
  au_hash :: string
  au_failed :: int
  au_lock :: "real option"

record auth_session =
  as_id :: string
  as_token :: string
  as_csrf :: string
  as_tenant :: string
  as_user :: string
  as_last_seen :: real
  as_expires :: real
  as_revoked :: "real option"

record auth_tenant =
  at_id :: string
  at_slug :: string
  at_name :: string
  at_status :: string

record audit_event =
  ae_tenant :: string
  ae_actor :: string
  ae_action :: string
  ae_target :: "string option"

record auth_db =
  db_users :: "auth_user list"
  db_tenants :: "auth_tenant list"
  db_sessions :: "auth_session list"
  db_audit :: "audit_event list"

record gw_config =
  gc_codec :: codec
  gc_casefold :: "string \<Rightarrow> string"
  gc_auth_required :: bool
  gc_password_pepper :: string
  gc_session_pepper :: string
  gc_session_ttl :: int
  gc_tenant_id :: string
  gc_tenant_name :: string
  gc_admin_email :: string
  gc_admin_password :: string
  gc_internal_secret :: string
  gc_ticket_ttl :: int
  gc_dummy_hash :: string

text \<open>What an operation takes from the clock and the random sources.\<close>

record fresh =
  fr_now :: real
  fr_id :: string
  fr_token :: string
  fr_csrf :: string
  fr_salt :: string

datatype gw_exn = AuthenticationFailed | AccountLocked | UserConflict | GwAuth auth_error | DuplicateKey

definition MAX_FAILED_LOGINS :: int where "MAX_FAILED_LOGINS = 5"
definition DEFAULT_PASSWORD_ITERATIONS :: nat where "DEFAULT_PASSWORD_ITERATIONS = 600000"
definition LOCKOUT_SECONDS :: real where "LOCKOUT_SECONDS = 15 * 60"

section \<open>Helpers\<close>

text \<open>\<open>hexdigest\<close> writes two hexadecimal digits for each byte of the digest.\<close>

definition hex_digit :: "nat \<Rightarrow> char" where
  "hex_digit n = ''0123456789abcdef'' ! n"

definition hexdigest :: "string \<Rightarrow> string" where
  "hexdigest bs = concat (map (\<lambda>ch. [hex_digit (of_char ch div 16), hex_digit (of_char ch mod 16)]) bs)"

definition token_digest :: "gw_config \<Rightarrow> string \<Rightarrow> string" where
  "token_digest g token = hexdigest (cd_hmac (gc_codec g) (gc_session_pepper g) token)"

definition gw_hash :: "gw_config \<Rightarrow> fresh \<Rightarrow> string \<Rightarrow> gw_exn + string" where
  "gw_hash g fr password = (case hash_password (gc_codec g) (fr_salt fr) password (gc_password_pepper g) DEFAULT_PASSWORD_ITERATIONS of
     Inl e \<Rightarrow> Inl (GwAuth e) | Inr h \<Rightarrow> Inr h)"

definition normalize_email :: "gw_config \<Rightarrow> string \<Rightarrow> string" where
  "normalize_email g email = gc_casefold g (strip email)"

definition slug_char :: "char \<Rightarrow> bool" where
  "slug_char ch \<longleftrightarrow> (CHR ''a'' \<le> ch \<and> ch \<le> CHR ''z'') \<or> (CHR ''0'' \<le> ch \<and> ch \<le> CHR ''9'')"

text \<open>\<open>re.sub(r"[^a-z0-9]+", "-", s)\<close>; \<open>gap\<close>: the last character was replaced.\<close>

fun sub_runs :: "bool \<Rightarrow> string \<Rightarrow> string" where
  "sub_runs gap [] = []"
| "sub_runs gap (ch # s) =
     (if slug_char ch then ch # sub_runs False s
      else if gap then sub_runs True s
      else CHR ''-'' # sub_runs True s)"

definition strip_dash :: "string \<Rightarrow> string" where
  "strip_dash s = rev (dropWhile (\<lambda>ch. ch = CHR ''-'') (rev (dropWhile (\<lambda>ch. ch = CHR ''-'') s)))"

definition slugify :: "gw_config \<Rightarrow> string \<Rightarrow> gw_exn + string" where
  "slugify g tenant = (let slug = strip_dash (sub_runs False (gc_casefold g (strip tenant))) in
     if slug = [] then Inl (GwAuth (auth_err ''tenant identifier is invalid'')) else Inr (take 100 slug))"

definition require_admin :: "auth_identity \<Rightarrow> gw_exn + unit" where
  "require_admin actor = (if \<not> is_admin actor then Inl (GwAuth (auth_err ''Administrator role required'')) else Inr ())"

definition gw_identity :: "auth_user \<Rightarrow> string \<Rightarrow> gw_exn + auth_identity" where
  "gw_identity u session_id = (case identity_check
       \<lparr>id_tenant = au_tenant u, id_user = au_id u, id_role = au_role u, id_email = Some (au_email u),
        id_admin = au_admin u, id_session = Some session_id\<rparr> of
     Inl e \<Rightarrow> Inl (GwAuth e) | Inr i \<Rightarrow> Inr i)"

record public_user =
  pu_id :: string
  pu_tenant :: string
  pu_admin :: "string option"
  pu_email :: string
  pu_name :: string
  pu_role :: string
  pu_status :: string

definition to_public :: "auth_user \<Rightarrow> public_user" where
  "to_public u = \<lparr>pu_id = au_id u, pu_tenant = au_tenant u, pu_admin = au_admin u, pu_email = au_email u,
     pu_name = (if au_name u = [] then au_email u else au_name u), pu_role = au_role u, pu_status = au_status u\<rparr>"

definition audit :: "string \<Rightarrow> string \<Rightarrow> string \<Rightarrow> string option \<Rightarrow> auth_db \<Rightarrow> auth_db" where
  "audit tenant actor action target db =
     db\<lparr>db_audit := db_audit db @ [\<lparr>ae_tenant = tenant, ae_actor = actor, ae_action = action, ae_target = target\<rparr>]\<rparr>"

text \<open>\<open>update_one\<close>, \<open>delete_one\<close> and the inserts.\<close>

fun update_first :: "('a \<Rightarrow> bool) \<Rightarrow> ('a \<Rightarrow> 'a) \<Rightarrow> 'a list \<Rightarrow> 'a list" where
  "update_first P f [] = []"
| "update_first P f (x # xs) = (if P x then f x # xs else x # update_first P f xs)"

fun delete_first :: "('a \<Rightarrow> bool) \<Rightarrow> 'a list \<Rightarrow> 'a list" where
  "delete_first P [] = []"
| "delete_first P (x # xs) = (if P x then xs else x # delete_first P xs)"

definition update_user :: "string \<Rightarrow> (auth_user \<Rightarrow> auth_user) \<Rightarrow> auth_db \<Rightarrow> auth_db" where
  "update_user uid f db = db\<lparr>db_users := update_first (\<lambda>u. au_id u = uid) f (db_users db)\<rparr>"

definition insert_user :: "auth_user \<Rightarrow> auth_db \<Rightarrow> gw_exn + auth_db" where
  "insert_user u db =
     (if list_ex (\<lambda>v. au_id v = au_id u \<or> au_tenant v = au_tenant u \<and> au_email v = au_email u) (db_users db)
      then Inl DuplicateKey else Inr (db\<lparr>db_users := db_users db @ [u]\<rparr>))"

definition insert_tenant :: "auth_tenant \<Rightarrow> auth_db \<Rightarrow> gw_exn + auth_db" where
  "insert_tenant t db =
     (if list_ex (\<lambda>v. at_id v = at_id t \<or> at_slug v = at_slug t) (db_tenants db)
      then Inl DuplicateKey else Inr (db\<lparr>db_tenants := db_tenants db @ [t]\<rparr>))"

definition insert_session :: "auth_session \<Rightarrow> auth_db \<Rightarrow> gw_exn + auth_db" where
  "insert_session s db =
     (if list_ex (\<lambda>v. as_token v = as_token s) (db_sessions db)
      then Inl DuplicateKey else Inr (db\<lparr>db_sessions := db_sessions db @ [s]\<rparr>))"

section \<open>Set-up\<close>

definition new_admin :: "gw_config \<Rightarrow> fresh \<Rightarrow> string \<Rightarrow> string \<Rightarrow> string \<Rightarrow> string \<Rightarrow> auth_user" where
  "new_admin g fr tenant email name h =
     \<lparr>au_id = fr_id fr, au_tenant = tenant, au_admin = Some (fr_id fr), au_email = email,
      au_name = (if strip name = [] then ''Administrator'' else strip name), au_role = ROLE_ADMIN, au_status = ''active'',
      au_hash = h, au_failed = 0, au_lock = None\<rparr>"

text \<open>The tenant of the first administrator: inserted, or kept from a set-up that crashed.\<close>

definition setup_tenant :: "gw_config \<Rightarrow> string \<Rightarrow> auth_db \<Rightarrow> gw_exn + auth_db" where
  "setup_tenant g slug db =
     (let tenant_id = strip (gc_tenant_id g) in
      case insert_tenant \<lparr>at_id = tenant_id, at_slug = slug, at_name = strip (gc_tenant_name g), at_status = ''active''\<rparr> db of
        Inr db' \<Rightarrow> Inr db'
      | Inl e \<Rightarrow>
          if db_users db \<noteq> [] then Inl UserConflict
          else if \<not> list_ex (\<lambda>t. at_id t = tenant_id \<and> at_status t = ''active'') (db_tenants db) then Inl e
          else Inr db)"

definition create_initial_admin ::
  "gw_config \<Rightarrow> fresh \<Rightarrow> auth_db \<Rightarrow> string \<Rightarrow> string \<Rightarrow> string \<Rightarrow> string \<Rightarrow> (gw_exn + public_user) \<times> auth_db" where
  "create_initial_admin g fr db email password name action =
     (let tenant_id = strip (gc_tenant_id g) in
      case slugify g tenant_id of
        Inl e \<Rightarrow> (Inl e, db)
      | Inr slug \<Rightarrow>
          (case setup_tenant g slug db of
             Inl e \<Rightarrow> (Inl e, db)
           | Inr db1 \<Rightarrow>
               (case gw_hash g fr password of
                  Inl e \<Rightarrow> (Inl e, db1)
                | Inr h \<Rightarrow>
                    (let u = new_admin g fr tenant_id (normalize_email g email) name h in
                     case insert_user u db1 of
                       Inl e \<Rightarrow> (Inl e, db1)
                     | Inr db2 \<Rightarrow> (Inr (to_public u), audit tenant_id (au_id u) action (Some (au_id u)) db2)))))"

definition bootstrap_admin :: "gw_config \<Rightarrow> fresh \<Rightarrow> auth_db \<Rightarrow> (gw_exn + unit) \<times> auth_db" where
  "bootstrap_admin g fr db =
     (if db_users db \<noteq> [] then (Inr (), db)
      else if gc_admin_email g = [] \<or> gc_admin_password g = [] then (Inr (), db)
      else case create_initial_admin g fr db (gc_admin_email g) (gc_admin_password g) ''Administrator'' ''bootstrap_admin_created'' of
        (Inl e, db') \<Rightarrow> (Inl e, db') | (Inr _, db') \<Rightarrow> (Inr (), db'))"

definition needs_setup :: "gw_config \<Rightarrow> auth_db \<Rightarrow> bool" where
  "needs_setup g db \<longleftrightarrow> gc_auth_required g \<and> db_users db = []"

definition claim_initial_admin ::
  "gw_config \<Rightarrow> fresh \<Rightarrow> auth_db \<Rightarrow> string \<Rightarrow> string \<Rightarrow> string \<Rightarrow> (gw_exn + public_user) \<times> auth_db" where
  "claim_initial_admin g fr db email name password =
     (if db_users db \<noteq> [] then (Inl UserConflict, db)
      else create_initial_admin g fr db email password name ''initial_admin_claimed'')"

definition provision_tenant_admin ::
  "gw_config \<Rightarrow> fresh \<Rightarrow> auth_db \<Rightarrow> string \<Rightarrow> string \<Rightarrow> string \<Rightarrow> string \<Rightarrow> string \<Rightarrow> (gw_exn + auth_tenant \<times> public_user) \<times> auth_db" where
  "provision_tenant_admin g fr db tenant_id tenant_name email password name =
     (let tid = strip tenant_id in
      if tid = [] \<or> length tid > 100 then (Inl (GwAuth (auth_err ''tenant identifier is invalid'')), db)
      else case slugify g tid of
        Inl e \<Rightarrow> (Inl e, db)
      | Inr slug \<Rightarrow>
          if list_ex (\<lambda>t. at_id t = tid \<or> at_slug t = slug) (db_tenants db) then (Inl UserConflict, db)
          else
            (let t = \<lparr>at_id = tid, at_slug = slug, at_name = (if strip tenant_name = [] then tid else strip tenant_name),
                      at_status = ''active''\<rparr> in
             case insert_tenant t db of
               Inl e \<Rightarrow> (Inl e, db)
             | Inr db1 \<Rightarrow>
                 (case bindE (gw_hash g fr password) (\<lambda>h.
                         bindE (insert_user (new_admin g fr tid (normalize_email g email) name h) db1) (\<lambda>db2. Inr (h, db2))) of
                    Inl e \<Rightarrow> (Inl e, db1\<lparr>db_tenants := delete_first (\<lambda>x. at_id x = tid) (db_tenants db1)\<rparr>)
                  | Inr (h, db2) \<Rightarrow>
                      (Inr (t, to_public (new_admin g fr tid (normalize_email g email) name h)),
                       audit tid (fr_id fr) ''tenant_admin_provisioned'' (Some (fr_id fr)) db2))))"

section \<open>Sessions\<close>

definition login_tenant :: "gw_config \<Rightarrow> auth_db \<Rightarrow> string \<Rightarrow> auth_tenant option" where
  "login_tenant g db tenant =
     (let tv = strip tenant;
          hits = (\<lambda>t. at_id t = tv \<or> (case slugify g tv of Inr slug \<Rightarrow> at_slug t = slug | Inl _ \<Rightarrow> False)) in
      find (\<lambda>t. hits t \<and> at_status t = ''active'') (db_tenants db))"

definition login_user :: "gw_config \<Rightarrow> auth_db \<Rightarrow> string \<Rightarrow> string \<Rightarrow> auth_user option" where
  "login_user g db tenant email =
     (case login_tenant g db tenant of
        None \<Rightarrow> None
      | Some t \<Rightarrow> find (\<lambda>u. au_tenant u = at_id t \<and> au_email u = normalize_email g email) (db_users db))"

definition locked :: "real \<Rightarrow> auth_user \<Rightarrow> bool" where
  "locked now u = (case au_lock u of Some t \<Rightarrow> t > now | None \<Rightarrow> False)"

text \<open>The update of a user after a refused attempt.\<close>

definition count_failure :: "real \<Rightarrow> auth_user \<Rightarrow> auth_user" where
  "count_failure now u =
     (let failed = au_failed u + 1 in
      if failed \<ge> MAX_FAILED_LOGINS then u\<lparr>au_failed := 0, au_lock := Some (now + LOCKOUT_SECONDS)\<rparr>
      else u\<lparr>au_failed := failed\<rparr>)"

definition new_session :: "gw_config \<Rightarrow> fresh \<Rightarrow> auth_user \<Rightarrow> auth_session" where
  "new_session g fr u =
     \<lparr>as_id = fr_id fr, as_token = token_digest g (fr_token fr), as_csrf = token_digest g (fr_csrf fr),
      as_tenant = au_tenant u, as_user = au_id u, as_last_seen = fr_now fr,
      as_expires = fr_now fr + of_int (gc_session_ttl g), as_revoked = None\<rparr>"

definition login ::
  "gw_config \<Rightarrow> fresh \<Rightarrow> auth_db \<Rightarrow> string \<Rightarrow> string \<Rightarrow> string
   \<Rightarrow> (gw_exn + string \<times> string \<times> auth_identity \<times> public_user) \<times> auth_db" where
  "login g fr db tenant email password =
     (let user = login_user g db tenant email;
          candidate_hash = (case user of Some u \<Rightarrow> au_hash u | None \<Rightarrow> gc_dummy_hash g);
          valid = verify_password (gc_codec g) password candidate_hash (gc_password_pepper g) in
      case user of
        None \<Rightarrow> (Inl AuthenticationFailed, db)
      | Some u \<Rightarrow>
          (if locked (fr_now fr) u
           then (Inl AccountLocked, audit (au_tenant u) (au_id u) ''login_locked'' None db)
           else if \<not> valid \<or> au_status u \<noteq> ''active''
           then (Inl AuthenticationFailed,
                 audit (au_tenant u) (au_id u) ''login_failed'' None (update_user (au_id u) (count_failure (fr_now fr)) db))
           else
             (let db1 = update_user (au_id u) (\<lambda>v. v\<lparr>au_failed := 0, au_lock := None\<rparr>) db in
              case insert_session (new_session g fr u) db1 of
                Inl e \<Rightarrow> (Inl e, db1)
              | Inr db2 \<Rightarrow>
                  (case gw_identity u (fr_id fr) of
                     Inl e \<Rightarrow> (Inl e, db2)
                   | Inr i \<Rightarrow> (Inr (fr_token fr, fr_csrf fr, i, to_public u),
                              audit (au_tenant u) (au_id u) ''login_succeeded'' None db2)))))"

text \<open>The check of cookie, header and digest of a request that changes state.\<close>

definition csrf_ok :: "gw_config \<Rightarrow> auth_session \<Rightarrow> string option \<Rightarrow> string option \<Rightarrow> bool" where
  "csrf_ok g s cookie header =
     (case (cookie, header) of
        (Some ck, Some he) \<Rightarrow> ck \<noteq> [] \<and> he \<noteq> [] \<and> ck = he \<and> as_csrf s \<noteq> [] \<and> as_csrf s = token_digest g he
      | _ \<Rightarrow> False)"

definition development_identity :: "gw_config \<Rightarrow> auth_identity" where
  "development_identity g =
     \<lparr>id_tenant = gc_tenant_id g, id_user = ''local-development-admin'', id_role = ROLE_ADMIN,
      id_email = Some ''local-admin@localhost'', id_admin = Some ''local-development-admin'',
      id_session = Some ''local-development-session''\<rparr>"

definition live_session :: "gw_config \<Rightarrow> real \<Rightarrow> auth_db \<Rightarrow> string \<Rightarrow> auth_session option" where
  "live_session g now db token =
     find (\<lambda>s. as_token s = token_digest g token \<and> as_expires s > now \<and> as_revoked s = None) (db_sessions db)"

text \<open>The user document returned while authentication is switched off has no \<open>admin_id\<close>.\<close>

definition development_user :: "auth_identity \<Rightarrow> public_user" where
  "development_user i =
     \<lparr>pu_id = id_user i, pu_tenant = id_tenant i, pu_admin = None, pu_email = (case id_email i of Some e \<Rightarrow> e | None \<Rightarrow> []),
      pu_name = ''Local Administrator'', pu_role = id_role i, pu_status = ''active''\<rparr>"

definition authenticate_session ::
  "gw_config \<Rightarrow> fresh \<Rightarrow> auth_db \<Rightarrow> string \<Rightarrow> string option \<Rightarrow> string option \<Rightarrow> bool
   \<Rightarrow> (gw_exn + auth_identity \<times> public_user) \<times> auth_db" where
  "authenticate_session g fr db token csrf_cookie csrf_header require_csrf =
     (if \<not> gc_auth_required g
      then (case identity_check (development_identity g) of
              Inl e \<Rightarrow> (Inl (GwAuth e), db) | Inr i \<Rightarrow> (Inr (i, development_user i), db))
      else if token = [] then (Inl AuthenticationFailed, db)
      else case live_session g (fr_now fr) db token of
        None \<Rightarrow> (Inl AuthenticationFailed, db)
      | Some s \<Rightarrow>
          if require_csrf \<and> \<not> csrf_ok g s csrf_cookie csrf_header then (Inl AuthenticationFailed, db)
          else
            (case find (\<lambda>u. au_tenant u = as_tenant s \<and> au_id u = as_user s \<and> au_status u = ''active'') (db_users db) of
               None \<Rightarrow> (Inl AuthenticationFailed, db)
             | Some u \<Rightarrow>
                 (bindE (gw_identity u (as_id s)) (\<lambda>i. Inr (i, to_public u)),
                  if fr_now fr - as_last_seen s \<ge> 300
                  then db\<lparr>db_sessions := update_first (\<lambda>x. as_token x = as_token s) (\<lambda>x. x\<lparr>as_last_seen := fr_now fr\<rparr>) (db_sessions db)\<rparr>
                  else db)))"

definition logout :: "gw_config \<Rightarrow> fresh \<Rightarrow> auth_db \<Rightarrow> string \<Rightarrow> auth_identity \<Rightarrow> auth_db" where
  "logout g fr db token actor =
     audit (id_tenant actor) (id_user actor) ''logout'' None
       (db\<lparr>db_sessions := update_first (\<lambda>s. as_token s = token_digest g token) (\<lambda>s. s\<lparr>as_revoked := Some (fr_now fr)\<rparr>) (db_sessions db)\<rparr>)"

definition revoke_user_sessions :: "fresh \<Rightarrow> string \<Rightarrow> string \<Rightarrow> auth_db \<Rightarrow> auth_db" where
  "revoke_user_sessions fr tenant user db =
     db\<lparr>db_sessions := map (\<lambda>s. if as_tenant s = tenant \<and> as_user s = user \<and> as_revoked s = None
        then s\<lparr>as_revoked := Some (fr_now fr)\<rparr> else s) (db_sessions db)\<rparr>"

section \<open>Administration\<close>

definition create_user ::
  "gw_config \<Rightarrow> fresh \<Rightarrow> auth_db \<Rightarrow> auth_identity \<Rightarrow> string \<Rightarrow> string \<Rightarrow> string \<Rightarrow> (gw_exn + public_user) \<times> auth_db" where
  "create_user g fr db actor email name password =
     (case bindE (require_admin actor) (\<lambda>_. gw_hash g fr password) of
        Inl e \<Rightarrow> (Inl e, db)
      | Inr h \<Rightarrow>
          (let u = \<lparr>au_id = fr_id fr, au_tenant = id_tenant actor, au_admin = Some (id_user actor),
                    au_email = normalize_email g email, au_name = strip name, au_role = ROLE_USER, au_status = ''active'',
                    au_hash = h, au_failed = 0, au_lock = None\<rparr> in
           if list_ex (\<lambda>v. au_tenant v = id_tenant actor \<and> au_email v = au_email u) (db_users db) then (Inl UserConflict, db)
           else case insert_user u db of
             Inl e \<Rightarrow> (Inl e, db)
           | Inr db' \<Rightarrow> (Inr (to_public u), audit (id_tenant actor) (id_user actor) ''user_created'' (Some (au_id u)) db')))"

definition manages :: "auth_identity \<Rightarrow> auth_user \<Rightarrow> bool" where
  "manages actor u \<longleftrightarrow> au_tenant u = id_tenant actor \<and> (au_admin u = Some (id_user actor) \<or> au_id u = id_user actor)"

definition list_users :: "(auth_user \<Rightarrow> real) \<Rightarrow> auth_db \<Rightarrow> auth_identity \<Rightarrow> gw_exn + public_user list" where
  "list_users created_at db actor =
     bindE (require_admin actor) (\<lambda>_.
     Inr (map to_public (sort_key created_at (filter (manages actor) (db_users db)))))"

definition managed_user :: "auth_db \<Rightarrow> auth_identity \<Rightarrow> string \<Rightarrow> gw_exn + auth_user" where
  "managed_user db actor uid =
     bindE (require_admin actor) (\<lambda>_.
     case find (\<lambda>u. au_tenant u = id_tenant actor \<and> au_id u = uid \<and> (au_admin u = Some (id_user actor) \<or> au_id u = id_user actor))
            (db_users db) of
       None \<Rightarrow> Inl AuthenticationFailed
     | Some u \<Rightarrow> Inr u)"

definition set_user_status ::
  "fresh \<Rightarrow> auth_db \<Rightarrow> auth_identity \<Rightarrow> string \<Rightarrow> string \<Rightarrow> (gw_exn + public_user) \<times> auth_db" where
  "set_user_status fr db actor uid status =
     (case managed_user db actor uid of
        Inl e \<Rightarrow> (Inl e, db)
      | Inr u \<Rightarrow>
          if au_id u = id_user actor
          then (Inl (GwAuth (auth_err ''An administrator cannot disable their own account'')), db)
          else
            (let db1 = update_user (au_id u) (\<lambda>v. v\<lparr>au_status := status\<rparr>) db;
                 db2 = (if status = ''disabled'' then revoke_user_sessions fr (id_tenant actor) uid db1 else db1) in
             (Inr (to_public (u\<lparr>au_status := status\<rparr>)), audit (id_tenant actor) (id_user actor) (''user_'' @ status) (Some uid) db2)))"

definition set_user_password ::
  "gw_config \<Rightarrow> fresh \<Rightarrow> auth_db \<Rightarrow> auth_identity \<Rightarrow> string \<Rightarrow> string \<Rightarrow> (gw_exn + unit) \<times> auth_db" where
  "set_user_password g fr db actor uid password =
     (case bindE (managed_user db actor uid) (\<lambda>u. bindE (gw_hash g fr password) (\<lambda>h. Inr (u, h))) of
        Inl e \<Rightarrow> (Inl e, db)
      | Inr (u, h) \<Rightarrow>
          (Inr (), audit (id_tenant actor) (id_user actor) ''user_password_reset'' (Some uid)
            (revoke_user_sessions fr (id_tenant actor) uid
              (update_user (au_id u) (\<lambda>v. v\<lparr>au_hash := h, au_failed := 0, au_lock := None\<rparr>) db))))"

definition socket_ticket :: "gw_config \<Rightarrow> int \<Rightarrow> string \<Rightarrow> auth_identity \<Rightarrow> gw_exn + string" where
  "socket_ticket g now jti i = (case sign_auth_ticket (gc_codec g) i (gc_internal_secret g) ''rag''
       (min 120 (gc_ticket_ttl g * 2)) ''socket'' ''ragapp-gateway'' now jti [] of
     Inl e \<Rightarrow> Inl (GwAuth e) | Inr t \<Rightarrow> Inr t)"

section \<open>Histories\<close>

text \<open>
  The operations that change the database, in any order, by any callers.  \<open>GPurge\<close> is the
  TTL index on sessions, which removes expired ones at any time.
\<close>

datatype gw_op =
    GLogin fresh string string string
  | GAuth fresh string "string option" "string option" bool
  | GLogout fresh string auth_identity
  | GCreate fresh auth_identity string string string
  | GStatus fresh auth_identity string string
  | GPassword fresh auth_identity string string
  | GClaim fresh string string string
  | GBootstrap fresh
  | GProvision fresh string string string string string
  | GPurge real

fun gw_step :: "gw_config \<Rightarrow> gw_op \<Rightarrow> auth_db \<Rightarrow> auth_db" where
  "gw_step g (GLogin fr tenant email password) db = snd (login g fr db tenant email password)"
| "gw_step g (GAuth fr token cookie header csrf) db = snd (authenticate_session g fr db token cookie header csrf)"
| "gw_step g (GLogout fr token actor) db = logout g fr db token actor"
| "gw_step g (GCreate fr actor email name password) db = snd (create_user g fr db actor email name password)"
| "gw_step g (GStatus fr actor uid status) db = snd (set_user_status fr db actor uid status)"
| "gw_step g (GPassword fr actor uid password) db = snd (set_user_password g fr db actor uid password)"
| "gw_step g (GClaim fr email name password) db = snd (claim_initial_admin g fr db email name password)"
| "gw_step g (GBootstrap fr) db = snd (bootstrap_admin g fr db)"
| "gw_step g (GProvision fr tenant tname email password name) db = snd (provision_tenant_admin g fr db tenant tname email password name)"
| "gw_step g (GPurge now) db = db\<lparr>db_sessions := filter (\<lambda>s. as_expires s > now) (db_sessions db)\<rparr>"

definition gw_run :: "gw_config \<Rightarrow> gw_op list \<Rightarrow> auth_db \<Rightarrow> auth_db" where
  "gw_run g = fold (gw_step g)"

section \<open>What the operations leave unchanged\<close>

lemma audit_frame [simp]:
  "db_users (audit t a x y db) = db_users db" "db_tenants (audit t a x y db) = db_tenants db"
  "db_sessions (audit t a x y db) = db_sessions db"
  by (simp_all add: audit_def)

lemma update_user_frame [simp]:
  "db_sessions (update_user i f db) = db_sessions db" "db_tenants (update_user i f db) = db_tenants db"
  "db_users (update_user i f db) = update_first (\<lambda>u. au_id u = i) f (db_users db)"
  by (simp_all add: update_user_def)

lemma revoke_frame [simp]:
  "db_users (revoke_user_sessions fr t u db) = db_users db" "db_tenants (revoke_user_sessions fr t u db) = db_tenants db"
  by (simp_all add: revoke_user_sessions_def)

lemma insert_user_Inr:
  "insert_user u db = Inr db' \<longleftrightarrow> db' = db\<lparr>db_users := db_users db @ [u]\<rparr>
     \<and> (\<forall>v\<in>set (db_users db). au_id v \<noteq> au_id u \<and> \<not> (au_tenant v = au_tenant u \<and> au_email v = au_email u))"
  by (auto simp: insert_user_def list_ex_iff)

lemma insert_tenant_Inr: "insert_tenant t db = Inr db' \<Longrightarrow> db_users db' = db_users db \<and> db_sessions db' = db_sessions db"
  by (auto simp: insert_tenant_def split: if_splits)

lemma insert_session_Inr:
  "insert_session s db = Inr db' \<longleftrightarrow> db' = db\<lparr>db_sessions := db_sessions db @ [s]\<rparr> \<and> (\<forall>v\<in>set (db_sessions db). as_token v \<noteq> as_token s)"
  by (auto simp: insert_session_def list_ex_iff)

lemma set_update_first: "set (update_first P f xs) \<subseteq> set xs \<union> f ` {x \<in> set xs. P x}"
  by (induction xs) auto

lemma map_update_first: "(\<And>x. P x \<Longrightarrow> h (f x) = h x) \<Longrightarrow> map h (update_first P f xs) = map h xs"
  by (induction xs) auto

lemma setup_tenant_frame: "setup_tenant g slug db = Inr db' \<Longrightarrow> db_users db' = db_users db \<and> db_sessions db' = db_sessions db"
  by (auto simp: setup_tenant_def Let_def split: sum.splits if_splits dest: insert_tenant_Inr)

lemma create_initial_admin_cases:
  assumes "create_initial_admin g fr db email password name act = (r, db')"
  shows "db_sessions db' = db_sessions db \<and> (db_users db' = db_users db \<and> (\<exists>e. r = Inl e)
    \<or> (\<exists>u. db_users db' = db_users db @ [u] \<and> r = Inr (to_public u) \<and> au_failed u = 0 \<and> au_lock u = None
        \<and> (\<forall>v\<in>set (db_users db). au_id v \<noteq> au_id u \<and> \<not> (au_tenant v = au_tenant u \<and> au_email v = au_email u))))"
  using assms
  by (auto simp: create_initial_admin_def Let_def insert_user_Inr new_admin_def split: sum.splits dest!: setup_tenant_frame)

lemma provision_cases:
  assumes "provision_tenant_admin g fr db tenant tname email password name = (r, db')"
  shows "db_sessions db' = db_sessions db \<and> (db_users db' = db_users db \<or> (\<exists>u. db_users db' = db_users db @ [u] \<and> au_failed u = 0 \<and> au_lock u = None
        \<and> (\<forall>v\<in>set (db_users db). au_id v \<noteq> au_id u \<and> \<not> (au_tenant v = au_tenant u \<and> au_email v = au_email u))))"
  using assms
  by (auto simp: provision_tenant_admin_def Let_def bindE_Inr insert_user_Inr new_admin_def split: sum.splits if_splits dest!: insert_tenant_Inr)

lemma create_user_cases:
  assumes "create_user g fr db actor email name password = (r, db')"
  shows "db_sessions db' = db_sessions db \<and> (db_users db' = db_users db \<or> (\<exists>u. db_users db' = db_users db @ [u]
        \<and> au_tenant u = id_tenant actor \<and> au_admin u = Some (id_user actor) \<and> au_failed u = 0 \<and> au_lock u = None
        \<and> (\<forall>v\<in>set (db_users db). au_id v \<noteq> au_id u \<and> \<not> (au_tenant v = au_tenant u \<and> au_email v = au_email u))))"
  using assms by (auto simp: create_user_def Let_def insert_user_Inr split: sum.splits if_splits)

lemma login_sessions:
  assumes "login g fr db tenant email password = (r, db')"
  shows "db_sessions db' = db_sessions db \<or> (\<exists>u. db_sessions db' = db_sessions db @ [new_session g fr u]
    \<and> (\<forall>v\<in>set (db_sessions db). as_token v \<noteq> as_token (new_session g fr u)))"
  using assms by (auto simp: login_def Let_def insert_session_Inr split: option.splits if_splits sum.splits)

section \<open>Revocation\<close>

text \<open>No session with this token digest can authenticate: each one present is revoked.\<close>

definition dead :: "string \<Rightarrow> auth_db \<Rightarrow> bool" where
  "dead d db \<longleftrightarrow> (\<forall>s\<in>set (db_sessions db). as_token s = d \<longrightarrow> as_revoked s \<noteq> None)"

text \<open>The token a login hands out.\<close>

fun op_token :: "gw_op \<Rightarrow> string option" where
  "op_token (GLogin fr _ _ _) = Some (fr_token fr)"
| "op_token _ = None"

lemma dead_update_first:
  assumes "dead d db" "\<And>s. P s \<Longrightarrow> as_token (f s) = as_token s \<and> (as_revoked s \<noteq> None \<longrightarrow> as_revoked (f s) \<noteq> None)"
  shows "dead d (db\<lparr>db_sessions := update_first P f (db_sessions db)\<rparr>)"
  using assms set_update_first [of P f "db_sessions db"] by (fastforce simp: dead_def)

lemma dead_sessions: "db_sessions db' = db_sessions db \<Longrightarrow> dead d db' = dead d db"
  by (simp add: dead_def)

lemma dead_step:
  assumes "dead d db" "\<And>t. op_token op = Some t \<Longrightarrow> token_digest g t \<noteq> d"
  shows "dead d (gw_step g op db)"
proof (cases op)
  case (GLogin fr tenant email password)
  then show ?thesis
    using assms login_sessions [of g fr db tenant email password] by (force simp: dead_def new_session_def prod_eq_iff)
next
  case (GAuth fr token ck he rc)
  have "dead d (db\<lparr>db_sessions := update_first (\<lambda>x. as_token x = t) (\<lambda>x. x\<lparr>as_last_seen := fr_now fr\<rparr>) (db_sessions db)\<rparr>)" for t
    by (rule dead_update_first [OF assms(1)]) simp
  with GAuth assms(1) show ?thesis by (auto simp: authenticate_session_def split: option.split sum.split)
next
  case (GLogout fr token actor)
  have "dead d (db\<lparr>db_sessions := update_first (\<lambda>s. as_token s = token_digest g token) (\<lambda>s. s\<lparr>as_revoked := Some (fr_now fr)\<rparr>) (db_sessions db)\<rparr>)"
    by (rule dead_update_first [OF assms(1)]) simp
  with GLogout show ?thesis by (simp add: logout_def dead_def)
next
  case (GCreate fr actor email name password)
  with assms(1) create_user_cases [of g fr db actor email name password] show ?thesis by (simp add: dead_def prod_eq_iff)
next
  case (GStatus fr actor uid st)
  with assms(1) show ?thesis
    by (auto simp: set_user_status_def Let_def dead_def revoke_user_sessions_def split: sum.split)
next
  case (GPassword fr actor uid password)
  with assms(1) show ?thesis
    by (auto simp: set_user_password_def dead_def revoke_user_sessions_def split: sum.split)
next
  case (GClaim fr email name password)
  with assms(1) create_initial_admin_cases [of g fr db email password name "''initial_admin_claimed''"] show ?thesis
    by (auto simp: claim_initial_admin_def dead_def prod_eq_iff)
next
  case (GBootstrap fr)
  with assms(1) create_initial_admin_cases [of g fr db "gc_admin_email g" "gc_admin_password g" "''Administrator''" "''bootstrap_admin_created''"]
  show ?thesis by (auto simp: bootstrap_admin_def dead_def split: prod.split sum.split)
next
  case (GProvision fr tenant tname email password name)
  with assms(1) provision_cases [of g fr db tenant tname email password name] show ?thesis by (simp add: dead_def prod_eq_iff)
next
  case (GPurge now)
  with assms(1) show ?thesis by (simp add: dead_def)
qed

lemma dead_run:
  "dead d db \<Longrightarrow> \<forall>op\<in>set ops. \<forall>t. op_token op = Some t \<longrightarrow> token_digest g t \<noteq> d \<Longrightarrow> dead d (gw_run g ops db)"
  by (induction ops arbitrary: db) (auto simp: gw_run_def dead_step)

lemma dead_refused:
  assumes "dead (token_digest g token) db" "gc_auth_required g"
  shows "fst (authenticate_session g fr db token ck he rc) = Inl AuthenticationFailed"
proof -
  have "live_session g (fr_now fr) db token = None"
    using assms(1) by (auto simp: live_session_def dead_def find_None_iff)
  with assms(2) show ?thesis by (simp add: authenticate_session_def)
qed

text \<open>Logging out, resetting a password and disabling an account.\<close>

definition ends_sessions :: "gw_config \<Rightarrow> gw_op \<Rightarrow> auth_db \<Rightarrow> auth_session \<Rightarrow> bool" where
  "ends_sessions g op db s = (case op of
     GLogout fr token actor \<Rightarrow> as_token s = token_digest g token
   | GPassword fr actor uid password \<Rightarrow> fst (set_user_password g fr db actor uid password) = Inr ()
       \<and> as_tenant s = id_tenant actor \<and> as_user s = uid
   | GStatus fr actor uid status \<Rightarrow> status = ''disabled'' \<and> (\<exists>u. fst (set_user_status fr db actor uid status) = Inr u)
       \<and> as_tenant s = id_tenant actor \<and> as_user s = uid
   | _ \<Rightarrow> False)"

definition empty_db :: auth_db where
  "empty_db = \<lparr>db_users = [], db_tenants = [], db_sessions = [], db_audit = []\<rparr>"

text \<open>Well-formed databases: the unique indexes hold and no failure count reaches the limit.\<close>

definition users_ok :: "auth_user list \<Rightarrow> bool" where
  "users_ok us \<longleftrightarrow> distinct (map au_id us) \<and> distinct (map (\<lambda>u. (au_tenant u, au_email u)) us)
     \<and> (\<forall>u\<in>set us. 0 \<le> au_failed u \<and> au_failed u < MAX_FAILED_LOGINS)"

definition gw_inv :: "auth_db \<Rightarrow> bool" where
  "gw_inv db \<longleftrightarrow> users_ok (db_users db) \<and> distinct (map as_token (db_sessions db))"

lemma users_ok_append:
  "users_ok (us @ [u]) \<longleftrightarrow> users_ok us \<and> (\<forall>v\<in>set us. au_id v \<noteq> au_id u \<and> \<not> (au_tenant v = au_tenant u \<and> au_email v = au_email u))
     \<and> 0 \<le> au_failed u \<and> au_failed u < MAX_FAILED_LOGINS"
  by (auto simp: users_ok_def image_iff)

lemma users_ok_single: "users_ok [u] \<longleftrightarrow> 0 \<le> au_failed u \<and> au_failed u < MAX_FAILED_LOGINS"
  by (simp add: users_ok_def)

lemma users_ok_update:
  assumes "users_ok us"
    and f: "\<And>u. au_id (f u) = au_id u \<and> au_tenant (f u) = au_tenant u \<and> au_email (f u) = au_email u"
    and n: "\<And>u. 0 \<le> au_failed u \<and> au_failed u < MAX_FAILED_LOGINS \<Longrightarrow> 0 \<le> au_failed (f u) \<and> au_failed (f u) < MAX_FAILED_LOGINS"
  shows "users_ok (update_first P f us)"
proof -
  have "map au_id (update_first P f us) = map au_id us"
    "map (\<lambda>u. (au_tenant u, au_email u)) (update_first P f us) = map (\<lambda>u. (au_tenant u, au_email u)) us"
    using f by (simp_all add: map_update_first)
  moreover have "0 \<le> au_failed u \<and> au_failed u < MAX_FAILED_LOGINS" if "u \<in> set (update_first P f us)" for u
    using that set_update_first [of P f us] assms(1) n unfolding users_ok_def by blast
  ultimately show ?thesis using assms(1) unfolding users_ok_def by simp
qed

lemma count_failure_same:
  "au_id (count_failure now u) = au_id u" "au_tenant (count_failure now u) = au_tenant u" "au_email (count_failure now u) = au_email u"
  by (simp_all add: count_failure_def Let_def)

lemma count_failure_range:
  "0 \<le> au_failed u \<and> au_failed u < MAX_FAILED_LOGINS \<Longrightarrow>
     0 \<le> au_failed (count_failure now u) \<and> au_failed (count_failure now u) < MAX_FAILED_LOGINS"
  by (simp add: count_failure_def Let_def MAX_FAILED_LOGINS_def)

lemma login_users_ok:
  assumes "users_ok (db_users db)" "login g fr db tenant email password = (r, db')"
  shows "users_ok (db_users db')"
proof -
  have "users_ok (update_first P (count_failure (fr_now fr)) (db_users db))" for P
    by (rule users_ok_update [OF assms(1)]) (simp add: count_failure_same, rule count_failure_range)
  moreover have "users_ok (update_first P (\<lambda>v. v\<lparr>au_failed := 0, au_lock := None\<rparr>) (db_users db))" for P
    by (rule users_ok_update [OF assms(1)]) (simp_all add: MAX_FAILED_LOGINS_def)
  ultimately show ?thesis using assms
    by (auto simp: login_def Let_def insert_session_Inr split: option.splits if_splits sum.splits)
qed

lemma tokens_update_first:
  "(\<And>s. as_token (f s) = as_token s) \<Longrightarrow> distinct (map as_token (update_first P f ss)) = distinct (map as_token ss)"
  by (simp add: map_update_first)

lemma gw_inv_step:
  assumes "gw_inv db" shows "gw_inv (gw_step g op db)"
proof (cases op)
  case (GLogin fr tenant email password)
  obtain r db' where l: "login g fr db tenant email password = (r, db')" by fastforce
  from login_sessions [OF l] have "distinct (map as_token (db_sessions db'))"
    using assms by (elim disjE exE conjE) (simp_all add: gw_inv_def, metis imageE)
  with login_users_ok [OF _ l] assms GLogin l show ?thesis by (simp add: gw_inv_def)
next
  case (GAuth fr token ck he rc)
  with assms show ?thesis
    by (auto simp: gw_inv_def authenticate_session_def tokens_update_first split: option.split sum.split)
next
  case (GLogout fr token actor)
  with assms show ?thesis by (simp add: gw_inv_def logout_def tokens_update_first)
next
  case (GCreate fr actor email name password)
  with assms create_user_cases [of g fr db actor email name password] show ?thesis
    by (auto simp: gw_inv_def prod_eq_iff users_ok_append users_ok_single MAX_FAILED_LOGINS_def)
next
  case (GStatus fr actor uid st)
  have "users_ok (update_first P (\<lambda>v. v\<lparr>au_status := st\<rparr>) (db_users db))" for P
    using assms by (auto simp: gw_inv_def intro: users_ok_update)
  with GStatus assms show ?thesis
    by (auto simp: gw_inv_def set_user_status_def Let_def revoke_user_sessions_def comp_def if_distrib split: sum.split cong: if_cong)
next
  case (GPassword fr actor uid password)
  have "users_ok (update_first P (\<lambda>v. v\<lparr>au_hash := h, au_failed := 0, au_lock := None\<rparr>) (db_users db))" for P h
    using assms by (auto simp: gw_inv_def MAX_FAILED_LOGINS_def intro!: users_ok_update)
  with GPassword assms show ?thesis
    by (auto simp: gw_inv_def set_user_password_def revoke_user_sessions_def comp_def if_distrib split: sum.split cong: if_cong)
next
  case (GPurge now)
  with assms show ?thesis by (simp add: gw_inv_def distinct_map_filter)
next
  case (GClaim fr email name password)
  with assms create_initial_admin_cases [of g fr db email password name "''initial_admin_claimed''"] show ?thesis
    by (auto simp: gw_inv_def claim_initial_admin_def prod_eq_iff users_ok_append users_ok_single MAX_FAILED_LOGINS_def)
next
  case (GBootstrap fr)
  with assms create_initial_admin_cases [of g fr db "gc_admin_email g" "gc_admin_password g" "''Administrator''" "''bootstrap_admin_created''"]
  show ?thesis by (auto simp: gw_inv_def bootstrap_admin_def users_ok_append users_ok_single MAX_FAILED_LOGINS_def split: prod.split sum.split)
next
  case (GProvision fr tenant tname email password name)
  with assms provision_cases [of g fr db tenant tname email password name] show ?thesis
    by (auto simp: gw_inv_def prod_eq_iff users_ok_append users_ok_single MAX_FAILED_LOGINS_def)
qed

lemma gw_inv_run: "gw_inv db \<Longrightarrow> gw_inv (gw_run g ops db)"
  by (induction ops arbitrary: db) (simp_all add: gw_run_def gw_inv_step)

lemma gw_inv_reachable: "gw_inv (gw_run g ops empty_db)"
  by (rule gw_inv_run) (simp add: gw_inv_def users_ok_def empty_db_def)

text \<open>A session that an operation ends is dead afterwards.\<close>

lemma distinct_token_eq:
  "distinct (map as_token ss) \<Longrightarrow> s \<in> set ss \<Longrightarrow> x \<in> set ss \<Longrightarrow> as_token x = as_token s \<Longrightarrow> x = s"
  by (metis distinct_map inj_onD)

lemma update_first_dead:
  assumes "distinct (map as_token ss)" "\<And>s. as_token (f s) = as_token s \<and> as_revoked (f s) \<noteq> None"
    and "x \<in> set (update_first (\<lambda>s. as_token s = d) f ss)" "as_token x = d"
  shows "as_revoked x \<noteq> None"
  using assms by (induction ss) (auto split: if_splits)

lemma revoke_dead:
  assumes "distinct (map as_token (db_sessions db))" "s \<in> set (db_sessions db)" "as_tenant s = tn" "as_user s = uid"
  shows "dead (as_token s) (revoke_user_sessions fr tn uid db)"
proof -
  have "x = s" if "x \<in> set (db_sessions db)" "as_token x = as_token s" for x
    using distinct_token_eq [OF assms(1,2) that] .
  with assms(3,4) show ?thesis by (auto simp: dead_def revoke_user_sessions_def)
qed

lemma ends_dead:
  assumes "gw_inv db" "s \<in> set (db_sessions db)" "ends_sessions g op db s"
  shows "dead (as_token s) (gw_step g op db)"
proof -
  have d: "distinct (map as_token (db_sessions db))" using assms(1) by (simp add: gw_inv_def)
  have rev: "dead (as_token s) (audit a b x y (revoke_user_sessions fr (as_tenant s) (as_user s) (update_user i f db)))" for a b x y fr i f
    using revoke_dead [of "update_user i f db" s "as_tenant s" "as_user s" fr] d assms(2) by (simp add: dead_def)
  show ?thesis
  proof (cases op)
    case (GLogout fr token actor)
    then show ?thesis
      using assms(3) update_first_dead [OF d, of "\<lambda>s. s\<lparr>as_revoked := Some (fr_now fr)\<rparr>" _ "token_digest g token"]
      by (auto simp: ends_sessions_def logout_def dead_def)
  next
    case (GPassword fr actor uid password)
    with assms(3) rev show ?thesis by (auto simp: ends_sessions_def set_user_password_def split: sum.splits)
  next
    case (GStatus fr actor uid st)
    with assms(3) rev show ?thesis by (auto simp: ends_sessions_def set_user_status_def Let_def split: sum.splits if_splits)
  qed (use assms(3) in \<open>auto simp: ends_sessions_def\<close>)
qed

end
