(* ===== verification/Gateway_Safety.thy ===== *)
theory Gateway_Safety
  imports Gateway_Auth
begin

text \<open>
  What the operations of \<open>Gateway_Auth\<close> guarantee over whole histories: revocation is final,
  a locked account is not guessed, administration stays with the administrator's users,
  and a fresh session authenticates as the user who logged in.
\<close>

section \<open>Revocation is final\<close>

text \<open>
  C9.  Revocation is final.  In any history of the service, once a session is ended, by
  logging out with its token, by a reset of its user's password or by disabling the user,
  its token never authenticates again: not after any later operations by anybody, the
  reactivation of the user included.  Tokens handed out later must have other digests.
\<close>

theorem revoked_stays_out:
  assumes "gc_auth_required g" "db = gw_run g history empty_db" "s \<in> set (db_sessions db)" "ends_sessions g op db s"
    and "\<forall>o'\<in>set later. \<forall>t. op_token o' = Some t \<longrightarrow> token_digest g t \<noteq> as_token s"
    and "token_digest g token = as_token s"
  shows "fst (authenticate_session g fr (gw_run g later (gw_step g op db)) token cookie header csrf) = Inl AuthenticationFailed"
  using dead_run [OF ends_dead [OF gw_inv_reachable assms(3) [unfolded assms(2)] assms(4) [unfolded assms(2)]] assms(5)]
    assms(1,2,6) dead_refused by metis

section \<open>Guessing passwords\<close>

text \<open>
  A guess at an account is a login the service answers with the generic refusal, so that
  its answer depends on the password; \<open>quiet\<close> operations leave the failure count of the
  account to the guesses: no login passes the check and no administrator resets the
  password.
\<close>

definition aims_at :: "gw_config \<Rightarrow> string \<Rightarrow> auth_db \<Rightarrow> string \<Rightarrow> string \<Rightarrow> bool" where
  "aims_at g uid db tenant email = (case login_user g db tenant email of Some u \<Rightarrow> au_id u = uid | None \<Rightarrow> False)"

definition guess :: "gw_config \<Rightarrow> string \<Rightarrow> gw_op \<Rightarrow> auth_db \<Rightarrow> bool" where
  "guess g uid op db = (case op of
     GLogin fr tenant email password \<Rightarrow> aims_at g uid db tenant email \<and> fst (login g fr db tenant email password) = Inl AuthenticationFailed
   | _ \<Rightarrow> False)"

definition quiet :: "gw_config \<Rightarrow> string \<Rightarrow> gw_op \<Rightarrow> auth_db \<Rightarrow> bool" where
  "quiet g uid op db = (case op of
     GLogin fr tenant email password \<Rightarrow> aims_at g uid db tenant email
       \<longrightarrow> fst (login g fr db tenant email password) \<in> {Inl AuthenticationFailed, Inl AccountLocked}
   | GPassword fr actor uid' password \<Rightarrow> uid' = uid \<longrightarrow> fst (set_user_password g fr db actor uid' password) \<noteq> Inr ()
   | _ \<Rightarrow> True)"

fun op_time :: "gw_op \<Rightarrow> real option" where
  "op_time (GLogin fr _ _ _) = Some (fr_now fr)"
| "op_time _ = None"

fun guesses :: "gw_config \<Rightarrow> string \<Rightarrow> gw_op list \<Rightarrow> auth_db \<Rightarrow> nat" where
  "guesses g uid [] db = 0"
| "guesses g uid (op # ops) db = (if guess g uid op db then 1 else 0) + guesses g uid ops (gw_step g op db)"

fun all_quiet :: "gw_config \<Rightarrow> string \<Rightarrow> gw_op list \<Rightarrow> auth_db \<Rightarrow> bool" where
  "all_quiet g uid [] db = True"
| "all_quiet g uid (op # ops) db \<longleftrightarrow> quiet g uid op db \<and> all_quiet g uid ops (gw_step g op db)"

text \<open>The counter and lock of an account, and how many guesses they still allow before \<open>T\<close>.\<close>

definition acct :: "string \<Rightarrow> auth_user list \<Rightarrow> (int \<times> real option) option" where
  "acct uid us = map_option (\<lambda>u. (au_failed u, au_lock u)) (find (\<lambda>u. au_id u = uid) us)"

definition allowance :: "real \<Rightarrow> string \<Rightarrow> auth_user list \<Rightarrow> nat" where
  "allowance T uid us = (case acct uid us of
     None \<Rightarrow> nat MAX_FAILED_LOGINS
   | Some (n, lock) \<Rightarrow> (case lock of Some t \<Rightarrow> if t \<ge> T then 0 else nat (MAX_FAILED_LOGINS - n) | None \<Rightarrow> nat (MAX_FAILED_LOGINS - n)))"

lemma find_append: "find P (xs @ ys) = (case find P xs of None \<Rightarrow> find P ys | Some x \<Rightarrow> Some x)"
  by (induction xs) auto

lemma find_update_first:
  "(\<And>u. au_id (f u) = au_id u) \<Longrightarrow> find (\<lambda>u. au_id u = uid) (update_first (\<lambda>u. au_id u = i) f us)
     = (if i = uid then map_option f (find (\<lambda>u. au_id u = uid) us) else find (\<lambda>u. au_id u = uid) us)"
  by (induction us) auto

lemma acct_append_new: "au_failed u = 0 \<Longrightarrow> au_lock u = None \<Longrightarrow> allowance T uid (us @ [u]) = allowance T uid us"
  by (auto simp: allowance_def acct_def find_append split: option.split)

lemma acct_update_other:
  "(\<And>u. au_id (f u) = au_id u) \<Longrightarrow> i \<noteq> uid \<or> (\<forall>u. au_failed (f u) = au_failed u \<and> au_lock (f u) = au_lock u)
     \<Longrightarrow> allowance T uid (update_first (\<lambda>u. au_id u = i) f us) = allowance T uid us"
  by (auto simp: allowance_def acct_def find_update_first split: option.split)

lemma login_user_found:
  assumes "users_ok (db_users db)" "login_user g db tenant email = Some u"
  shows "find (\<lambda>v. au_id v = au_id u) (db_users db) = Some u"
proof -
  have u: "u \<in> set (db_users db)"
    using assms(2) by (auto simp: login_user_def find_Some_iff split: option.splits)
  obtain v where v: "find (\<lambda>v. au_id v = au_id u) (db_users db) = Some v"
    using u by (cases "find (\<lambda>v. au_id v = au_id u) (db_users db)") (auto simp: find_None_iff)
  then have "v \<in> set (db_users db)" "au_id v = au_id u" by (auto simp: find_Some_iff)
  moreover have "inj_on au_id (set (db_users db))" using assms(1) by (simp add: users_ok_def distinct_map)
  ultimately have "v = u" using u by (simp add: inj_on_def)
  with v show ?thesis by simp
qed

lemma login_refusals:
  assumes "login g fr db tenant email password = (r, db')" "login_user g db tenant email = Some u"
    and "r \<in> {Inl AuthenticationFailed, Inl AccountLocked}"
  shows "locked (fr_now fr) u \<and> r = Inl AccountLocked \<and> db_users db' = db_users db
    \<or> \<not> locked (fr_now fr) u \<and> r = Inl AuthenticationFailed
        \<and> db_users db' = update_first (\<lambda>v. au_id v = au_id u) (count_failure (fr_now fr)) (db_users db)"
proof -
  have "insert_session s d \<notin> {Inl AuthenticationFailed, Inl AccountLocked}" for s d by (simp add: insert_session_def)
  moreover have "gw_identity u i \<notin> {Inl AuthenticationFailed, Inl AccountLocked}" for i
    by (simp add: gw_identity_def split: sum.split)
  ultimately show ?thesis using assms by (auto simp: login_def Let_def split: if_splits sum.splits)
qed

lemma login_allowance:
  assumes ok: "users_ok (db_users db)" and l: "login g fr db tenant email password = (r, db')"
    and t: "T \<le> fr_now fr + LOCKOUT_SECONDS" "fr_now fr < T"
    and q: "aims_at g uid db tenant email \<Longrightarrow> r \<in> {Inl AuthenticationFailed, Inl AccountLocked}"
  shows "(if aims_at g uid db tenant email \<and> r = Inl AuthenticationFailed then 1 else 0) + allowance T uid (db_users db')
      \<le> allowance T uid (db_users db)"
proof (cases "login_user g db tenant email")
  case None
  with l show ?thesis by (simp add: login_def aims_at_def)
next
  case (Some u)
  have f: "find (\<lambda>v. au_id v = au_id u) (db_users db) = Some u" by (rule login_user_found [OF ok Some])
  then have n: "0 \<le> au_failed u" "au_failed u < 5"
    using ok by (auto simp: users_ok_def MAX_FAILED_LOGINS_def find_Some_iff)
  show ?thesis
  proof (cases "au_id u = uid")
    case True
    have a: "aims_at g uid db tenant email" using Some True by (simp add: aims_at_def)
    show ?thesis using login_refusals [OF l Some q [OF a]] f n t True
      by (auto simp: locked_def allowance_def acct_def find_update_first count_failure_same count_failure_def
            MAX_FAILED_LOGINS_def LOCKOUT_SECONDS_def Let_def split: if_splits option.splits)
  next
    case False
    then have "\<not> aims_at g uid db tenant email" using Some by (simp add: aims_at_def)
    with l Some False show ?thesis
      by (auto simp: login_def Let_def acct_update_other count_failure_same insert_session_Inr split: if_splits sum.splits)
  qed
qed

lemma managed_user_Inr:
  "managed_user db actor uid = Inr u \<Longrightarrow> is_admin actor \<and> u \<in> set (db_users db) \<and> manages actor u \<and> au_id u = uid"
  by (auto simp: managed_user_def require_admin_def manages_def bindE_Inr find_Some_iff split: option.splits if_splits)

lemma step_allowance:
  assumes inv: "gw_inv db" and q: "quiet g uid op db"
    and t: "\<And>t. op_time op = Some t \<Longrightarrow> t0 \<le> t \<and> t < t0 + LOCKOUT_SECONDS"
  shows "(if guess g uid op db then 1 else 0) + allowance (t0 + LOCKOUT_SECONDS) uid (db_users (gw_step g op db))
      \<le> allowance (t0 + LOCKOUT_SECONDS) uid (db_users db)"
proof (cases op)
  case (GLogin fr tenant email password)
  then show ?thesis
    using login_allowance [of db g fr tenant email password _ _ "t0 + LOCKOUT_SECONDS" uid] inv q t
    by (cases "login g fr db tenant email password") (auto simp: guess_def quiet_def gw_inv_def)
next
  case (GStatus fr actor uid' st)
  then show ?thesis
    by (auto simp: guess_def set_user_status_def Let_def acct_update_other split: sum.split)
next
  case (GPassword fr actor uid' password)
  show ?thesis
  proof (cases "bindE (managed_user db actor uid') (\<lambda>u. bindE (gw_hash g fr password) (\<lambda>h. Inr (u, h)))")
    case (Inr p)
    then obtain u h where "p = (u, h)" "managed_user db actor uid' = Inr u" by (auto simp: bindE_Inr)
    moreover have "uid' \<noteq> uid" using Inr q GPassword \<open>p = (u, h)\<close> by (auto simp: quiet_def set_user_password_def)
    ultimately show ?thesis using Inr GPassword managed_user_Inr [of db actor uid' u]
      by (simp add: guess_def set_user_password_def acct_update_other)
  qed (use GPassword in \<open>simp add: guess_def set_user_password_def\<close>)
next
  case (GAuth fr token ck he rc)
  then show ?thesis by (auto simp: guess_def authenticate_session_def split: option.split sum.split)
next
  case (GCreate fr actor email name password)
  with create_user_cases [of g fr db actor email name password] show ?thesis
    by (auto simp: guess_def prod_eq_iff acct_append_new)
next
  case (GClaim fr email name password)
  with create_initial_admin_cases [of g fr db email password name "''initial_admin_claimed''"] show ?thesis
    by (auto simp: guess_def claim_initial_admin_def prod_eq_iff acct_append_new [where us = "[]", simplified])
next
  case (GBootstrap fr)
  with create_initial_admin_cases [of g fr db "gc_admin_email g" "gc_admin_password g" "''Administrator''" "''bootstrap_admin_created''"]
  show ?thesis by (auto simp: guess_def bootstrap_admin_def acct_append_new [where us = "[]", simplified] split: prod.split sum.split)
next
  case (GProvision fr tenant tname email password name)
  with provision_cases [of g fr db tenant tname email password name] show ?thesis
    by (auto simp: guess_def prod_eq_iff acct_append_new)
qed (simp_all add: guess_def logout_def)

lemma allowance_max: "users_ok us \<Longrightarrow> allowance T uid us \<le> 5"
  by (auto simp: allowance_def acct_def users_ok_def MAX_FAILED_LOGINS_def find_Some_iff split: option.splits)
    (metis nth_mem diff_ge_0_iff_ge nat_le_iff diff_le_eq le_add_same_cancel1 of_nat_numeral)+

lemma guesses_allowance:
  "gw_inv db \<Longrightarrow> all_quiet g uid ops db \<Longrightarrow> \<forall>op\<in>set ops. \<forall>t. op_time op = Some t \<longrightarrow> t0 \<le> t \<and> t < t0 + LOCKOUT_SECONDS
   \<Longrightarrow> guesses g uid ops db \<le> allowance (t0 + LOCKOUT_SECONDS) uid (db_users db)"
proof (induction ops arbitrary: db)
  case (Cons op ops)
  have "guesses g uid ops (gw_step g op db) \<le> allowance (t0 + LOCKOUT_SECONDS) uid (db_users (gw_step g op db))"
    using Cons by (simp add: gw_inv_step)
  with step_allowance [of db g uid op t0] Cons.prems show ?case by fastforce
qed simp


section \<open>Administration stays in scope\<close>

fun op_actor :: "gw_op \<Rightarrow> auth_identity option" where
  "op_actor (GCreate fr actor _ _ _) = Some actor"
| "op_actor (GStatus fr actor _ _) = Some actor"
| "op_actor (GPassword fr actor _ _) = Some actor"
| "op_actor _ = None"

text \<open>Sessions of users the administrator manages.\<close>

definition managed_session :: "auth_identity \<Rightarrow> auth_db \<Rightarrow> auth_session \<Rightarrow> bool" where
  "managed_session actor db s \<longleftrightarrow> list_ex (\<lambda>u. manages actor u \<and> as_tenant s = au_tenant u \<and> as_user s = au_id u) (db_users db)"

lemma filter_update_id:
  assumes "distinct (map au_id us)" "u \<in> set us" "\<not> Q u" "\<not> Q (f u)"
  shows "filter Q (update_first (\<lambda>v. au_id v = au_id u) f us) = filter Q us"
  using assms
proof (induction us)
  case (Cons v us)
  show ?case
  proof (cases "au_id v = au_id u")
    case True
    with Cons.prems have "v = u" by (auto simp: image_iff)
    with True Cons.prems show ?thesis by simp
  qed (use Cons in auto)
qed simp

lemma filter_map_same: "(\<And>x. f x \<noteq> x \<Longrightarrow> \<not> Q x \<and> \<not> Q (f x)) \<Longrightarrow> filter Q (map f xs) = filter Q xs"
  by (induction xs) (auto, metis+)

lemma filter_revoke:
  assumes "u \<in> set (db_users db)" "manages actor u" "au_id u = uid"
  shows "filter (\<lambda>s. \<not> managed_session actor db s) (db_sessions (revoke_user_sessions fr (id_tenant actor) uid db'))
    = filter (\<lambda>s. \<not> managed_session actor db s) (db_sessions db')"
proof -
  let ?f = "\<lambda>s :: auth_session. if as_tenant s = id_tenant actor \<and> as_user s = uid \<and> as_revoked s = None then s\<lparr>as_revoked := Some (fr_now fr)\<rparr> else s"
  have m: "managed_session actor db s" if "as_tenant s = id_tenant actor" "as_user s = uid" for s
    using assms that unfolding managed_session_def list_ex_iff by (auto simp: manages_def)
  have "filter (\<lambda>s. \<not> managed_session actor db s) (map ?f (db_sessions db')) = filter (\<lambda>s. \<not> managed_session actor db s) (db_sessions db')"
  proof (rule filter_map_same)
    fix s assume "?f s \<noteq> s"
    then have "as_tenant s = id_tenant actor \<and> as_user s = uid" by presburger
    then show "\<not> \<not> managed_session actor db s \<and> \<not> \<not> managed_session actor db (?f s)"
      using m by simp
  qed
  moreover have "db_sessions (revoke_user_sessions fr (id_tenant actor) uid db') = map ?f (db_sessions db')"
    unfolding revoke_user_sessions_def by simp
  ultimately show ?thesis by simp
qed

lemma admin_update_scope:
  assumes "gw_inv db" "managed_user db actor uid = Inr u"
    and f: "\<And>u. au_id (f u) = au_id u \<and> au_tenant (f u) = au_tenant u \<and> au_admin (f u) = au_admin u"
  shows "filter (\<lambda>u. \<not> manages actor u) (update_first (\<lambda>v. au_id v = au_id u) f (db_users db)) = filter (\<lambda>u. \<not> manages actor u) (db_users db)"
proof (rule filter_update_id)
  show "distinct (map au_id (db_users db))" using assms(1) by (simp add: gw_inv_def users_ok_def)
  show "u \<in> set (db_users db)" "\<not> \<not> manages actor u" "\<not> \<not> manages actor (f u)"
    using managed_user_Inr [OF assms(2)] f [of u] by (auto simp: manages_def)
qed

text \<open>
  C11.  Administration stays in scope.  Creating a user, changing a status or resetting a
  password leaves every user document the actor does not manage and every session of such
  users exactly as it was, in order, and touches no tenant; an actor who is not an
  administrator changes nothing at all.
\<close>

theorem administration_in_scope:
  assumes "db = gw_run g history empty_db" "op_actor op = Some actor"
  shows "filter (\<lambda>u. \<not> manages actor u) (db_users (gw_step g op db)) = filter (\<lambda>u. \<not> manages actor u) (db_users db)
    \<and> filter (\<lambda>s. \<not> managed_session actor db s) (db_sessions (gw_step g op db)) = filter (\<lambda>s. \<not> managed_session actor db s) (db_sessions db)
    \<and> db_tenants (gw_step g op db) = db_tenants db
    \<and> (\<not> is_admin actor \<longrightarrow> gw_step g op db = db)"
proof -
  have inv: "gw_inv db" using assms(1) by (simp add: gw_inv_reachable)
  show ?thesis
  proof (cases op)
    case (GCreate fr a email name password)
    with assms(2) show ?thesis
      by (auto simp: create_user_def Let_def insert_user_Inr manages_def require_admin_def bindE_def split: sum.splits if_splits)
  next
    case (GStatus fr a uid st)
    with assms(2) show ?thesis
      using admin_update_scope [OF inv, of actor uid _ "\<lambda>v. v\<lparr>au_status := st\<rparr>"] filter_revoke [of _ db actor uid fr] managed_user_Inr [of db actor uid]
      by (auto simp: set_user_status_def Let_def split: sum.splits)
  next
    case (GPassword fr a uid password)
    with assms(2) show ?thesis
      using admin_update_scope [OF inv, of actor uid _ "\<lambda>v. v\<lparr>au_hash := _, au_failed := 0, au_lock := None\<rparr>"] filter_revoke [of _ db actor uid fr] managed_user_Inr [of db actor uid]
      by (auto simp: set_user_password_def bindE_Inr split: sum.splits)
  qed (use assms(2) in auto)
qed

section \<open>Sessions authenticate\<close>

lemma find_unique:
  assumes "x \<in> set xs" "P x" "\<forall>y\<in>set xs. P y \<longrightarrow> y = x"
  shows "find P xs = Some x"
proof (cases "find P xs")
  case (Some y)
  then have "y \<in> set xs \<and> P y" by (auto simp: find_Some_iff)
  with assms(3) have "y = x" by blast
  with Some show ?thesis by simp
qed (use assms(1,2) in \<open>auto simp: find_None_iff\<close>)

lemma login_Inr:
  assumes "login g fr db tenant email password = (Inr (token, csrf, i, p), db')" "login_user g db tenant email = Some u"
  shows "au_status u = ''active'' \<and> token = fr_token fr \<and> csrf = fr_csrf fr \<and> p = to_public u \<and> gw_identity u (fr_id fr) = Inr i
    \<and> db_users db' = update_first (\<lambda>v. au_id v = au_id u) (\<lambda>v. v\<lparr>au_failed := 0, au_lock := None\<rparr>) (db_users db)
    \<and> db_sessions db' = db_sessions db @ [new_session g fr u]
    \<and> (\<forall>v\<in>set (db_sessions db). as_token v \<noteq> as_token (new_session g fr u))"
proof -
  let ?db1 = "update_user (au_id u) (\<lambda>v. v\<lparr>au_failed := 0, au_lock := None\<rparr>) db"
  note l = assms(1) [unfolded login_def Let_def assms(2) option.case]
  have a: "\<not> locked (fr_now fr) u" by (rule ccontr) (use l in simp)
  have b: "\<not> (\<not> verify_password (gc_codec g) password (au_hash u) (gc_password_pepper g) \<or> au_status u \<noteq> ''active'')"
    by (rule ccontr) (use l a in simp)
  note l = l [unfolded if_not_P [OF a] if_not_P [OF b]]
  obtain db2 where s: "insert_session (new_session g fr u) ?db1 = Inr db2"
    using l by (cases "insert_session (new_session g fr u) ?db1") simp_all
  note l = l [unfolded s sum.case]
  have "gw_identity u (fr_id fr) = Inr i \<and> token = fr_token fr \<and> csrf = fr_csrf fr \<and> p = to_public u
    \<and> db' = audit (au_tenant u) (au_id u) ''login_succeeded'' None db2"
    using l by (cases "gw_identity u (fr_id fr)") simp_all
  moreover have "db2 = ?db1\<lparr>db_sessions := db_sessions ?db1 @ [new_session g fr u]\<rparr>"
    "\<forall>v\<in>set (db_sessions ?db1). as_token v \<noteq> as_token (new_session g fr u)"
    using s insert_session_Inr by blast+
  ultimately show ?thesis using b by simp
qed

text \<open>The user document a session looks up, after the counters of that user were reset.\<close>

lemma find_after_reset:
  assumes "distinct (map au_id us)" "u \<in> set us" "au_status u = st"
  shows "find (\<lambda>v. au_tenant v = au_tenant u \<and> au_id v = au_id u \<and> au_status v = st)
      (update_first (\<lambda>v. au_id v = au_id u) (\<lambda>v. v\<lparr>au_failed := 0, au_lock := None\<rparr>) us) = Some (u\<lparr>au_failed := 0, au_lock := None\<rparr>)"
  using assms
proof (induction us)
  case (Cons v us)
  show ?case
  proof (cases "au_id v = au_id u")
    case True
    with Cons.prems have "v = u" by (auto simp: image_iff)
    with Cons.prems show ?thesis by simp
  qed (use Cons in auto)
qed simp


section \<open>Set-up happens once\<close>

lemma length_update_first [simp]: "length (update_first P f xs) = length xs"
  by (induction xs) auto

lemma step_keeps_users: "length (db_users db) \<le> length (db_users (gw_step g op db))"
proof (cases op)
  case (GLogin fr tenant email password)
  then show ?thesis
    by (auto simp: login_def Let_def insert_session_Inr split: option.split sum.split)
next
  case (GAuth fr token ck he rc)
  then show ?thesis by (auto simp: authenticate_session_def split: option.split sum.split)
next
  case (GCreate fr actor email name password)
  with create_user_cases [of g fr db actor email name password] show ?thesis by (auto simp: prod_eq_iff)
next
  case (GClaim fr email name password)
  with create_initial_admin_cases [of g fr db email password name "''initial_admin_claimed''"] show ?thesis
    by (auto simp: claim_initial_admin_def prod_eq_iff)
next
  case (GBootstrap fr)
  with create_initial_admin_cases [of g fr db "gc_admin_email g" "gc_admin_password g" "''Administrator''" "''bootstrap_admin_created''"]
  show ?thesis by (auto simp: bootstrap_admin_def split: prod.split sum.split)
next
  case (GProvision fr tenant tname email password name)
  with provision_cases [of g fr db tenant tname email password name] show ?thesis by (auto simp: prod_eq_iff)
qed (auto simp: set_user_status_def set_user_password_def logout_def Let_def split: sum.split)

lemma run_keeps_users: "length (db_users db) \<le> length (db_users (gw_run g ops db))"
  by (induction ops arbitrary: db) (auto simp: gw_run_def intro: le_trans [OF step_keeps_users])

text \<open>
  The first-run set-up can be claimed once: after a claim that succeeded, no later
  claim, in whatever state the service is by then, creates an administrator or changes
  anything, and \<open>needs_setup\<close> stays false.
\<close>

theorem setup_claimed_once:
  assumes "fst (claim_initial_admin g fr db email name password) = Inr p"
    and "db' = gw_run g later (snd (claim_initial_admin g fr db email name password))"
  shows "claim_initial_admin g fr' db' email' name' password' = (Inl UserConflict, db') \<and> \<not> needs_setup g db'"
proof -
  have "db_users (snd (claim_initial_admin g fr db email name password)) \<noteq> []"
    using assms(1) create_initial_admin_cases [of g fr db email password name "''initial_admin_claimed''"]
    by (auto simp: claim_initial_admin_def prod_eq_iff split: if_splits)
  then have "db_users db' \<noteq> []" using run_keeps_users assms(2)
    by (metis le_zero_eq length_0_conv)
  then show ?thesis by (simp add: claim_initial_admin_def needs_setup_def)
qed

end
