(* ===== verification/Gateway_Demo.thy ===== *)
theory Gateway_Demo
  imports Gateway_Safety
begin

text \<open>
  A sample gateway on which the hypotheses of \<open>Gateway_Safety\<close> hold: the administrator of
  one tenant is bootstrapped, logs in, creates a user and logs out.
\<close>

definition demo_gw :: gw_config where
  "demo_gw = \<lparr>gc_codec = sample_codec [], gc_casefold = (\<lambda>s. s), gc_auth_required = True, gc_password_pepper = [],
     gc_session_pepper = ''k'', gc_session_ttl = 3600, gc_tenant_id = ''acme'', gc_tenant_name = ''Acme'',
     gc_admin_email = ''root'', gc_admin_password = ''correct horse battery'', gc_internal_secret = sample_secret,
     gc_ticket_ttl = 60, gc_dummy_hash = []\<rparr>"

definition demo_fresh :: "real \<Rightarrow> string \<Rightarrow> fresh" where
  "demo_fresh t s = \<lparr>fr_now = t, fr_id = s, fr_token = CHR ''T'' # s, fr_csrf = CHR ''C'' # s, fr_salt = ''salt''\<rparr>"

definition demo_root :: auth_user where
  "demo_root = \<lparr>au_id = ''u0'', au_tenant = ''acme'', au_admin = Some ''u0'', au_email = ''root'', au_name = ''Administrator'',
     au_role = ''admin'', au_status = ''active'',
     au_hash = PASSWORD_SCHEME @ ''$'' @ show_nat 600000 @ ''$salt$correct horse batterysalt'', au_failed = 0, au_lock = None\<rparr>"

definition demo_db :: "auth_session list \<Rightarrow> audit_event list \<Rightarrow> auth_db" where
  "demo_db ss es = \<lparr>db_users = [demo_root], db_tenants = [\<lparr>at_id = ''acme'', at_slug = ''acme'', at_name = ''Acme'', at_status = ''active''\<rparr>],
     db_sessions = ss, db_audit = es\<rparr>"

definition demo_event :: "string \<Rightarrow> string option \<Rightarrow> audit_event" where
  "demo_event a x = \<lparr>ae_tenant = ''acme'', ae_actor = ''u0'', ae_action = a, ae_target = x\<rparr>"

lemma demo_strip: "strip ''acme'' = ''acme''" "strip ''Acme'' = ''Acme''" "strip ''root'' = ''root''" "strip ''Administrator'' = ''Administrator''"
  by code_simp+

lemma demo_slug: "slugify demo_gw ''acme'' = Inr ''acme''"
  by (simp add: slugify_def demo_gw_def demo_strip) code_simp

lemma demo_bootstrap:
  "gw_step demo_gw (GBootstrap (demo_fresh 0 ''u0'')) empty_db
     = demo_db [] [demo_event ''bootstrap_admin_created'' (Some ''u0'')]"
  using demo_slug
  by (simp add: bootstrap_admin_def create_initial_admin_def setup_tenant_def insert_tenant_def insert_user_def gw_hash_def hash_password_def
    new_admin_def normalize_email_def audit_def demo_event_def empty_db_def demo_db_def demo_root_def demo_gw_def demo_fresh_def sample_codec_def
    DEFAULT_PASSWORD_ITERATIONS_def ROLE_ADMIN_def demo_strip Let_def)

lemma demo_verify: "verify_password (sample_codec []) p (au_hash demo_root) [] \<longleftrightarrow> p = ''correct horse battery''"
  using verify_password_format [of "''salt''" 600000 "sample_codec []" p "''correct horse batterysalt''" "[]"]
  by (simp add: demo_root_def sample_codec_def)

lemma demo_login_user: "login_user demo_gw (demo_db ss es) ''acme'' ''root'' = Some demo_root"
  using demo_slug by (simp add: login_user_def login_tenant_def demo_db_def demo_strip normalize_email_def demo_root_def demo_gw_def Let_def)

definition demo_session :: "real \<Rightarrow> string \<Rightarrow> real option \<Rightarrow> auth_session" where
  "demo_session t s r = \<lparr>as_id = s, as_token = token_digest demo_gw (CHR ''T'' # s), as_csrf = token_digest demo_gw (CHR ''C'' # s), as_tenant = ''acme'', as_user = ''u0'',
     as_last_seen = t, as_expires = t + 3600, as_revoked = r\<rparr>"

lemma demo_root_reset: "demo_root\<lparr>au_failed := 0, au_lock := None\<rparr> = demo_root"
  by (simp add: demo_root_def)

definition demo_who :: "string \<Rightarrow> auth_identity" where
  "demo_who s = \<lparr>id_tenant = ''acme'', id_user = ''u0'', id_role = ''admin'', id_email = Some ''root'', id_admin = Some ''u0'', id_session = Some s\<rparr>"

lemma demo_login:
  assumes "list_all (\<lambda>v. as_token v \<noteq> token_digest demo_gw (CHR ''T'' # s)) ss"
  shows "login demo_gw (demo_fresh t s) (demo_db ss es) ''acme'' ''root'' ''correct horse battery''
     = (Inr (CHR ''T'' # s, CHR ''C'' # s, demo_who s, to_public demo_root),
        demo_db (ss @ [demo_session t s None]) (es @ [demo_event ''login_succeeded'' None]))"
proof -
  have "gc_codec demo_gw = sample_codec []" "gc_password_pepper demo_gw = []" by (simp_all add: demo_gw_def)
  moreover have "\<not> locked now demo_root" "au_status demo_root = ''active''" "au_id demo_root = ''u0''" "au_tenant demo_root = ''acme''" for now
    by (simp_all add: locked_def demo_root_def)
  moreover have "new_session demo_gw (demo_fresh t s) demo_root = demo_session t s None"
    by (simp add: new_session_def demo_fresh_def demo_root_def demo_session_def) (simp add: demo_gw_def)
  moreover have "gw_identity demo_root s = Inr (demo_who s)"
    by (simp add: gw_identity_def identity_check_def demo_root_def VALID_ROLES_def ROLE_ADMIN_def demo_who_def)
  moreover have "update_user ''u0'' (\<lambda>v. v\<lparr>au_failed := 0, au_lock := None\<rparr>) (demo_db ss es) = demo_db ss es"
    using demo_root_reset by (simp add: update_user_def demo_db_def demo_root_def)
  moreover have "insert_session (demo_session t s None) (demo_db ss es) = Inr (demo_db (ss @ [demo_session t s None]) es)"
    using assms by (auto simp: insert_session_def demo_db_def demo_session_def list_all_iff list_ex_iff)
  moreover have "fr_id (demo_fresh t s) = s" "fr_token (demo_fresh t s) = CHR ''T'' # s" "fr_csrf (demo_fresh t s) = CHR ''C'' # s"
    by (simp_all add: demo_fresh_def)
  ultimately show ?thesis
    using demo_login_user [of ss es] demo_verify [of "''correct horse battery''"]
    by (simp add: login_def audit_def demo_db_def demo_event_def)
qed

lemma demo_history:
  "gw_run demo_gw [GBootstrap (demo_fresh 0 ''u0''), GLogin (demo_fresh 10 ''s1'') ''acme'' ''root'' ''correct horse battery''] empty_db
     = demo_db [demo_session 10 ''s1'' None] [demo_event ''bootstrap_admin_created'' (Some ''u0''), demo_event ''login_succeeded'' None]"
  using demo_login [of "''s1''" "[]" 10] by (simp add: gw_run_def demo_bootstrap del: gw_step.simps) (simp add: demo_bootstrap)

lemma demo_digests: "token_digest demo_gw ''Ts2'' \<noteq> token_digest demo_gw ''Ts1''" "token_digest demo_gw ''Cs1'' \<noteq> []"
  by (simp_all add: token_digest_def hexdigest_def hex_digit_def demo_gw_def sample_codec_def)

theorem revoked_stays_out_witness:
  "fst (authenticate_session demo_gw (demo_fresh 30 ''x'')
     (gw_run demo_gw [GLogin (demo_fresh 20 ''s2'') ''acme'' ''root'' ''correct horse battery'']
       (gw_step demo_gw (GLogout (demo_fresh 15 ''x'') ''Ts1'' (demo_who ''s1''))
         (demo_db [demo_session 10 ''s1'' None] [demo_event ''bootstrap_admin_created'' (Some ''u0''), demo_event ''login_succeeded'' None])))
     ''Ts1'' None None False) = Inl AuthenticationFailed"
  by (rule revoked_stays_out [OF _ demo_history [symmetric], of "demo_session 10 ''s1'' None"])
     (simp_all add: demo_db_def ends_sessions_def demo_session_def demo_fresh_def demo_digests, simp add: demo_gw_def)


text \<open>A password no account has: every attempt with it is refused.\<close>

definition no_match :: "gw_config \<Rightarrow> string \<Rightarrow> auth_db \<Rightarrow> bool" where
  "no_match g pw db = list_all (\<lambda>u. \<not> verify_password (gc_codec g) pw (au_hash u) (gc_password_pepper g)) (db_users db)"

lemma no_match_refused:
  assumes "no_match g pw db"
  shows "fst (login g fr db tenant email pw) \<in> {Inl AuthenticationFailed, Inl AccountLocked}
    \<and> no_match g pw (snd (login g fr db tenant email pw))"
proof (cases "login_user g db tenant email")
  case (Some u)
  then have "u \<in> set (db_users db)" by (auto simp: login_user_def find_Some_iff split: option.splits)
  then have "\<not> verify_password (gc_codec g) pw (au_hash u) (gc_password_pepper g)" using assms by (auto simp: no_match_def list_all_iff)
  moreover have "no_match g pw (update_user i (count_failure t) db)" for i t
    using assms set_update_first [of "\<lambda>u. au_id u = i" "count_failure t" "db_users db"]
    by (auto simp: no_match_def list_all_iff count_failure_def Let_def)
  ultimately show ?thesis using Some assms by (simp add: login_def no_match_def)
qed (use assms in \<open>simp add: login_def\<close>)

lemma no_match_quiet: "no_match g pw db \<Longrightarrow> all_quiet g uid (map (\<lambda>fr. GLogin fr tenant email pw) frs) db"
proof (induction frs arbitrary: db)
  case (Cons fr frs)
  with no_match_refused [OF Cons.prems, of fr tenant email] show ?case by (simp add: quiet_def)
qed simp

lemma demo_no_match: "no_match demo_gw ''guess'' (gw_run demo_gw [GBootstrap (demo_fresh 0 ''u0'')] empty_db)"
  using demo_verify [of "''guess''"] by (simp add: gw_run_def demo_bootstrap del: gw_step.simps) (simp add: no_match_def demo_db_def demo_gw_def)


theorem administration_in_scope_witness:
  "db_tenants (gw_step demo_gw (GCreate (demo_fresh 5 ''u1'') (demo_who ''s1'') ''ann'' ''Ann'' ''another long password'')
       (gw_run demo_gw [GBootstrap (demo_fresh 0 ''u0'')] empty_db))
     = db_tenants (gw_run demo_gw [GBootstrap (demo_fresh 0 ''u0'')] empty_db)"
  using administration_in_scope [OF refl, of "GCreate (demo_fresh 5 ''u1'') (demo_who ''s1'') ''ann'' ''Ann'' ''another long password''"
    "demo_who ''s1''"] by (simp del: gw_step.simps)

theorem setup_claimed_once_witness:
  "fst (claim_initial_admin demo_gw (demo_fresh 1 ''u9'') (gw_run demo_gw [GPurge 1]
      (snd (claim_initial_admin demo_gw (demo_fresh 0 ''u0'') empty_db ''root'' ''Root'' ''correct horse battery'')))
     ''eve'' ''Eve'' ''another long password'') = Inl UserConflict"
proof -
  have "strip ''Root'' = ''Root''" by code_simp
  then have "fst (claim_initial_admin demo_gw (demo_fresh 0 ''u0'') empty_db ''root'' ''Root'' ''correct horse battery'')
      = Inr (to_public (demo_root\<lparr>au_name := ''Root''\<rparr>))"
    using demo_slug
    by (simp add: claim_initial_admin_def create_initial_admin_def setup_tenant_def insert_tenant_def insert_user_def gw_hash_def hash_password_def
      new_admin_def normalize_email_def empty_db_def demo_root_def demo_gw_def demo_fresh_def sample_codec_def
      DEFAULT_PASSWORD_ITERATIONS_def ROLE_ADMIN_def demo_strip Let_def)
  from setup_claimed_once [OF this refl] show ?thesis by simp
qed

end
