(* ===== verification/Context_Assembler.thy ===== *)
theory Context_Assembler
  imports Auth
begin

text \<open>
  \<open>backend/rag/app/services/context_assembler.py\<close>: which retrieved passages enter the
  prompt.  \<open>casefold\<close>, \<open>str\<close> of values other than strings and \<open>float\<close> of strings are
  parameters; floats are reals, so NaN and infinities are left out, and characters are Latin-1.
\<close>

section \<open>Passages and their cost\<close>

record ctx_env =
  cx_codec :: codec
  cx_casefold :: "string \<Rightarrow> string"
  cx_float :: "string \<Rightarrow> real option"

definition DEFAULT_CHARS_PER_TOKEN :: real where "DEFAULT_CHARS_PER_TOKEN = 3.5"
definition PASSAGE_SEPARATOR_TOKENS :: int where "PASSAGE_SEPARATOR_TOKENS = 2"

definition estimate_tokens :: "string \<Rightarrow> int" where
  "estimate_tokens s = (if s = [] then 0 else \<lceil>real (length s) / DEFAULT_CHARS_PER_TOKEN\<rceil>)"

text \<open>\<open>chunk.get(k1) or chunk.get(k2) or ... or default\<close>.\<close>

fun get_or :: "claims \<Rightarrow> string list \<Rightarrow> pyval \<Rightarrow> pyval" where
  "get_or chunk [] dflt = dflt"
| "get_or chunk (k # ks) dflt = (if truthy (claim chunk k) then claim chunk k else get_or chunk ks dflt)"

definition passage_text :: "ctx_env \<Rightarrow> claims \<Rightarrow> string" where
  "passage_text E chunk = py_str (cx_codec E) (get_or chunk [''text'', ''chunk'', ''content''] (PStr []))"

definition source_id :: "ctx_env \<Rightarrow> claims \<Rightarrow> nat \<Rightarrow> string" where
  "source_id E chunk index =
     py_str (cx_codec E) (get_or chunk [''chunk_id'', ''id''] (PStr (''passage_'' @ show_nat (index + 1))))"

definition source_key :: "ctx_env \<Rightarrow> claims \<Rightarrow> nat \<Rightarrow> string" where
  "source_key E chunk index = py_str (cx_codec E)
     (get_or chunk [''document_id'', ''file_id'', ''source_name'', ''source''] (PStr (source_id E chunk index)))"

definition passage_token_cost :: "ctx_env \<Rightarrow> claims \<Rightarrow> nat \<Rightarrow> int" where
  "passage_token_cost E chunk passage_number =
     (let locator = (if claim chunk ''page'' \<noteq> PNone then claim chunk ''page'' else claim chunk ''section'');
          header = ''['' @ show_nat passage_number @ ''] source='' @ source_id E chunk (passage_number - 1)
            @ (if locator \<noteq> PNone then '' locator='' @ py_str (cx_codec E) locator else [])
      in estimate_tokens header + estimate_tokens (passage_text E chunk) + PASSAGE_SEPARATOR_TOKENS)"

definition context_token_count :: "ctx_env \<Rightarrow> claims list \<Rightarrow> int" where
  "context_token_count E chunks = sum_list (map (\<lambda>(index, chunk). passage_token_cost E chunk index) (enumerate 1 chunks))"

section \<open>Redundant passages\<close>

text \<open>\<open>s.split()\<close> and the matches of \<open>\w+\<close>: the maximal runs of characters with a property.\<close>

function runs :: "(char \<Rightarrow> bool) \<Rightarrow> string \<Rightarrow> string list" where
  "runs P s = (case dropWhile (\<lambda>ch. \<not> P ch) s of
     [] \<Rightarrow> []
   | ch # r \<Rightarrow> (ch # takeWhile P r) # runs P (dropWhile P r))"
  by pat_completeness auto
termination
proof (relation "measure (\<lambda>(P, s). length s)")
  fix P and s r :: string and ch assume "dropWhile (\<lambda>ch. \<not> P ch) s = ch # r"
  then have "length (ch # r) \<le> length s" by (metis length_dropWhile_le)
  moreover have "length (dropWhile P r) \<le> length r" by (rule length_dropWhile_le)
  ultimately show "((P, dropWhile P r), P, s) \<in> measure (\<lambda>(P, s). length s)" by simp
qed simp

declare runs.simps [simp del]

fun join_spaces :: "string list \<Rightarrow> string" where
  "join_spaces [] = []"
| "join_spaces [w] = w"
| "join_spaces (w # ws) = w @ '' '' @ join_spaces ws"

definition normalized_text :: "ctx_env \<Rightarrow> string \<Rightarrow> string" where
  "normalized_text E s = join_spaces (runs (\<lambda>ch. \<not> py_isspace ch) (cx_casefold E s))"

definition word_set :: "ctx_env \<Rightarrow> string \<Rightarrow> string set" where
  "word_set E s = set (runs (\<lambda>ch. py_isalnum ch \<or> ch = CHR ''_'') (cx_casefold E s))"

definition near_duplicate :: "ctx_env \<Rightarrow> string \<Rightarrow> string \<times> string set \<Rightarrow> bool" where
  "near_duplicate E s prior = (case prior of (prior_normalized, prior_words) \<Rightarrow>
     normalized_text E s = prior_normalized
     \<or> (let words = word_set E s; un = words \<union> prior_words in
         card words \<ge> 5 \<and> card prior_words \<ge> 5 \<and> un \<noteq> {}
         \<and> real (card (words \<inter> prior_words)) / real (card un) \<ge> 0.9))"

definition redundant :: "ctx_env \<Rightarrow> string \<Rightarrow> (string \<times> string set) list \<Rightarrow> bool" where
  "redundant E s accepted = list_ex (near_duplicate E s) accepted"

text \<open>\<open>float(v)\<close>: an integer beyond the float range raises, which \<open>_score\<close> does not catch.\<close>

definition ctx_score :: "ctx_env \<Rightarrow> claims \<Rightarrow> py_exn + real" where
  "ctx_score E chunk =
     (let v = (if claim chunk ''reranker_score'' = PNone
               then dget_default chunk ''score'' (PFloat 0) else claim chunk ''reranker_score'') in
      case v of
        PBool b \<Rightarrow> Inr (if b then 1 else 0)
      | PInt i \<Rightarrow> if \<bar>i\<bar> < 2 ^ 1024 - 2 ^ 970 then Inr (of_int i) else Inl OverflowError
      | PFloat x \<Rightarrow> Inr x
      | PStr s \<Rightarrow> Inr (case cx_float E s of Some x \<Rightarrow> x | None \<Rightarrow> 0)
      | _ \<Rightarrow> Inr 0)"

fun deduplicate_loop ::
  "ctx_env \<Rightarrow> string set \<Rightarrow> (string \<times> string set) list \<Rightarrow> (nat \<times> pyval) list \<Rightarrow> (nat \<times> claims) list" where
  "deduplicate_loop E seen_ids accepted [] = []"
| "deduplicate_loop E seen_ids accepted ((index, candidate) # rest) =
     (case candidate of
        PDict d \<Rightarrow>
          (let s = passage_text E d; chunk_id = source_id E d index in
           if s = [] then deduplicate_loop E seen_ids accepted rest
           else if chunk_id \<in> seen_ids \<or> redundant E s accepted then deduplicate_loop E seen_ids accepted rest
           else (index, d) # deduplicate_loop E (insert chunk_id seen_ids)
                  (accepted @ [(normalized_text E s, word_set E s)]) rest)
      | _ \<Rightarrow> deduplicate_loop E seen_ids accepted rest)"

definition deduplicate :: "ctx_env \<Rightarrow> pyval list \<Rightarrow> (nat \<times> claims) list" where
  "deduplicate E candidates = deduplicate_loop E {} [] (enumerate 0 candidates)"

section \<open>Truncation\<close>

definition with_text :: "claims \<Rightarrow> string \<Rightarrow> claims" where
  "with_text chunk s = dset ''text'' (PStr s) chunk"

function shrink :: "ctx_env \<Rightarrow> claims \<Rightarrow> int \<Rightarrow> nat \<Rightarrow> string \<Rightarrow> claims option" where
  "shrink E probe budget passage_number head =
     (if head = [] then None
      else if passage_token_cost E (with_text probe head) passage_number > budget
      then shrink E probe budget passage_number (rstrip (butlast head))
      else Some (with_text probe head))"
  by pat_completeness auto
termination
proof (relation "measure (\<lambda>(E, probe, budget, n, head). length head)")
  fix E probe budget n and head :: string assume "head \<noteq> []"
  with length_rstrip [of "butlast head"] have "length (rstrip (butlast head)) < length head"
    by (simp add: less_le_trans [of _ "length head"]) (metis One_nat_def diff_Suc_less le_less_trans length_greater_0_conv)
  then show "((E, probe, budget, n, rstrip (butlast head)), E, probe, budget, n, head) \<in> measure (\<lambda>(E, probe, budget, n, head). length head)"
    by simp
qed simp

declare shrink.simps [simp del]

definition truncate_to_budget :: "ctx_env \<Rightarrow> claims \<Rightarrow> int \<Rightarrow> nat \<Rightarrow> claims option" where
  "truncate_to_budget E chunk budget passage_number =
     (let original = passage_text E chunk;
          fixed_cost = passage_token_cost E (with_text chunk []) passage_number;
          available = budget - fixed_cost in
      if available \<le> 0 then None
      else let max_chars = py_int (of_int available * DEFAULT_CHARS_PER_TOKEN) in
        if max_chars \<le> 0 then None
        else let head = rstrip (py_upto max_chars original) in
          if head = [] then None
          else shrink E (dset ''context_truncated'' (PBool (length head < length original)) (with_text chunk head))
                 budget passage_number head)"

section \<open>Selection\<close>

definition score_of :: "ctx_env \<Rightarrow> claims \<Rightarrow> real" where
  "score_of E chunk = (case ctx_score E chunk of Inr x \<Rightarrow> x | Inl _ \<Rightarrow> 0)"

definition ranked :: "ctx_env \<Rightarrow> (nat \<times> claims) list \<Rightarrow> (nat \<times> claims) list" where
  "ranked E remaining = sort_key (\<lambda>(i, d). - score_of E d) (sort_key fst remaining)"

definition choose_passage :: "ctx_env \<Rightarrow> real \<Rightarrow> string set \<Rightarrow> (nat \<times> claims) list \<Rightarrow> nat \<times> claims" where
  "choose_passage E tolerance selected_sources remaining =
     (let rk = ranked E remaining; best = hd rk in
      if source_key E (snd best) (fst best) \<in> selected_sources
      then (case filter (\<lambda>item. source_key E (snd item) (fst item) \<notin> selected_sources
                   \<and> score_of E (snd best) - score_of E (snd item) \<le> tolerance) rk of
              [] \<Rightarrow> best | item # _ \<Rightarrow> item)
      else best)"

lemma set_ranked [simp]: "set (ranked E r) = set r"
  by (simp add: ranked_def)

lemma choose_passage_mem: "r \<noteq> [] \<Longrightarrow> choose_passage E t S r \<in> set r"
proof -
  assume "r \<noteq> []"
  then have "ranked E r \<noteq> []" by (metis set_ranked set_empty)
  then have "hd (ranked E r) \<in> set r" by (metis hd_in_set set_ranked)
  moreover have "set (filter P (ranked E r)) \<subseteq> set r" for P by auto
  ultimately show ?thesis unfolding choose_passage_def Let_def
    by (auto split: list.split) (metis (no_types, lifting) Cons_eq_filterD in_set_conv_decomp set_ranked)
qed

text \<open>One turn of the loop: the passage to add, if the choice fits or can be made to fit.\<close>

definition admit_passage :: "ctx_env \<Rightarrow> int \<Rightarrow> claims list \<Rightarrow> int \<Rightarrow> claims \<Rightarrow> claims option" where
  "admit_passage E token_budget selected used_tokens candidate =
     (let passage_number = length selected + 1; available = token_budget - used_tokens in
      if passage_token_cost E candidate passage_number > available
      then if selected \<noteq> [] then None else truncate_to_budget E candidate available passage_number
      else Some candidate)"

function assemble_loop ::
  "ctx_env \<Rightarrow> int \<Rightarrow> int \<Rightarrow> real \<Rightarrow> (nat \<times> claims) list \<Rightarrow> claims list \<Rightarrow> string set \<Rightarrow> int \<Rightarrow> py_exn + claims list" where
  "assemble_loop E token_budget max_passages tolerance remaining selected sources used_tokens =
     (if remaining = [] \<or> int (length selected) \<ge> max_passages then Inr selected
      else if list_ex (\<lambda>(i, d). ctx_score E d = Inl OverflowError) remaining then Inl OverflowError
      else
        (let choice = choose_passage E tolerance sources remaining; remaining' = remove1 choice remaining in
         case admit_passage E token_budget selected used_tokens (snd choice) of
           None \<Rightarrow> assemble_loop E token_budget max_passages tolerance remaining' selected sources used_tokens
         | Some p \<Rightarrow> assemble_loop E token_budget max_passages tolerance remaining' (selected @ [p])
               (insert (source_key E p (fst choice)) sources)
               (used_tokens + passage_token_cost E p (length selected + 1))))"
  by pat_completeness auto
termination
  by (relation "measure (\<lambda>(E, b, m, t, remaining, sel, src, u). length remaining)")
     (auto simp: length_remove1 choose_passage_mem)

declare assemble_loop.simps [simp del]

definition assemble_context :: "ctx_env \<Rightarrow> pyval list \<Rightarrow> int \<Rightarrow> int \<Rightarrow> real \<Rightarrow> py_exn + claims list" where
  "assemble_context E candidates token_budget max_passages tolerance =
     (if token_budget \<le> 0 \<or> max_passages \<le> 0 then Inr []
      else assemble_loop E token_budget max_passages tolerance (deduplicate E candidates) [] {} 0)"

section \<open>Costs\<close>

lemma estimate_nonneg [simp]: "0 \<le> estimate_tokens s"
  by (simp add: estimate_tokens_def DEFAULT_CHARS_PER_TOKEN_def)

lemma cost_nonneg: "0 \<le> passage_token_cost E d n"
  by (simp add: passage_token_cost_def Let_def PASSAGE_SEPARATOR_TOKENS_def)

text \<open>The cost of everything but the text of a passage.\<close>

definition overhead :: "ctx_env \<Rightarrow> claims \<Rightarrow> nat \<Rightarrow> int" where
  "overhead E d n = passage_token_cost E d n - estimate_tokens (passage_text E d)"

lemma cost_overhead: "passage_token_cost E d n = overhead E d n + estimate_tokens (passage_text E d)"
  by (simp add: overhead_def)

lemma claim_dset [simp]: "claim (dset k v d) k' = (if k' = k then v else claim d k')"
  by (simp add: claim_def)

lemma overhead_with_text [simp]: "overhead E (with_text d s) n = overhead E d n"
  by (simp add: overhead_def passage_token_cost_def source_id_def with_text_def Let_def)

lemma overhead_flag [simp]: "overhead E (dset ''context_truncated'' v d) n = overhead E d n"
  by (simp add: overhead_def passage_token_cost_def source_id_def Let_def)

lemma passage_text_with_text: "s \<noteq> [] \<Longrightarrow> passage_text E (with_text d s) = s"
  by (simp add: passage_text_def with_text_def py_str_def)

lemma context_token_count_append:
  "context_token_count E (sel @ [p]) = context_token_count E sel + passage_token_cost E p (length sel + 1)"
  by (simp add: context_token_count_def enumerate_append_eq)

section \<open>Truncation keeps a part of the passage\<close>

text \<open>\<open>p\<close> is \<open>d\<close> with its text cut to a nonempty part from the beginning.\<close>

definition cut_of :: "ctx_env \<Rightarrow> claims \<Rightarrow> claims \<Rightarrow> bool" where
  "cut_of E p d \<longleftrightarrow> passage_text E p \<noteq> [] \<and> prefix (passage_text E p) (passage_text E d)
     \<and> (\<forall>k. k \<notin> {''text'', ''context_truncated''} \<longrightarrow> claim p k = claim d k)"

lemma prefix_rstrip: "prefix (rstrip s) s"
proof -
  have "rev s = takeWhile py_isspace (rev s) @ dropWhile py_isspace (rev s)" by simp
  then have "s = rev (dropWhile py_isspace (rev s)) @ rev (takeWhile py_isspace (rev s))" by (metis rev_append rev_rev_ident)
  then show ?thesis unfolding rstrip_def by (metis prefixI)
qed

lemma prefix_butlast: "prefix (butlast s) s"
  by (metis append_butlast_last_id butlast.simps(1) prefixI prefix_order.refl)

lemma shrink_Some:
  "shrink E probe budget n s = Some p \<Longrightarrow>
     \<exists>r. r \<noteq> [] \<and> prefix r s \<and> p = with_text probe r \<and> passage_token_cost E p n \<le> budget"
proof (induction E probe budget n s rule: shrink.induct)
  case (1 E probe budget n s)
  have "s \<noteq> []" using "1.prems" by (subst (asm) shrink.simps) (simp split: if_splits)
  show ?case
  proof (cases "passage_token_cost E (with_text probe s) n > budget")
    case True
    then have "shrink E probe budget n (rstrip (butlast s)) = Some p"
      using "1.prems" \<open>s \<noteq> []\<close> by (subst (asm) shrink.simps) simp
    from "1.IH" [OF \<open>s \<noteq> []\<close> True this]
    obtain r where r: "r \<noteq> []" "prefix r (rstrip (butlast s))" "p = with_text probe r" "passage_token_cost E p n \<le> budget" by blast
    have "prefix r s" using r(2) prefix_rstrip prefix_butlast prefix_order.trans by metis
    with r show ?thesis by blast
  next
    case False
    then have "p = with_text probe s" using "1.prems" \<open>s \<noteq> []\<close> by (subst (asm) shrink.simps) simp
    with False \<open>s \<noteq> []\<close> show ?thesis by auto
  qed
qed

lemma prefix_py_upto: "prefix (py_upto i s) s"
  by (simp add: py_upto_def take_is_prefix)

lemma truncate_Some:
  assumes "truncate_to_budget E d budget n = Some p"
  shows "cut_of E p d \<and> passage_token_cost E p n \<le> budget"
proof -
  obtain i b where sh: "shrink E (dset ''context_truncated'' (PBool b) (with_text d (rstrip (py_upto i (passage_text E d)))))
      budget n (rstrip (py_upto i (passage_text E d))) = Some p"
    using assms by (auto simp: truncate_to_budget_def Let_def split: if_splits)
  then obtain r where r: "r \<noteq> []" "prefix r (rstrip (py_upto i (passage_text E d)))" "passage_token_cost E p n \<le> budget"
    "p = with_text (dset ''context_truncated'' (PBool b) (with_text d (rstrip (py_upto i (passage_text E d))))) r"
    by (blast dest: shrink_Some)
  have "prefix r (passage_text E d)"
    using r(2) by (meson prefix_order.trans prefix_py_upto prefix_rstrip)
  moreover have "passage_text E p = r" using r(1,4) by (simp add: passage_text_with_text)
  moreover have "claim p k = claim d k" if "k \<notin> {''text'', ''context_truncated''}" for k
    using that r(4) by (simp add: with_text_def)
  ultimately show ?thesis using r(1,3) by (simp add: cut_of_def)
qed

section \<open>The selection\<close>

lemma ranked_sorted: "sorted (map (\<lambda>(i, d). - score_of E d) (ranked E r))"
  by (simp add: ranked_def)

lemma best_score:
  assumes "x \<in> set r" shows "score_of E (snd x) \<le> score_of E (snd (hd (ranked E r)))"
proof (cases "ranked E r")
  case Nil
  then show ?thesis using assms set_ranked [of E r] by (metis empty_iff empty_set)
next
  case (Cons y ys)
  moreover have "x \<in> set (y # ys)" using assms set_ranked [of E r] Cons by simp
  moreover have "- score_of E (snd y) \<le> - score_of E (snd z)" if "z \<in> set ys" for z
    using ranked_sorted [of E r] Cons that by (simp add: case_prod_beta)
  ultimately show ?thesis by (cases x) fastforce
qed

lemma choose_cases:
  fixes E S tol
  assumes "r \<noteq> []"
  defines "best \<equiv> hd (ranked E r)" and "new \<equiv> \<lambda>x. source_key E (snd x) (fst x) \<notin> S"
  defines "near \<equiv> \<lambda>x. score_of E (snd best) - score_of E (snd x) \<le> tol"
  shows "choose_passage E tol S r = best \<and> (new best \<or> (\<forall>x\<in>set r. \<not> (new x \<and> near x)))
    \<or> new (choose_passage E tol S r) \<and> near (choose_passage E tol S r)"
proof (cases "filter (\<lambda>x. new x \<and> near x) (ranked E r)")
  case Nil
  then have "\<forall>x\<in>set r. \<not> (new x \<and> near x)" using set_ranked [of E r] by (simp add: filter_empty_conv)
  with Nil show ?thesis by (auto simp: choose_passage_def Let_def best_def new_def near_def)
next
  case (Cons y ys)
  then have "new y \<and> near y" by (metis Cons_eq_filterD)
  with Cons show ?thesis by (auto simp: choose_passage_def Let_def best_def new_def near_def)
qed

text \<open>
  C30.  Diversity never displaces clearly stronger evidence: with a tolerance that is not
  negative, the passage chosen from the remaining ones is one of them and within the tolerance
  of the best score among them; and whenever a passage of a source not yet selected is within
  the tolerance of the best, the chosen passage is of such a source.
\<close>

theorem choice_within_tolerance:
  assumes "remaining \<noteq> []" "0 \<le> tolerance"
  shows "let c = choose_passage E tolerance S remaining; new = (\<lambda>x. source_key E (snd x) (fst x) \<notin> S) in
    c \<in> set remaining
    \<and> (\<forall>x\<in>set remaining. score_of E (snd x) - score_of E (snd c) \<le> tolerance)
    \<and> ((\<exists>x\<in>set remaining. new x \<and> (\<forall>y\<in>set remaining. score_of E (snd y) - score_of E (snd x) \<le> tolerance)) \<longrightarrow> new c)"
proof -
  let ?best = "hd (ranked E remaining)" and ?c = "choose_passage E tolerance S remaining"
  have b: "?best \<in> set remaining" using assms(1) set_ranked [of E remaining] by (metis hd_in_set set_empty)
  have best: "score_of E (snd x) \<le> score_of E (snd ?best)" if "x \<in> set remaining" for x using that by (rule best_score)
  from choose_cases [OF assms(1), of E tolerance S] have near: "score_of E (snd ?best) - score_of E (snd ?c) \<le> tolerance"
    using assms(2) by auto
  have "score_of E (snd x) - score_of E (snd ?c) \<le> tolerance" if "x \<in> set remaining" for x
    using best [OF that] near by linarith
  moreover have "source_key E (snd ?c) (fst ?c) \<notin> S"
    if x: "x \<in> set remaining" "source_key E (snd x) (fst x) \<notin> S"
      "\<forall>y\<in>set remaining. score_of E (snd y) - score_of E (snd x) \<le> tolerance" for x
    using choose_cases [OF assms(1), of E tolerance S] x bspec [OF x(3) b] by auto
  ultimately show ?thesis using choose_passage_mem [OF assms(1)] unfolding Let_def by blast
qed

lemma admit_Some:
  assumes "admit_passage E budget sel used d = Some p"
  shows "passage_token_cost E p (length sel + 1) \<le> budget - used \<and> (p = d \<or> sel = [] \<and> cut_of E p d)"
  using assms truncate_Some [of E d "budget - used" "length sel + 1" p]
  by (auto simp: admit_passage_def Let_def split: if_splits)

lemma assemble_loop_ok:
  assumes "assemble_loop E budget m tol remaining sel S used = Inr result"
    and "used = context_token_count E sel" "used \<le> budget" "int (length sel) \<le> m"
    and "\<forall>p\<in>set sel. \<exists>d\<in>D. p = d \<or> cut_of E p d" "snd ` set remaining \<subseteq> D"
  shows "context_token_count E result \<le> budget \<and> int (length result) \<le> m \<and> (\<forall>p\<in>set result. \<exists>d\<in>D. p = d \<or> cut_of E p d)"
  using assms
proof (induction E budget m tol remaining sel S used rule: assemble_loop.induct)
  case (1 E budget m tol remaining sel S used)
  show ?case
  proof (cases "remaining = [] \<or> int (length sel) \<ge> m")
    case True
    with "1.prems" show ?thesis by (subst (asm) assemble_loop.simps) simp
  next
    case False
    let ?c = "choose_passage E tol S remaining"
    have nov: "\<not> list_ex (\<lambda>(i, d). ctx_score E d = Inl OverflowError) remaining"
      using "1.prems"(1) False by (subst (asm) assemble_loop.simps) (simp split: if_splits)
    have c: "?c \<in> set remaining" using False by (simp add: choose_passage_mem)
    have sub: "snd ` set (remove1 ?c remaining) \<subseteq> D" using "1.prems"(6) set_remove1_subset by fastforce
    show ?thesis
    proof (cases "admit_passage E budget sel used (snd ?c)")
      case None
      with "1.prems"(1) False nov have "assemble_loop E budget m tol (remove1 ?c remaining) sel S used = Inr result"
        by (subst (asm) assemble_loop.simps) (simp add: Let_def)
      with "1.IH"(1) [OF False nov refl refl None] "1.prems" sub show ?thesis by blast
    next
      case (Some p)
      note a = admit_Some [OF Some]
      have "assemble_loop E budget m tol (remove1 ?c remaining) (sel @ [p]) (insert (source_key E p (fst ?c)) S)
          (used + passage_token_cost E p (length sel + 1)) = Inr result"
        using "1.prems"(1) False nov Some by (subst (asm) assemble_loop.simps) (simp add: Let_def)
      moreover have "\<forall>q\<in>set (sel @ [p]). \<exists>d\<in>D. q = d \<or> cut_of E q d" using "1.prems"(5,6) a c by auto
      ultimately show ?thesis
        using "1.IH"(2) [OF False nov refl refl Some] "1.prems"(2) a False sub
        by (simp add: context_token_count_append)
    qed
  qed
qed

lemma deduplicate_loop_mem:
  "(i, d) \<in> set (deduplicate_loop E seen acc xs) \<Longrightarrow> (i, PDict d) \<in> set xs"
proof (induction xs arbitrary: seen acc)
  case (Cons x rest)
  obtain index candidate where x: "x = (index, candidate)" by fastforce
  show ?case
    using Cons x by (cases candidate) (auto simp: Let_def split: if_splits)
qed simp

lemma deduplicate_mem: "snd ` set (deduplicate E cands) \<subseteq> {d. PDict d \<in> set cands}"
  by (auto simp: deduplicate_def dest!: deduplicate_loop_mem) (auto simp: in_set_enumerate_eq, metis nth_mem)

text \<open>
  C22.  The prompt fits.  The passages selected from any candidates, dictionaries of any shape
  or other values, cost at most the token budget with their headers and separators and are at
  most \<open>max_passages\<close>; each is a candidate, or a candidate whose text is cut to a nonempty
  beginning and whose other fields are kept.
\<close>

theorem context_within_budget:
  assumes "assemble_context E candidates token_budget max_passages tolerance = Inr result"
  shows "context_token_count E result \<le> max 0 token_budget \<and> int (length result) \<le> max 0 max_passages
    \<and> (\<forall>p\<in>set result. \<exists>d. PDict d \<in> set candidates \<and> (p = d \<or> cut_of E p d))"
proof (cases "token_budget \<le> 0 \<or> max_passages \<le> 0")
  case True
  with assms show ?thesis by (auto simp: assemble_context_def context_token_count_def)
next
  case False
  then have "assemble_loop E token_budget max_passages tolerance (deduplicate E candidates) [] {} 0 = Inr result"
    using assms by (simp add: assemble_context_def)
  from assemble_loop_ok [OF this, of "{d. PDict d \<in> set candidates}"] False deduplicate_mem
  show ?thesis by (simp add: context_token_count_def)
qed

text \<open>The first pass over the candidates leaves no redundant passage.\<close>

lemma deduplicate_loop_accepts:
  "(i, d) \<in> set (deduplicate_loop E seen acc xs) \<Longrightarrow> source_id E d i \<notin> seen \<and> \<not> redundant E (passage_text E d) acc"
proof (induction xs arbitrary: seen acc)
  case (Cons x rest)
  obtain index candidate where x: "x = (index, candidate)" by fastforce
  show ?case
  proof (cases candidate)
    case (PDict c)
    with Cons.prems x Cons.IH [of "insert (source_id E c index) seen" "acc @ [(normalized_text E (passage_text E c), word_set E (passage_text E c))]"]
      Cons.IH [of seen acc]
    show ?thesis by (auto simp: Let_def redundant_def split: if_splits)
  qed (use Cons x in auto)
qed simp

lemma deduplicate_loop_pairwise:
  "sorted_wrt (\<lambda>(i, a) (j, b). source_id E a i \<noteq> source_id E b j
      \<and> \<not> near_duplicate E (passage_text E b) (normalized_text E (passage_text E a), word_set E (passage_text E a)))
    (deduplicate_loop E seen acc xs)"
proof (induction xs arbitrary: seen acc)
  case (Cons x rest)
  obtain index candidate where x: "x = (index, candidate)" by fastforce
  show ?case
  proof (cases candidate)
    case (PDict c)
    have "source_id E c index \<noteq> source_id E b j
        \<and> \<not> near_duplicate E (passage_text E b) (normalized_text E (passage_text E c), word_set E (passage_text E c))"
      if "(j, b) \<in> set (deduplicate_loop E (insert (source_id E c index) seen)
          (acc @ [(normalized_text E (passage_text E c), word_set E (passage_text E c))]) rest)" for j b
      using deduplicate_loop_accepts [OF that] by (auto simp: redundant_def)
    with Cons x PDict show ?thesis by (auto simp: Let_def)
  qed (use Cons x in auto)
qed simp

text \<open>
  A passage delivered under \<open>content\<close> or \<open>chunk\<close> instead of \<open>text\<close> is never
  truncated: the probe with empty text falls back to the full text, so that no budget is left.
  If its cost exceeds the budget, the prompt has no passage at all, although the header fits.
\<close>

theorem content_passage_dropped:
  assumes "\<not> truthy (claim d ''text'')" "passage_token_cost E d 1 > token_budget" "ctx_score E d \<noteq> Inl OverflowError"
  shows "assemble_context E [PDict d] token_budget max_passages tolerance = Inr []"
proof -
  have "passage_text E (with_text d []) = passage_text E d"
    using assms(1) by (simp add: passage_text_def with_text_def)
  then have "passage_token_cost E (with_text d []) 1 = passage_token_cost E d 1"
    by (simp add: cost_overhead)
  then have "truncate_to_budget E d token_budget 1 = None"
    using assms(2) by (simp add: truncate_to_budget_def Let_def)
  then have adm: "admit_passage E token_budget [] 0 d = None"
    using assms(2) by (simp add: admit_passage_def)
  show ?thesis
  proof (cases "passage_text E d = []")
    case False
    then have 2: "deduplicate E [PDict d] = [(0, d)]" by (simp add: deduplicate_def redundant_def Let_def)
    have "choose_passage E tolerance {} [(0, d)] = (0, d)" using choose_passage_mem [of "[(0, d)]" E tolerance "{}"] by simp
    then have "assemble_loop E token_budget max_passages tolerance [(0, d)] [] {} 0 = Inr []"
      using adm assms(3) by (subst assemble_loop.simps) (simp add: assemble_loop.simps [where remaining = "[]"])
    with 2 show ?thesis by (simp add: assemble_context_def)
  qed (simp add: assemble_context_def deduplicate_def Let_def assemble_loop.simps)
qed

section \<open>A sample\<close>

definition demo_ctx :: ctx_env where
  "demo_ctx = \<lparr>cx_codec = sample_codec [], cx_casefold = (\<lambda>s. s), cx_float = (\<lambda>_. None)\<rparr>"

definition demo_passage :: "string \<Rightarrow> string \<Rightarrow> string \<Rightarrow> claims" where
  "demo_passage ident key s = [(''chunk_id'', PStr ident), (key, PStr s), (''score'', PFloat 1)]"

lemma demo_header: "show_nat 1 = ''1''"
  by code_simp

lemma demo_estimate: "estimate_tokens ''[1] source=c'' = 4"
proof -
  have "\<lceil>(12::real) / 3.5\<rceil> = 4" by (simp add: ceiling_eq_iff)
  then show ?thesis by (simp add: estimate_tokens_def DEFAULT_CHARS_PER_TOKEN_def)
qed

lemma demo_fields:
  "source_id demo_ctx (demo_passage ''c'' ''text'' s) n = ''c''" "source_id demo_ctx (demo_passage ''c'' ''content'' s) n = ''c''"
  "claim (demo_passage ''c'' ''text'' s) ''page'' = PNone" "claim (demo_passage ''c'' ''content'' s) ''page'' = PNone"
  "claim (demo_passage ''c'' ''text'' s) ''section'' = PNone" "claim (demo_passage ''c'' ''content'' s) ''section'' = PNone"
  "s \<noteq> [] \<Longrightarrow> passage_text demo_ctx (demo_passage ''c'' ''text'' s) = s" "s \<noteq> [] \<Longrightarrow> passage_text demo_ctx (demo_passage ''c'' ''content'' s) = s"
  by (simp_all add: source_id_def passage_text_def demo_passage_def claim_def py_str_def)

lemma demo_cost:
  assumes "s \<noteq> []"
  shows "passage_token_cost demo_ctx (demo_passage ''c'' ''text'' s) 1 = 6 + estimate_tokens s"
    "passage_token_cost demo_ctx (demo_passage ''c'' ''content'' s) 1 = 6 + estimate_tokens s"
  unfolding passage_token_cost_def Let_def demo_fields demo_header PASSAGE_SEPARATOR_TOKENS_def
    demo_fields(7) [OF assms] demo_fields(8) [OF assms]
  using demo_estimate by simp_all

theorem content_passage_dropped_witness:
  "assemble_context demo_ctx [PDict (demo_passage ''c'' ''content'' (replicate 100 CHR ''x''))] 20 5 0 = Inr []"
proof (rule content_passage_dropped)
  show "\<not> truthy (claim (demo_passage ''c'' ''content'' (replicate 100 CHR ''x'')) ''text'')"
    by (simp add: demo_passage_def claim_def)
  have "28 < estimate_tokens (replicate 100 CHR ''x'')"
    by (simp add: estimate_tokens_def DEFAULT_CHARS_PER_TOKEN_def less_ceiling_iff)
  then show "20 < passage_token_cost demo_ctx (demo_passage ''c'' ''content'' (replicate 100 CHR ''x'')) 1"
    using demo_cost(2) [of "replicate 100 CHR ''x''"] by simp
  show "ctx_score demo_ctx (demo_passage ''c'' ''content'' (replicate 100 CHR ''x'')) \<noteq> Inl OverflowError"
    by (simp add: ctx_score_def demo_passage_def claim_def dget_default_def)
qed

theorem choice_within_tolerance_witness:
  "choose_passage demo_ctx 0 {} [(0, demo_passage ''c'' ''text'' ''one''), (1, demo_passage ''d'' ''text'' ''two'')]
     \<in> set [(0, demo_passage ''c'' ''text'' ''one''), (1, demo_passage ''d'' ''text'' ''two'')]"
  using choice_within_tolerance [of "[(0, demo_passage ''c'' ''text'' ''one''), (1, demo_passage ''d'' ''text'' ''two'')]" 0 demo_ctx "{}"]
  unfolding Let_def by blast

lemma demo_assemble:
  "assemble_context demo_ctx [PDict (demo_passage ''c'' ''text'' ''one two'')] 20 5 0 = Inr [demo_passage ''c'' ''text'' ''one two'']"
proof -
  let ?d = "demo_passage ''c'' ''text'' ''one two''"
  have c: "passage_token_cost demo_ctx ?d 1 = 8"
    using demo_cost(1) [of "''one two''"] by (simp add: estimate_tokens_def DEFAULT_CHARS_PER_TOKEN_def)
  have ne: "passage_text demo_ctx ?d \<noteq> []" using demo_fields(7) [of "''one two''"] by simp
  have s: "ctx_score demo_ctx ?d = Inr 1" by (simp add: ctx_score_def demo_passage_def claim_def dget_default_def)
  have ch: "choose_passage demo_ctx 0 {} [(0, ?d)] = (0, ?d)" using choose_passage_mem [of "[(0, ?d)]" demo_ctx 0 "{}"] by simp
  have "deduplicate demo_ctx [PDict ?d] = [(0, ?d)]" using ne by (simp add: deduplicate_def redundant_def Let_def)
  then show ?thesis using ch s c
    by (simp add: assemble_context_def assemble_loop.simps [where remaining = "[(0, ?d)]"] assemble_loop.simps [where remaining = "[]"] admit_passage_def)
qed

theorem context_within_budget_witness: "context_token_count demo_ctx [demo_passage ''c'' ''text'' ''one two''] \<le> 20"
  using context_within_budget [OF demo_assemble] by simp

end
