(* ===== verification/Retrieval_Metrics.thy ===== *)
theory Retrieval_Metrics
  imports Prelude
begin

text \<open>
  \<open>backend/rag/app/services/retrieval_metrics.py\<close>: recall, precision, reciprocal rank,
  normalised discounted cumulative gain and hit rate of a ranked list of chunk ids.
  Floats are reals.
\<close>

section \<open>Metrics\<close>

fun dedupe_loop :: "string set \<Rightarrow> string list \<Rightarrow> string list \<Rightarrow> string list" where
  "dedupe_loop seen ordered [] = ordered"
| "dedupe_loop seen ordered (x # xs) =
     (if x \<notin> seen then dedupe_loop (insert x seen) (ordered @ [x]) xs else dedupe_loop seen ordered xs)"

definition dedupe :: "string list \<Rightarrow> string list" where
  "dedupe retrieved = dedupe_loop {} [] retrieved"

definition top_k :: "string list \<Rightarrow> int \<Rightarrow> string list" where
  "top_k retrieved k = (if k \<le> 0 then [] else py_upto k (dedupe retrieved))"

definition recall_at_k :: "string list \<Rightarrow> string set \<Rightarrow> int \<Rightarrow> real" where
  "recall_at_k retrieved relevant k =
     (if relevant = {} then 0 else real (card (set (top_k retrieved k) \<inter> relevant)) / real (card relevant))"

definition precision_at_k :: "string list \<Rightarrow> string set \<Rightarrow> int \<Rightarrow> real" where
  "precision_at_k retrieved relevant k =
     (if relevant = {} then 0
      else let topk = top_k retrieved k in
        if topk = [] then 0 else real (card (set topk \<inter> relevant)) / real (length topk))"

fun first_hit :: "string set \<Rightarrow> nat \<Rightarrow> string list \<Rightarrow> real" where
  "first_hit relevant rank [] = 0"
| "first_hit relevant rank (x # xs) = (if x \<in> relevant then 1 / real rank else first_hit relevant (rank + 1) xs)"

definition reciprocal_rank :: "string list \<Rightarrow> string set \<Rightarrow> real" where
  "reciprocal_rank retrieved relevant = (if relevant = {} then 0 else first_hit relevant 1 (dedupe retrieved))"

definition gain :: "nat \<Rightarrow> real" where
  "gain rank = 1 / log 2 (real (rank + 1))"

definition ndcg_at_k :: "string list \<Rightarrow> string set \<Rightarrow> int \<Rightarrow> real" where
  "ndcg_at_k retrieved relevant k =
     (if relevant = {} then 0
      else let topk = top_k retrieved k in
        if topk = [] then 0
        else
          let dcg = sum_list (map (\<lambda>(rank, x). gain rank) (filter (\<lambda>(rank, x). x \<in> relevant) (enumerate 1 topk)));
              ideal_count = min (int (card relevant)) k;
              idcg = sum_list (map gain [1..<nat ideal_count + 1])
          in if idcg \<noteq> 0 then dcg / idcg else 0)"

definition hit_rate_at_k :: "string list \<Rightarrow> string set \<Rightarrow> int \<Rightarrow> real" where
  "hit_rate_at_k retrieved relevant k =
     (if relevant = {} then 0 else if set (top_k retrieved k) \<inter> relevant \<noteq> {} then 1 else 0)"

section \<open>Lemmas\<close>

lemma dedupe_loop_eq: "dedupe_loop seen ordered xs = ordered @ dedup_from seen xs"
  by (induction xs arbitrary: seen ordered) simp_all

lemma dedupe_eq: "dedupe xs = dedup_from {} xs"
  by (simp add: dedupe_def dedupe_loop_eq)

lemma distinct_dedupe: "distinct (dedupe xs)"
  by (simp add: dedupe_eq distinct_dedup_from)

lemma top_k_pos: "0 < k \<Longrightarrow> top_k xs k = take (nat k) (dedupe xs)"
  using py_upto_nat [of "nat k" "dedupe xs"] by (simp add: top_k_def)

lemma distinct_top_k: "distinct (top_k xs k)"
  using distinct_dedupe by (cases "0 < k") (simp_all add: top_k_pos, simp add: top_k_def)

lemma first_hit_range: "0 < n \<Longrightarrow> 0 \<le> first_hit r n xs \<and> first_hit r n xs \<le> 1"
  by (induction xs arbitrary: n) auto

lemma gain_pos: "0 < n \<Longrightarrow> 0 < gain n"
  by (simp add: gain_def)

lemma gain_decreasing: "0 < m \<Longrightarrow> m < n \<Longrightarrow> gain n < gain m"
  by (simp add: gain_def frac_less2)

text \<open>The discounted gain as a sum over the set of ranks that are hits.\<close>

definition hit_ranks :: "string set \<Rightarrow> string list \<Rightarrow> nat set" where
  "hit_ranks relevant topk = {i. i < length topk \<and> topk ! i \<in> relevant}"

lemma finite_hit_ranks [simp]: "finite (hit_ranks r topk)"
  by (simp add: hit_ranks_def)

lemma dcg_sum:
  "sum_list (map (\<lambda>(rank, x). gain rank) (filter (\<lambda>(rank, x). x \<in> r) (enumerate n topk))) = (\<Sum>i\<in>hit_ranks r topk. gain (n + i))"
proof (induction topk arbitrary: n)
  case (Cons x topk)
  have "hit_ranks r (x # topk) = (if x \<in> r then {0} else {}) \<union> Suc ` hit_ranks r topk"
    by (auto simp: hit_ranks_def image_iff less_Suc_eq_0_disj)
  then show ?case using Cons [of "Suc n"]
    by (auto simp: sum.reindex comp_def)
qed (simp add: hit_ranks_def)

lemma idcg_sum: "sum_list (map gain [1..<n + 1]) = (\<Sum>i<n. gain (1 + i))"
  by (induction n) (simp_all add: add.commute)

lemma card_hit_ranks: "distinct topk \<Longrightarrow> card (hit_ranks r topk) = card (set topk \<inter> r)"
proof -
  assume d: "distinct topk"
  have "(!) topk ` hit_ranks r topk = set topk \<inter> r" by (auto simp: hit_ranks_def set_conv_nth)
  moreover have "inj_on ((!) topk) (hit_ranks r topk)" using d by (auto simp: inj_on_def hit_ranks_def nth_eq_iff_index_eq)
  ultimately show ?thesis by (metis card_image)
qed

text \<open>A decreasing weight: the heaviest set of at most \<open>m\<close> positions is the first \<open>m\<close>.\<close>

lemma heaviest_prefix:
  fixes d :: "nat \<Rightarrow> real"
  assumes fin: "finite A" and card: "card A \<le> m" and pos: "\<And>i. 0 < d i" and dec: "\<And>i j. i < j \<Longrightarrow> d j < d i"
  shows "sum d A \<le> sum d {..<m} \<and> (sum d A = sum d {..<m} \<longleftrightarrow> A = {..<m})"
proof -
  let ?M = "{..<m}"
  have a: "sum d A = sum d (A \<inter> ?M) + sum d (A - ?M)" "sum d ?M = sum d (A \<inter> ?M) + sum d (?M - A)"
    using fin by (simp_all add: sum.Int_Diff [of A _ ?M] sum.Int_Diff [of ?M _ A] Int_commute)
  have "card A = card (A \<inter> ?M) + card (A - ?M)" "card ?M = card (A \<inter> ?M) + card (?M - A)"
    using fin by (metis card_Int_Diff finite_lessThan Int_commute)+
  then have c: "card (A - ?M) \<le> card (?M - A)" using card by simp
  have "d i \<le> d m" if "i \<in> A - ?M" for i using that dec [of m i] by (cases "i = m") auto
  then have "sum d (A - ?M) \<le> of_nat (card (A - ?M)) * d m" by (rule sum_bounded_above)
  also have "\<dots> \<le> of_nat (card (?M - A)) * d m" using c pos [of m] by simp
  finally have lo: "sum d (A - ?M) \<le> of_nat (card (?M - A)) * d m" .
  show ?thesis
  proof (cases "?M - A = {}")
    case True
    then have "card (A - ?M) = 0" using c by (metis card.empty le_zero_eq)
    then have "A - ?M = {}" using fin by simp
    with True have "A = ?M" by blast
    then show ?thesis by simp
  next
    case False
    have "(\<Sum>i\<in>?M - A. d m) < sum d (?M - A)" by (rule sum_strict_mono) (use False dec in auto)
    then have "sum d A < sum d ?M" using lo a by simp
    with False show ?thesis by auto
  qed
qed

lemma card_hits_le:
  assumes "finite relevant" "0 < k"
  shows "card (hit_ranks relevant (top_k retrieved k)) \<le> nat (min (int (card relevant)) k)"
proof -
  have "card (set (top_k retrieved k) \<inter> relevant) \<le> card relevant" using assms(1) by (simp add: card_mono)
  moreover have "card (set (top_k retrieved k) \<inter> relevant) \<le> length (top_k retrieved k)"
    by (meson card_length card_mono finite_set inf_le1 le_trans)
  moreover have "length (top_k retrieved k) \<le> nat k" using assms(2) by (simp add: top_k_pos)
  ultimately show ?thesis unfolding card_hit_ranks [OF distinct_top_k] using assms(2) by simp
qed

lemma all_below_take: "(\<forall>i<m. i < length xs \<and> xs ! i \<in> R) \<longleftrightarrow> m \<le> length xs \<and> set (take m xs) \<subseteq> R"
proof (cases "m \<le> length xs")
  case True
  then have "set (take m xs) = (!) xs ` {..<m}" by (simp add: nth_image lessThan_atLeast0)
  with True show ?thesis by auto
next
  case False
  then have "\<not> (\<forall>i<m. i < length xs \<and> xs ! i \<in> R)" by (metis less_irrefl not_le_imp_less)
  with False show ?thesis by blast
qed

lemma ndcg_hits:
  assumes "finite relevant" "relevant \<noteq> {}" "0 < k" "top_k retrieved k \<noteq> []"
  defines "m \<equiv> nat (min (int (card relevant)) k)"
  defines "A \<equiv> hit_ranks relevant (top_k retrieved k)"
  shows "ndcg_at_k retrieved relevant k = (\<Sum>i\<in>A. gain (1 + i)) / (\<Sum>i<m. gain (1 + i))
    \<and> 0 < (\<Sum>i<m. gain (1 + i)) \<and> (\<Sum>i\<in>A. gain (1 + i)) \<le> (\<Sum>i<m. gain (1 + i))
    \<and> ((\<Sum>i\<in>A. gain (1 + i)) = (\<Sum>i<m. gain (1 + i)) \<longleftrightarrow> A = {..<m})"
proof -
  have "0 < m" using assms by (simp add: card_gt_0_iff)
  then have p: "0 < (\<Sum>i<m. gain (1 + i))" by (intro sum_pos) (auto simp: gain_pos)
  have "card A \<le> m" unfolding A_def m_def by (rule card_hits_le [OF assms(1,3)])
  from heaviest_prefix [OF _ this, of "\<lambda>i. gain (1 + i)"]
  have "(\<Sum>i\<in>A. gain (1 + i)) \<le> (\<Sum>i<m. gain (1 + i)) \<and> ((\<Sum>i\<in>A. gain (1 + i)) = (\<Sum>i<m. gain (1 + i)) \<longleftrightarrow> A = {..<m})"
    by (simp add: A_def gain_pos gain_decreasing)
  moreover have "ndcg_at_k retrieved relevant k = (\<Sum>i\<in>A. gain (1 + i)) / (\<Sum>i<m. gain (1 + i))"
    using assms(2,4) p by (simp add: ndcg_at_k_def Let_def dcg_sum idcg_sum [simplified] A_def m_def)
  ultimately show ?thesis using p by blast
qed

text \<open>
  C1.  Every metric is a number between 0 and 1, for every ranked list with repetitions,
  every set of relevant ids and every cutoff, zero and negative ones included.
\<close>

theorem metrics_in_unit_interval:
  assumes "finite relevant"
  shows "recall_at_k retrieved relevant k \<in> {0..1} \<and> precision_at_k retrieved relevant k \<in> {0..1}
    \<and> reciprocal_rank retrieved relevant \<in> {0..1} \<and> ndcg_at_k retrieved relevant k \<in> {0..1}
    \<and> hit_rate_at_k retrieved relevant k \<in> {0..1}"
proof (intro conjI)
  have "card (set (top_k retrieved k) \<inter> relevant) \<le> card relevant" using assms by (simp add: card_mono)
  then show "recall_at_k retrieved relevant k \<in> {0..1}"
    by (auto simp: recall_at_k_def divide_le_eq_1)
  have "card (set (top_k retrieved k) \<inter> relevant) \<le> length (top_k retrieved k)"
    using card_mono [of "set (top_k retrieved k)" "set (top_k retrieved k) \<inter> relevant"] card_length [of "top_k retrieved k"] by simp
  then show "precision_at_k retrieved relevant k \<in> {0..1}"
    by (auto simp: precision_at_k_def Let_def divide_le_eq_1)
  show "reciprocal_rank retrieved relevant \<in> {0..1}" using first_hit_range [of 1] by (simp add: reciprocal_rank_def)
  show "ndcg_at_k retrieved relevant k \<in> {0..1}"
  proof (cases "relevant = {} \<or> top_k retrieved k = []")
    case False
    then have "0 < k" by (auto simp: top_k_def split: if_splits)
    with ndcg_hits [OF assms _ this] False
    show ?thesis by (auto simp: gain_pos less_imp_le intro!: divide_nonneg_pos sum_nonneg)
  qed (auto simp: ndcg_at_k_def Let_def)
  show "hit_rate_at_k retrieved relevant k \<in> {0..1}" by (simp add: hit_rate_at_k_def)
qed

theorem metrics_in_unit_interval_witness:
  "ndcg_at_k [''a'', ''b'', ''a'', ''c''] {''b'', ''d''} 3 \<in> {0..1}"
  using metrics_in_unit_interval [of "{''b'', ''d''}" "[''a'', ''b'', ''a'', ''c'']" 3] by simp

text \<open>
  C33.  Normalised discounted cumulative gain is 1 exactly when the ranking is ideal: the
  first \<open>min (len(relevant), k)\<close> distinct ids retrieved exist and are all relevant.
\<close>

theorem ndcg_one_iff_ideal:
  assumes "finite relevant" "relevant \<noteq> {}" "0 < k"
  shows "ndcg_at_k retrieved relevant k = 1 \<longleftrightarrow>
    (let m = nat (min (int (card relevant)) k) in
      m \<le> length (dedupe retrieved) \<and> set (take m (dedupe retrieved)) \<subseteq> relevant)"
proof (cases "top_k retrieved k = []")
  case True
  then have "dedupe retrieved = []" using assms(3) by (simp add: top_k_pos)
  moreover have "0 < card relevant" using assms(1,2) by (simp add: card_gt_0_iff)
  ultimately show ?thesis using True assms by (simp add: ndcg_at_k_def min_le_iff_disj)
next
  case False
  let ?m = "nat (min (int (card relevant)) k)" and ?A = "hit_ranks relevant (top_k retrieved k)"
  have mk: "?m \<le> nat k" by simp
  have bound: "card ?A \<le> ?m" by (rule card_hits_le [OF assms(1,3)])
  have "?A = {..<?m} \<longleftrightarrow> {..<?m} \<subseteq> ?A"
  proof
    assume "{..<?m} \<subseteq> ?A"
    from card_seteq [OF finite_hit_ranks this] bound show "?A = {..<?m}" unfolding card_lessThan by blast
  qed simp
  also have "\<dots> \<longleftrightarrow> (\<forall>i<?m. i < length (dedupe retrieved) \<and> dedupe retrieved ! i \<in> relevant)"
    using mk assms(3) by (auto simp: hit_ranks_def top_k_pos)
  also have "\<dots> \<longleftrightarrow> ?m \<le> length (dedupe retrieved) \<and> set (take ?m (dedupe retrieved)) \<subseteq> relevant"
    by (rule all_below_take)
  finally have "?A = {..<?m} \<longleftrightarrow> ?m \<le> length (dedupe retrieved) \<and> set (take ?m (dedupe retrieved)) \<subseteq> relevant" .
  then show ?thesis using ndcg_hits [OF assms False] by (auto simp: Let_def)
qed

theorem ndcg_one_iff_ideal_witness: "ndcg_at_k [''a'', ''a'', ''b'', ''c''] {''a'', ''b''} 5 = 1"
  using ndcg_one_iff_ideal [of "{''a'', ''b''}" 5 "[''a'', ''a'', ''b'', ''c'']"] by (simp add: dedupe_def)

end
