(* ===== verification/Spec2Isabelle.thy ===== *)
theory Spec2Isabelle
  imports
    Circuit_Breaker
    Rate_Limiter
    Retry
    Deduplication
    Bounded_Executor
    Dead_Letter
    Ingestion_Demo
    Embedding_Scheduler_Safety
    Rerank_Demo
    Vector_Isolation
    Vector_Envelope
    Gateway_Demo
    Context_Assembler
    Retrieval_Metrics
begin

text \<open>
  A verification of ragforge, a platform for retrieval-augmented generation made of Python
  services that talk over Kafka and RabbitMQ.  A request enters at the gateway, which keeps
  accounts and sessions and signs an internal ticket.  The files service takes uploads
  through extraction, a review of flagged text, and chunking.  The embedding service turns
  chunks and queries into vectors.  The vector service stores chunks per tenant and answers
  dense and hybrid searches.  The rag service reranks the hits and assembles the prompt.  All
  of them use the library \<open>backend/shared\<close>.  Paths below are relative to \<open>src/backend\<close>.

  \<^bold>\<open>Conventions\<close> (theory \<open>Prelude\<close>).  A Python dictionary is an association list in insertion
  order, a value of unknown type is a \<open>pyval\<close>, an exception is the \<open>Inl\<close> of a sum.  Floats
  are reals, except where the float range matters; strings are lists of Latin-1 characters.
  Clock readings, random tokens, identifiers and salts are arguments, so that a theorem holds
  for all of them.  Log lines, metrics that nothing reads and tracing are left out.  Code under
  concurrency is a step relation whose steps are the regions the code runs under its lock; the
  locale \<open>transition_invariant\<close> of \<open>Prelude\<close> lifts an invariant of the steps to every
  interleaving, and each component interprets it on its own step relation.

  \<^bold>\<open>Shared library\<close>
  \<^item> \<open>Circuit_Breaker\<close> (\<open>shared/circuit_breaker.py\<close>): safety of the counters and of the
    gauge in every interleaving, recovery, and a breaker that cancelled probes block for good.
  \<^item> \<open>Rate_Limiter\<close> (\<open>shared/rate_limiter.py\<close>): the bound on admissions, globally and for
    every address, through the locale \<open>metered\<close> interpreted by the token bucket.
  \<^item> \<open>Retry\<close> (\<open>shared/retry.py\<close>): the retry loop as a partial function, its delays, its
    exhaustion and the overflow of an unlimited policy.
  \<^item> \<open>Deduplication\<close> (\<open>shared/deduplication.py\<close>): refinement of a map from ids to expiry times.
  \<^item> \<open>Bounded_Executor\<close> (\<open>shared/bounded_executor.py\<close>): bounds on running and queued tasks
    and no lost permit.
  \<^item> \<open>Dead_Letter\<close> (\<open>shared/dlq.py\<close>): sanitising of messages and escalation of failures.
  \<^item> \<open>Auth\<close> (\<open>shared/auth.py\<close>): tickets are accepted only if genuine, round-trip, and are
    bound to their envelope; password hashes round-trip.  HMAC, PBKDF2, SHA-256, base64 and
    JSON are the parameter \<open>codec\<close> with their documented laws.
  \<^item> \<open>Sparse_Retrieval\<close> (\<open>shared/sparse_retrieval.py\<close>): the sparse vector of a text is of
    unit length with increasing 31-bit indices.

  \<^bold>\<open>Gateway\<close>
  \<^item> \<open>Gateway_Auth\<close> (\<open>gateway/app/services/auth_service.py\<close>): the collections as a record
    \<open>auth_db\<close>, every operation of \<open>AuthService\<close>, and histories of operations \<open>gw_run\<close>.
  \<^item> \<open>Gateway_Safety\<close>: over all histories, revocation is final, guesses at a password are
    bounded, administration stays in scope, a fresh session authenticates, set-up happens once.
    An operation is one step, so that these hold for operations that do not overlap.
  \<^item> \<open>Gateway_Demo\<close>: the gateway on which the witnesses run.

  \<^bold>\<open>Files service\<close>
  \<^item> \<open>Files_Text\<close> (\<open>files/app/utils/common.py\<close>): chunking loses nothing and returns, a patch
    map is spliced exactly.
  \<^item> \<open>Issue_Detector\<close> (\<open>files/app/services/issue_detector.py\<close>) and \<open>Ingestion_State\<close>
    (\<open>files/app/services/ingestion_state.py\<close>): the detectors and the transition table.
  \<^item> \<open>File_Documents\<close> and \<open>File_Repository\<close> (\<open>files/app/db\<close>): documents, scoping and the
    repository in a state and exception monad; the locale \<open>db_view\<close> gives the parts of the
    database an operation leaves alone.
  \<^item> \<open>File_Ingestion\<close> (\<open>files/app/services/file_ingestion_state_machine.py\<close>): both handlers
    with every branch.
  \<^item> \<open>Ingestion_Safety\<close>, \<open>Ingestion_Demo\<close>: the workflow stays in the scope of the caller,
    flagged text is held, a decision is taken once, redaction hands on sanitised text,
    deletion purges, failures are rolled back; a concrete review run by evaluation.

  \<^bold>\<open>Schedulers\<close>
  \<^item> \<open>Batch_Scheduling\<close>: futures, the ledger of futures and the locale \<open>batch_take\<close>, which
    both schedulers interpret.
  \<^item> \<open>Embedding_Scheduler\<close>, \<open>Embedding_Scheduler_Safety\<close>
    (\<open>embedding/app/services/inference_scheduler.py\<close>): callers get the embeddings of their own
    texts, every future is accounted for, all queues are bounded, batches are fair.
  \<^item> \<open>Rerank_Scheduler\<close>, \<open>Rerank_Safety\<close>, \<open>Rerank_Promises\<close>, \<open>Rerank_Demo\<close>
    (\<open>rag/app/services/rerank_scheduler.py\<close>): own scores, exact and bounded pair counters,
    progress, no lost wake-up.  The models are parameters that score item by item.

  \<^bold>\<open>Vector service\<close>
  \<^item> \<open>Rank_Fusion\<close> (\<open>vector_db/app/services/hybrid_retrieval.py\<close>): equal to the textbook
    reciprocal-rank fusion.
  \<^item> \<open>Vector_Store\<close> (\<open>vector_db/app/db/interfaces.py\<close>, \<open>in_memory.py\<close>): the interface as the
    locales \<open>store_reads\<close> and \<open>vector_store\<close>, interpreted by the in-memory store.
  \<^item> \<open>Qdrant_Store\<close> (\<open>vector_db/app/db/implementations/qdrant.py\<close>): the same contract over
    any client with the documented behaviour \<open>qclient_ok\<close>; the scroll loop is a partial
    function that is shown to return.
  \<^item> \<open>Vector_Service\<close>, \<open>Vector_Isolation\<close> (\<open>vector_db/app/services/vector_service.py\<close>):
    searches and writes stay within the tenant and owner of the caller, verification is exact.
  \<^item> \<open>Vector_Envelope\<close> (\<open>vector_db/app/services/base.py\<close> and the dispatchers): normalisation
    is well typed, every upsert is completed once.

  \<^bold>\<open>Retrieval in the rag service\<close>
  \<^item> \<open>Context_Assembler\<close> (\<open>rag/app/services/context_assembler.py\<close>): the prompt fits its
    budget, diversity respects the score tolerance, duplicates are dropped.
  \<^item> \<open>Retrieval_Metrics\<close> (\<open>rag/app/services/retrieval_metrics.py\<close>): all metrics are in the
    unit interval, nDCG is 1 exactly for ideal rankings.

  \<^bold>\<open>Bounds and fuel.\<close>  No definition has fuel.  Loops that may not end are
  \<open>partial_function (option)\<close> with lemmas that they return where they do (\<open>Retry\<close>, chunking, the scroll
  loop of \<open>Qdrant_Store\<close>); all others are total by a measure (the rest of the text, the
  remaining candidates, the queue).

  \<^bold>\<open>Not modelled.\<close>  The conversation graph, the LLM agent and the memory agent are driven by
  LangGraph and by model outputs.  Evaluation and benchmarks are aggregations in MongoDB and
  report formats.  The memory service, the request handlers of the files service and the
  embedding jobs are query building and message mapping around the modelled cores, left out
  for size.  Kafka, RabbitMQ, tracing, logging and metrics are input and output through
  third-party libraries.  The text guards are lists of regular expressions.  Configuration,
  routes and composition roots wire the parts together; scripts and the frontend call the
  running system.
\<close>

end
